(* ===== verification/Prelude.thy ===== *)
theory Prelude
  imports Main "HOL-Library.Word"
begin

text \<open>
  Shared vocabulary of the development: the Go types the service uses (64-bit \<open>int\<close>,
  \<open>time.Duration\<close>, \<open>time.Time\<close>, strings), the error values, the fragments of the Go
  standard library (\<open>strings\<close>, \<open>bytes\<close>, \<open>strconv\<close>) that several components call, and
  the outside world every component reads: the clock behind \<open>time.Now\<close> and the supply of
  identifiers behind \<open>newUUID\<close>.

  Go strings are byte strings; the model is a list of \<open>char\<close>. The case mappings and the
  white-space tests below are those of the ASCII range, which is where the service's own
  constants live; a non-ASCII letter is left unchanged by \<open>ToUpper\<close> here.
\<close>

section \<open>Integers, time and the outside world\<close>

named_theorems go_simps \<open>evaluation rules of the modelled standard library\<close>

type_synonym goint = "64 word"
type_synonym duration = "64 word"

text \<open>
  A \<open>float64\<close> is its IEEE bit pattern: the service only copies scores, and writes the
  literal 1.0.
\<close>

type_synonym float64 = "64 word"

definition float_one :: float64 where
  "float_one = 0x3FF0000000000000"

text \<open>
  A \<open>time.Time\<close> is the number of nanoseconds since Go's zero time (1 January of year 1), so
  the zero value of the type, which \<open>IsZero\<close> tests, is 0. A \<open>time.Duration\<close> is a signed
  64-bit number of nanoseconds.
\<close>

type_synonym time = int

definition IsZero :: "time \<Rightarrow> bool" where
  "IsZero t \<longleftrightarrow> t = 0"

definition After :: "time \<Rightarrow> time \<Rightarrow> bool" where
  "After t u \<longleftrightarrow> u < t"

definition AddDuration :: "time \<Rightarrow> duration \<Rightarrow> time" where
  "AddDuration t d = t + sint d"

definition second :: duration where
  "second = 1000000000"

definition hour :: duration where
  "hour = 3600 * second"

definition year365 :: duration where
  "year365 = 365 * 24 * hour"

lemma sint_year365: "sint year365 = 31536000000000000"
  by (simp add: year365_def hour_def second_def)

lemma AddDuration_year365: "AddDuration t year365 = t + 31536000000000000"
  by (simp add: AddDuration_def sint_year365)

text \<open>
  \<open>clock n\<close> is what the \<open>n\<close>-th reading of \<open>time.Now\<close> returns and \<open>uuids n\<close> the \<open>n\<close>-th
  identifier that \<open>github.com/google/uuid\<close> generates; both are parameters of the model.
  The two counters say how many of each have been consumed.
\<close>

record World =
  clock :: "nat \<Rightarrow> time"
  ticks :: nat
  uuids :: "nat \<Rightarrow> string"
  issued :: nat

definition time_Now :: "'e World_scheme \<Rightarrow> time \<times> 'e World_scheme" where
  "time_Now e = (clock e (ticks e), e\<lparr>ticks := Suc (ticks e)\<rparr>)"

text \<open>
  \<open>audit.go: newUUID\<close>: the identifier's string; the generator's error is discarded there,
  and a failing generator returns the nil UUID, which is just another value of \<open>uuids\<close>.
\<close>

definition newUUID :: "'e World_scheme \<Rightarrow> string \<times> 'e World_scheme" where
  "newUUID e = (uuids e (issued e), e\<lparr>issued := Suc (issued e)\<rparr>)"

section \<open>Errors\<close>

text \<open>The sentinel errors of \<open>repo.go\<close> and \<open>statemachine.go\<close>.\<close>

datatype sentinel =
    ErrNotFound
  | ErrConflict
  | ErrDuplicate
  | ErrInvalidArgument
  | ErrIllegalTransition
  | ErrReKYCNotTerminal

record AppError =
  Code :: string
  Message :: string
  StatusCode :: nat

text \<open>
  An \<open>error\<close> value: a sentinel (bare, or wrapped by \<open>fmt.Errorf\<close> with \<open>%w\<close> and a detail
  text), an \<open>*AppError\<close>, or an error of no type the service tests for.
\<close>

datatype go_error =
    Bare sentinel
  | Errorf sentinel string
  | AppErr AppError
  | Plain string

fun sentinel_text :: "sentinel \<Rightarrow> string" where
  "sentinel_text ErrNotFound = ''not found''"
| "sentinel_text ErrConflict = ''conflict''"
| "sentinel_text ErrDuplicate = ''duplicate''"
| "sentinel_text ErrInvalidArgument = ''invalid argument''"
| "sentinel_text ErrIllegalTransition = ''illegal state transition''"
| "sentinel_text ErrReKYCNotTerminal = ''re-kyc only allowed from terminal states''"

fun error_text :: "go_error \<Rightarrow> string" where
  "error_text (Bare k) = sentinel_text k"
| "error_text (Errorf k detail) = sentinel_text k @ '': '' @ detail"
| "error_text (AppErr ae) = Message ae"
| "error_text (Plain m) = m"

text \<open>\<open>errors.Is(err, sentinel)\<close>.\<close>

fun errors_Is :: "go_error \<Rightarrow> sentinel \<Rightarrow> bool" where
  "errors_Is (Bare k) k' \<longleftrightarrow> k = k'"
| "errors_Is (Errorf k _) k' \<longleftrightarrow> k = k'"
| "errors_Is (AppErr _) _ \<longleftrightarrow> False"
| "errors_Is (Plain _) _ \<longleftrightarrow> False"

section \<open>Values of type \<open>any\<close>\<close>

text \<open>The dynamic values the service puts into audit payloads, \<open>map[string]any\<close>.\<close>

datatype any = AString string | AInt int | ABool bool

type_synonym payload = "string \<rightharpoonup> any"

section \<open>Maps and lists\<close>

text \<open>Indexing a Go map whose values are booleans: a missing key reads \<open>false\<close>.\<close>

definition index_bool :: "('k \<rightharpoonup> bool) \<Rightarrow> 'k \<Rightarrow> bool" where
  "index_bool m k = (case m k of None \<Rightarrow> False | Some b \<Rightarrow> b)"

lemma index_bool_upd [simp]:
  "index_bool (m(k \<mapsto> b)) k' = (if k' = k then b else index_bool m k')"
  by (simp add: index_bool_def)

lemma index_bool_empty [simp]: "index_bool Map.empty k = False"
  by (simp add: index_bool_def)

text \<open>Indexing a Go map of slices: a missing key reads the nil slice.\<close>

definition index_list :: "('k \<rightharpoonup> 'v list) \<Rightarrow> 'k \<Rightarrow> 'v list" where
  "index_list m k = (case m k of None \<Rightarrow> [] | Some xs \<Rightarrow> xs)"

lemma index_list_upd [simp]:
  "index_list (m(k \<mapsto> xs)) k' = (if k' = k then xs else index_list m k')"
  by (simp add: index_list_def)

lemma index_list_empty [simp]: "index_list Map.empty k = []"
  by (simp add: index_list_def)

text \<open>
  \<open>for k := range m\<close> visits every key once in an order the runtime picks. An operation with
  such a loop takes that order as an argument; this is what an order has to satisfy.
\<close>

definition range_order :: "('k \<rightharpoonup> 'v) \<Rightarrow> 'k list \<Rightarrow> bool" where
  "range_order m ks \<longleftrightarrow> distinct ks \<and> set ks = dom m"

section \<open>Strings\<close>

definition char_upper :: "char \<Rightarrow> char" where
  "char_upper c = (if 97 \<le> (of_char c :: nat) \<and> (of_char c :: nat) \<le> 122
                   then char_of ((of_char c :: nat) - 32) else c)"

definition char_lower :: "char \<Rightarrow> char" where
  "char_lower c = (if 65 \<le> (of_char c :: nat) \<and> (of_char c :: nat) \<le> 90
                   then char_of ((of_char c :: nat) + 32) else c)"

definition ToUpper :: "string \<Rightarrow> string" where
  "ToUpper s = map char_upper s"

definition ToLower :: "string \<Rightarrow> string" where
  "ToLower s = map char_lower s"

definition is_space :: "char \<Rightarrow> bool" where
  "is_space c \<longleftrightarrow> (let n = (of_char c :: nat) in n = 32 \<or> 9 \<le> n \<and> n \<le> 13)"

definition TrimRightP :: "(char \<Rightarrow> bool) \<Rightarrow> string \<Rightarrow> string" where
  "TrimRightP p s = rev (dropWhile p (rev s))"

definition TrimSpace :: "string \<Rightarrow> string" where
  "TrimSpace s = TrimRightP is_space (dropWhile is_space s)"

text \<open>\<open>strings.Contains(s, sub)\<close>, also \<open>bytes.Contains\<close>.\<close>

definition HasPrefix :: "string \<Rightarrow> string \<Rightarrow> bool" where
  "HasPrefix s p \<longleftrightarrow> take (length p) s = p"

fun Contains :: "string \<Rightarrow> string \<Rightarrow> bool" where
  "Contains [] sub \<longleftrightarrow> sub = []"
| "Contains (c # s) sub \<longleftrightarrow> HasPrefix (c # s) sub \<or> Contains s sub"

lemma HasPrefix_iff: "HasPrefix s p \<longleftrightarrow> (\<exists>r. s = p @ r)"
  by (metis HasPrefix_def append_eq_conv_conj append_take_drop_id)

lemma Contains_iff: "Contains s sub \<longleftrightarrow> (\<exists>a b. s = a @ sub @ b)"
proof (induction s)
  case Nil
  show ?case by simp
next
  case (Cons c s)
  have "(\<exists>a b. c # s = a @ sub @ b) \<longleftrightarrow> (\<exists>b. c # s = sub @ b) \<or> (\<exists>a b. s = a @ sub @ b)"
    by (metis (no_types, lifting) append_Cons append_Nil list.inject neq_Nil_conv)
  with Cons.IH show ?case by (simp add: HasPrefix_iff)
qed

text \<open>\<open>strings.Split(s, sep)\<close> for a one-character separator: always a non-empty list.\<close>

fun Split :: "char \<Rightarrow> string \<Rightarrow> string list" where
  "Split sep [] = [[]]"
| "Split sep (c # s) =
     (if c = sep then [] # Split sep s
      else case Split sep s of [] \<Rightarrow> [[c]] | w # ws \<Rightarrow> (c # w) # ws)"

text \<open>\<open>strings.SplitN(s, sep, 2)\<close>.\<close>

definition SplitN2 :: "char \<Rightarrow> string \<Rightarrow> string list" where
  "SplitN2 sep s =
     (case dropWhile (\<lambda>c. c \<noteq> sep) s of
        [] \<Rightarrow> [s]
      | _ # rest \<Rightarrow> [takeWhile (\<lambda>c. c \<noteq> sep) s, rest])"

text \<open>\<open>strings.Fields\<close>: the maximal runs of non-space characters.\<close>

function Fields :: "string \<Rightarrow> string list" where
  "Fields [] = []"
| "Fields (c # s) =
     (if is_space c then Fields s
      else (c # takeWhile (\<lambda>d. \<not> is_space d) s) # Fields (dropWhile (\<lambda>d. \<not> is_space d) s))"
  by pat_completeness auto
termination
  by (relation "measure length") (auto simp: le_imp_less_Suc length_dropWhile_le)

fun Join :: "string \<Rightarrow> string list \<Rightarrow> string" where
  "Join sep [] = []"
| "Join sep [w] = w"
| "Join sep (w # v # ws) = w @ sep @ Join sep (v # ws)"

section \<open>Numbers as text\<close>

definition digit_char :: "nat \<Rightarrow> char" where
  "digit_char d = char_of (48 + d)"

fun nat_digits :: "nat \<Rightarrow> string" where
  "nat_digits n = (if n < 10 then [digit_char n] else nat_digits (n div 10) @ [digit_char (n mod 10)])"

declare nat_digits.simps [simp del]

text \<open>\<open>strconv.Itoa\<close>, \<open>strconv.FormatInt(n, 10)\<close> and the verb \<open>%d\<close>.\<close>

definition FormatInt :: "int \<Rightarrow> string" where
  "FormatInt n = (if n < 0 then CHR ''-'' # nat_digits (nat (- n)) else nat_digits (nat n))"

definition is_digit :: "char \<Rightarrow> bool" where
  "is_digit c \<longleftrightarrow> 48 \<le> (of_char c :: nat) \<and> (of_char c :: nat) \<le> 57"

definition digits_value :: "string \<Rightarrow> nat" where
  "digits_value s = foldl (\<lambda>v c. 10 * v + ((of_char c :: nat) - 48)) 0 s"

text \<open>
  \<open>strconv.ParseInt(s, 10, bits)\<close>: an optional sign and decimal digits; \<open>None\<close> is the
  \<open>ErrSyntax\<close> or \<open>ErrRange\<close> error. \<open>strconv.Atoi\<close> is the case of 64 bits.
\<close>

definition ParseInt :: "nat \<Rightarrow> string \<Rightarrow> int option" where
  "ParseInt bits s =
     (let neg = (s \<noteq> [] \<and> hd s = CHR ''-'');
          ds = (if s \<noteq> [] \<and> (hd s = CHR ''-'' \<or> hd s = CHR ''+'') then tl s else s);
          v = (if neg then - int (digits_value ds) else int (digits_value ds))
      in if ds = [] \<or> \<not> list_all is_digit ds then None
         else if - (2 ^ (bits - 1)) \<le> v \<and> v < 2 ^ (bits - 1) then Some v else None)"

definition Atoi :: "string \<Rightarrow> int option" where
  "Atoi s = ParseInt 64 s"

lemma of_char_digit: "d < 10 \<Longrightarrow> (of_char (digit_char d) :: nat) = 48 + d"
  by (simp add: digit_char_def)

lemma is_digit_digit_char: "d < 10 \<Longrightarrow> is_digit (digit_char d)"
  by (simp add: is_digit_def of_char_digit)

lemma nat_digits_all_digits: "list_all is_digit (nat_digits n)"
proof (induction n rule: nat_digits.induct)
  case (1 n)
  then show ?case
    by (subst nat_digits.simps) (simp add: is_digit_digit_char)
qed

lemma nat_digits_nonempty [simp]: "nat_digits n \<noteq> []"
  by (subst nat_digits.simps) simp

lemma digits_value_snoc:
  "digits_value (s @ [c]) = 10 * digits_value s + ((of_char c :: nat) - 48)"
  by (simp add: digits_value_def)

lemma digits_value_nat_digits [simp]: "digits_value (nat_digits n) = n"
proof (induction n rule: nat_digits.induct)
  case (1 n)
  show ?case
  proof (cases "n < 10")
    case True
    then show ?thesis
      by (subst nat_digits.simps) (simp add: digits_value_def of_char_digit)
  next
    case False
    with 1 show ?thesis
      by (subst nat_digits.simps) (simp add: digits_value_snoc of_char_digit)
  qed
qed

lemma is_digit_not_punct:
  "is_digit c \<Longrightarrow> c \<noteq> CHR ''.'' \<and> c \<noteq> CHR ''-'' \<and> c \<noteq> CHR ''+''"
  by (auto simp: is_digit_def)

lemma hd_nat_digits: "is_digit (hd (nat_digits n))"
  using nat_digits_all_digits [of n] by (cases "nat_digits n") auto

text \<open>Reading back a formatted number, in range, gives the number.\<close>

lemma ParseInt_FormatInt:
  assumes "- (2 ^ (bits - 1)) \<le> n" and "n < 2 ^ (bits - 1)"
  shows "ParseInt bits (FormatInt n) = Some n"
proof -
  have h: "hd (nat_digits k) \<noteq> CHR ''-'' \<and> hd (nat_digits k) \<noteq> CHR ''+''" for k
    using hd_nat_digits is_digit_not_punct by blast
  show ?thesis
    using assms h
    by (auto simp: ParseInt_def FormatInt_def Let_def nat_digits_all_digits)
qed

lemma FormatInt_no_dot: "CHR ''.'' \<notin> set (FormatInt n)"
proof -
  have "CHR ''.'' \<notin> set (nat_digits k)" for k
    using nat_digits_all_digits [of k] is_digit_not_punct by (auto simp: list_all_iff)
  then show ?thesis by (simp add: FormatInt_def)
qed

lemma FormatInt_inj: "FormatInt m = FormatInt n \<Longrightarrow> m = n"
proof -
  assume eq: "FormatInt m = FormatInt n"
  define b where "b = nat \<bar>m\<bar> + nat \<bar>n\<bar> + 1"
  have big: "int b < 2 ^ b"
    by (metis less_exp of_nat_less_iff of_nat_numeral of_nat_power)
  have mn: "\<bar>m\<bar> < int b" "\<bar>n\<bar> < int b"
    by (auto simp: b_def)
  have parse: "ParseInt (Suc b) (FormatInt k) = Some k" if "\<bar>k\<bar> < int b" for k
  proof (rule ParseInt_FormatInt)
    show "- (2 ^ (Suc b - 1)) \<le> k"
      unfolding diff_Suc_1 using that big by linarith
    show "k < 2 ^ (Suc b - 1)"
      unfolding diff_Suc_1 using that big by linarith
  qed
  have "Some m = Some n"
    unfolding parse [OF mn(1), symmetric] parse [OF mn(2), symmetric] by (rule arg_cong [OF eq])
  then show "m = n" by (rule option.inject [THEN iffD1])
qed

text \<open>A text without a separator, the separator, and the rest can be read back uniquely.\<close>

lemma append_sep_inj:
  assumes "c \<notin> set a" and "c \<notin> set a'" and "a @ c # b = a' @ c # b'"
  shows "a = a' \<and> b = b'"
  using assms
proof (induction a arbitrary: a')
  case Nil
  then show ?case by (cases a') auto
next
  case (Cons x a)
  then show ?case by (cases a') auto
qed

section \<open>Environment variables\<close>

text \<open>\<open>os.Getenv\<close>: an unset variable reads as the empty string.\<close>

type_synonym environ = "string \<Rightarrow> string"

definition envIntDefault :: "environ \<Rightarrow> string \<Rightarrow> int \<Rightarrow> int" where
  "envIntDefault env key def =
     (if env key \<noteq> '''' then
        (case Atoi (env key) of
           Some n \<Rightarrow> if n > 0 then n else def
         | None \<Rightarrow> def)
      else def)"

text \<open>
  \<open>time.ParseDuration\<close> is a parameter \<open>parse\<close> here: the components only rely on what
  \<open>envDurationDefault\<close> does with its result.
\<close>

definition envDurationDefault ::
  "(string \<Rightarrow> duration option) \<Rightarrow> environ \<Rightarrow> string \<Rightarrow> duration \<Rightarrow> duration" where
  "envDurationDefault parse env key def =
     (if env key \<noteq> '''' then
        (case parse (env key) of
           Some d \<Rightarrow> if 0 <s d then d else def
         | None \<Rightarrow> def)
      else def)"

lemma envIntDefault_pos: "0 < def \<Longrightarrow> 0 < envIntDefault env key def"
  by (auto simp: envIntDefault_def split: option.splits)

lemma envDurationDefault_pos: "0 <s def \<Longrightarrow> 0 <s envDurationDefault parse env key def"
  by (auto simp: envDurationDefault_def split: option.splits)

end
