(* ===== verification/Metrics.thy ===== *)
theory Metrics
  imports Prelude
begin

text \<open>
  \<open>internal/metrics.go\<close>: the process-wide counters behind \<open>globalMetrics\<close>, the latency
  buckets, and the text that \<open>GET /metrics\<close> renders. Counters are \<open>atomic.Int64\<close>, so they
  wrap at 64 bits.

  Bucket bounds are \<open>float64\<close> seconds in the code, and a duration is compared after
  \<open>Duration.Seconds\<close>. The bounds here are the same numbers in nanoseconds: both sides of the
  comparison are the correctly rounded quotients by \<open>10 ^ 9\<close>, and whole nanoseconds near
  these bounds are further apart than the rounding, so the comparison is the one on integers.
  Next to each bound stands what \<open>strconv.FormatFloat(upper, 'f', -1, 64)\<close> prints for it.
\<close>

record Metrics =
  requestsTotal :: goint
  createAppTotal :: goint
  uploadDocTotal :: goint
  livenessTotal :: goint
  screeningTotal :: goint
  screeningHits :: goint
  webhookAccept :: goint
  webhookReject :: goint
  webhookDuplicate :: goint
  rekycTotal :: goint
  vendorCallsTotal :: goint
  transitionsTotal :: goint
  latencyBuckets :: "int \<rightharpoonup> goint"

definition newMetrics :: Metrics where
  "newMetrics =
     \<lparr>requestsTotal = 0, createAppTotal = 0, uploadDocTotal = 0, livenessTotal = 0,
      screeningTotal = 0, screeningHits = 0, webhookAccept = 0, webhookReject = 0,
      webhookDuplicate = 0, rekycTotal = 0, vendorCallsTotal = 0, transitionsTotal = 0,
      latencyBuckets =
        [5000000 \<mapsto> 0, 10000000 \<mapsto> 0, 25000000 \<mapsto> 0, 50000000 \<mapsto> 0, 100000000 \<mapsto> 0,
         250000000 \<mapsto> 0, 500000000 \<mapsto> 0, 1000000000 \<mapsto> 0]\<rparr>"

definition latencyBucketsSorted :: "(int \<times> string) list" where
  "latencyBucketsSorted =
     [(5000000, ''0.005''), (10000000, ''0.01''), (25000000, ''0.025''), (50000000, ''0.05''),
      (100000000, ''0.1''), (250000000, ''0.25''), (500000000, ''0.5''), (1000000000, ''1'')]"

text \<open>Indexing the bucket map: a missing key reads 0.\<close>

definition bucket :: "Metrics \<Rightarrow> int \<Rightarrow> goint" where
  "bucket m upper = (case latencyBuckets m upper of None \<Rightarrow> 0 | Some n \<Rightarrow> n)"

fun observe_loop :: "(int \<times> string) list \<Rightarrow> duration \<Rightarrow> Metrics \<Rightarrow> Metrics" where
  "observe_loop [] d m = m"
| "observe_loop ((upper, _) # bs) d m =
     (if sint d \<le> upper
      then m\<lparr>latencyBuckets := (latencyBuckets m)(upper \<mapsto> bucket m upper + 1)\<rparr>
      else observe_loop bs d m)"

definition observeLatency :: "duration \<Rightarrow> Metrics \<Rightarrow> Metrics" where
  "observeLatency d m = observe_loop latencyBucketsSorted d m"

definition writeMetric :: "string \<Rightarrow> goint \<Rightarrow> string" where
  "writeMetric name value =
     ''# TYPE '' @ name @ '' counter'' @ [CHR 10] @ name @ '' '' @ FormatInt (sint value) @ [CHR 10]"

definition writeMetricLabel :: "string \<Rightarrow> goint \<Rightarrow> string \<Rightarrow> string \<Rightarrow> string" where
  "writeMetricLabel name value label labelVal =
     name @ ''{'' @ label @ [CHR ''='', CHR 34] @ labelVal @ [CHR 34, CHR ''}'', CHR '' ''] @
     FormatInt (sint value) @ [CHR 10]"

definition metricsHandler :: "Metrics \<Rightarrow> string" where
  "metricsHandler m =
     writeMetric ''onboarding_kyc_requests_total'' (requestsTotal m) @
     writeMetric ''onboarding_kyc_applications_created_total'' (createAppTotal m) @
     writeMetric ''onboarding_kyc_documents_uploaded_total'' (uploadDocTotal m) @
     writeMetric ''onboarding_kyc_liveness_total'' (livenessTotal m) @
     writeMetric ''onboarding_kyc_screening_total'' (screeningTotal m) @
     writeMetric ''onboarding_kyc_screening_hits_total'' (screeningHits m) @
     writeMetric ''onboarding_kyc_webhook_accept_total'' (webhookAccept m) @
     writeMetric ''onboarding_kyc_webhook_reject_total'' (webhookReject m) @
     writeMetric ''onboarding_kyc_webhook_duplicate_total'' (webhookDuplicate m) @
     writeMetric ''onboarding_kyc_rekyc_total'' (rekycTotal m) @
     writeMetric ''onboarding_kyc_vendor_calls_total'' (vendorCallsTotal m) @
     writeMetric ''onboarding_kyc_state_transitions_total'' (transitionsTotal m) @
     concat (map (\<lambda>(upper, le).
         writeMetricLabel ''onboarding_kyc_request_latency_seconds_bucket'' (bucket m upper) ''le'' le)
       latencyBucketsSorted)"

section \<open>The metrics of the process as part of the world\<close>

record MetricsEnv = World +
  globalMetrics :: Metrics

text \<open>
  \<open>globalMetrics.f.Add(n)\<close>; the counter is named by its update function, as in
  \<open>count rekycTotal_update 1\<close>.
\<close>

definition count ::
  "((goint \<Rightarrow> goint) \<Rightarrow> Metrics \<Rightarrow> Metrics) \<Rightarrow> goint \<Rightarrow> 'e MetricsEnv_scheme \<Rightarrow> 'e MetricsEnv_scheme"
where
  "count upd n e = e\<lparr>globalMetrics := upd (\<lambda>c. c + n) (globalMetrics e)\<rparr>"

lemma count_frame [simp]:
  "clock (count upd n e) = clock e"
  "ticks (count upd n e) = ticks e"
  "uuids (count upd n e) = uuids e"
  "issued (count upd n e) = issued e"
  by (simp_all add: count_def)

section \<open>What an observation does\<close>

lemma observe_loop_frame:
  "upper \<notin> fst ` set bs \<Longrightarrow> bucket (observe_loop bs d m) upper = bucket m upper"
  by (induction bs) (auto simp: bucket_def)

text \<open>
  On bounds in increasing order the loop counts in the first one that is large enough, and
  in no other; with no such bound it counts nowhere.
\<close>

lemma observe_loop_first:
  assumes "sorted_wrt (\<lambda>a b. fst a < fst b) bs" and "upper \<in> fst ` set bs"
  shows "bucket (observe_loop bs d m) upper =
    bucket m upper + (if sint d \<le> upper \<and> (\<forall>u \<in> fst ` set bs. u < upper \<longrightarrow> u < sint d) then 1 else 0)"
  using assms
proof (induction bs)
  case Nil
  then show ?case by simp
next
  case (Cons b bs)
  obtain u l where b: "b = (u, l)" by force
  have lt: "\<forall>v \<in> fst ` set bs. u < v" using Cons.prems(1) b by auto
  show ?case
  proof (cases "upper = u")
    case True
    then have "upper \<notin> fst ` set bs" using lt by auto
    then have keep: "bucket (observe_loop bs d m) upper = bucket m upper"
      by (rule observe_loop_frame)
    have first: "\<forall>v \<in> fst ` set (b # bs). v < upper \<longrightarrow> v < sint d"
      using b True lt by auto
    then show ?thesis
      using b True keep by (auto simp: bucket_def)
  next
    case False
    then have mem: "upper \<in> fst ` set bs" using Cons.prems b by auto
    with lt have "u < upper" by auto
    then show ?thesis
      using Cons.IH mem Cons.prems(1) b False by (auto simp: bucket_def)
  qed
qed

lemma latencyBuckets_sorted: "sorted_wrt (\<lambda>a b. fst a < fst b) latencyBucketsSorted"
  by (simp add: latencyBucketsSorted_def)

section \<open>Properties\<close>

text \<open>
  \<open>observeLatency\<close> adds one to exactly the first bucket whose bound is not below the latency,
  and to no other; a latency above the last bound, one second, is counted in no bucket.
\<close>

theorem observeLatency_first_bucket:
  "bucket (observeLatency d m) upper =
     bucket m upper +
     (if upper \<in> fst ` set latencyBucketsSorted \<and> sint d \<le> upper \<and>
         (\<forall>u \<in> fst ` set latencyBucketsSorted. \<not> (sint d \<le> u \<and> u < upper))
      then 1 else 0) \<and>
   (if 1000000000 < sint d then observeLatency d m = m else True)"
proof -
  have "bucket (observeLatency d m) upper =
     bucket m upper +
     (if upper \<in> fst ` set latencyBucketsSorted \<and> sint d \<le> upper \<and>
         (\<forall>u \<in> fst ` set latencyBucketsSorted. \<not> (sint d \<le> u \<and> u < upper))
      then 1 else 0)"
  proof (cases "upper \<in> fst ` set latencyBucketsSorted")
    case True
    have "(\<forall>u \<in> fst ` set latencyBucketsSorted. u < upper \<longrightarrow> u < sint d) \<longleftrightarrow>
        (\<forall>u \<in> fst ` set latencyBucketsSorted. \<not> (sint d \<le> u \<and> u < upper))"
      by (auto simp: not_le)
    with True show ?thesis
      unfolding observeLatency_def observe_loop_first [OF latencyBuckets_sorted True] by auto
  next
    case False
    then show ?thesis by (simp add: observeLatency_def observe_loop_frame)
  qed
  moreover have "observeLatency d m = m" if "1000000000 < sint d"
    using that by (simp add: observeLatency_def latencyBucketsSorted_def)
  ultimately show ?thesis by simp
qed

theorem observeLatency_first_bucket_witness:
  "bucket (observeLatency 7000000 newMetrics) 10000000 = 1 \<and>
   bucket (observeLatency 7000000 newMetrics) 25000000 = 0 \<and>
   observeLatency 1000000001 newMetrics = newMetrics"
  using observeLatency_first_bucket [of 7000000 newMetrics 10000000]
    observeLatency_first_bucket [of 7000000 newMetrics 25000000]
    observeLatency_first_bucket [of 1000000001 newMetrics 0]
  by (simp add: latencyBucketsSorted_def bucket_def newMetrics_def)

end
