(* ===== verification/StateMachine.thy ===== *)
theory StateMachine
  imports Prelude
begin

text \<open>
  \<open>internal/statemachine.go\<close>: the states of a KYC application, the transition table and the
  re-KYC rule; then the state diagram of the README as a step relation on a datatype of phases, how
  the table differs from it, and what follows for paths through the table.
\<close>

section \<open>The code: states as strings, the table as a map of maps\<close>

type_synonym State = string

definition StateStarted :: State where
  "StateStarted = ''STARTED''"

definition StateDocumentsUploaded :: State where
  "StateDocumentsUploaded = ''DOCUMENTS_UPLOADED''"

definition StateLivenessPassed :: State where
  "StateLivenessPassed = ''LIVENESS_PASSED''"

definition StateScreening :: State where
  "StateScreening = ''SCREENING''"

definition StateVendorDecision :: State where
  "StateVendorDecision = ''VENDOR_DECISION''"

definition StatePass :: State where
  "StatePass = ''PASS''"

definition StateFail :: State where
  "StateFail = ''FAIL''"

definition StateManualReview :: State where
  "StateManualReview = ''MANUAL_REVIEW''"

lemmas state_defs =
  StateStarted_def
  StateDocumentsUploaded_def
  StateLivenessPassed_def
  StateScreening_def
  StateVendorDecision_def
  StatePass_def
  StateFail_def
  StateManualReview_def

text \<open>The eight constants are pairwise different, and none is the empty (zero) state.\<close>

lemma state_distinct [simp]:
  "StateStarted \<noteq> StateDocumentsUploaded"
  "StateStarted \<noteq> StateLivenessPassed"
  "StateStarted \<noteq> StateScreening"
  "StateStarted \<noteq> StateVendorDecision"
  "StateStarted \<noteq> StatePass"
  "StateStarted \<noteq> StateFail"
  "StateStarted \<noteq> StateManualReview"
  "StateStarted \<noteq> []"
  "[] \<noteq> StateStarted"
  "StateDocumentsUploaded \<noteq> StateStarted"
  "StateDocumentsUploaded \<noteq> StateLivenessPassed"
  "StateDocumentsUploaded \<noteq> StateScreening"
  "StateDocumentsUploaded \<noteq> StateVendorDecision"
  "StateDocumentsUploaded \<noteq> StatePass"
  "StateDocumentsUploaded \<noteq> StateFail"
  "StateDocumentsUploaded \<noteq> StateManualReview"
  "StateDocumentsUploaded \<noteq> []"
  "[] \<noteq> StateDocumentsUploaded"
  "StateLivenessPassed \<noteq> StateStarted"
  "StateLivenessPassed \<noteq> StateDocumentsUploaded"
  "StateLivenessPassed \<noteq> StateScreening"
  "StateLivenessPassed \<noteq> StateVendorDecision"
  "StateLivenessPassed \<noteq> StatePass"
  "StateLivenessPassed \<noteq> StateFail"
  "StateLivenessPassed \<noteq> StateManualReview"
  "StateLivenessPassed \<noteq> []"
  "[] \<noteq> StateLivenessPassed"
  "StateScreening \<noteq> StateStarted"
  "StateScreening \<noteq> StateDocumentsUploaded"
  "StateScreening \<noteq> StateLivenessPassed"
  "StateScreening \<noteq> StateVendorDecision"
  "StateScreening \<noteq> StatePass"
  "StateScreening \<noteq> StateFail"
  "StateScreening \<noteq> StateManualReview"
  "StateScreening \<noteq> []"
  "[] \<noteq> StateScreening"
  "StateVendorDecision \<noteq> StateStarted"
  "StateVendorDecision \<noteq> StateDocumentsUploaded"
  "StateVendorDecision \<noteq> StateLivenessPassed"
  "StateVendorDecision \<noteq> StateScreening"
  "StateVendorDecision \<noteq> StatePass"
  "StateVendorDecision \<noteq> StateFail"
  "StateVendorDecision \<noteq> StateManualReview"
  "StateVendorDecision \<noteq> []"
  "[] \<noteq> StateVendorDecision"
  "StatePass \<noteq> StateStarted"
  "StatePass \<noteq> StateDocumentsUploaded"
  "StatePass \<noteq> StateLivenessPassed"
  "StatePass \<noteq> StateScreening"
  "StatePass \<noteq> StateVendorDecision"
  "StatePass \<noteq> StateFail"
  "StatePass \<noteq> StateManualReview"
  "StatePass \<noteq> []"
  "[] \<noteq> StatePass"
  "StateFail \<noteq> StateStarted"
  "StateFail \<noteq> StateDocumentsUploaded"
  "StateFail \<noteq> StateLivenessPassed"
  "StateFail \<noteq> StateScreening"
  "StateFail \<noteq> StateVendorDecision"
  "StateFail \<noteq> StatePass"
  "StateFail \<noteq> StateManualReview"
  "StateFail \<noteq> []"
  "[] \<noteq> StateFail"
  "StateManualReview \<noteq> StateStarted"
  "StateManualReview \<noteq> StateDocumentsUploaded"
  "StateManualReview \<noteq> StateLivenessPassed"
  "StateManualReview \<noteq> StateScreening"
  "StateManualReview \<noteq> StateVendorDecision"
  "StateManualReview \<noteq> StatePass"
  "StateManualReview \<noteq> StateFail"
  "StateManualReview \<noteq> []"
  "[] \<noteq> StateManualReview"
  by (simp_all add: state_defs)

definition TerminalStates :: "State \<rightharpoonup> bool" where
  "TerminalStates = [StatePass \<mapsto> True, StateFail \<mapsto> True]"

definition legalTransitions :: "State \<rightharpoonup> (State \<rightharpoonup> bool)" where
  "legalTransitions =
     [StateStarted \<mapsto> [StateDocumentsUploaded \<mapsto> True],
      StateDocumentsUploaded \<mapsto> [StateLivenessPassed \<mapsto> True, StateScreening \<mapsto> True],
      StateLivenessPassed \<mapsto> [StateScreening \<mapsto> True, StateManualReview \<mapsto> True],
      StateScreening \<mapsto> [StateVendorDecision \<mapsto> True, StateManualReview \<mapsto> True],
      StateVendorDecision \<mapsto>
        [StatePass \<mapsto> True, StateFail \<mapsto> True, StateManualReview \<mapsto> True],
      StateManualReview \<mapsto> [StatePass \<mapsto> True, StateFail \<mapsto> True],
      StatePass \<mapsto> [StateStarted \<mapsto> True],
      StateFail \<mapsto> [StateStarted \<mapsto> True]]"

definition CanTransition :: "State \<Rightarrow> State \<Rightarrow> bool" where
  "CanTransition from to =
     (case legalTransitions from of
        Some tos \<Rightarrow> index_bool tos to
      | None \<Rightarrow> False)"

text \<open>\<open>None\<close> is the nil error.\<close>

definition ValidateTransition :: "State \<Rightarrow> State \<Rightarrow> go_error option" where
  "ValidateTransition from to =
     (if CanTransition from to then None
      else Some (Errorf ErrIllegalTransition (from @ '' -> '' @ to)))"

definition IsTerminal :: "State \<Rightarrow> bool" where
  "IsTerminal s = index_bool TerminalStates s"

definition ReKYC :: "State \<Rightarrow> go_error + State" where
  "ReKYC from =
     (if \<not> IsTerminal from then Inl (Errorf ErrReKYCNotTerminal (''current state '' @ from))
      else Inr StateStarted)"

section \<open>Rules for the rest of the development\<close>

lemma CanTransition_from [simp]:
  "CanTransition StateStarted to \<longleftrightarrow> to = StateDocumentsUploaded"
  "CanTransition StateDocumentsUploaded to \<longleftrightarrow> to = StateLivenessPassed \<or> to = StateScreening"
  "CanTransition StateLivenessPassed to \<longleftrightarrow> to = StateScreening \<or> to = StateManualReview"
  "CanTransition StateScreening to \<longleftrightarrow> to = StateVendorDecision \<or> to = StateManualReview"
  "CanTransition StateVendorDecision to \<longleftrightarrow>
     to = StatePass \<or> to = StateFail \<or> to = StateManualReview"
  "CanTransition StateManualReview to \<longleftrightarrow> to = StatePass \<or> to = StateFail"
  "CanTransition StatePass to \<longleftrightarrow> to = StateStarted"
  "CanTransition StateFail to \<longleftrightarrow> to = StateStarted"
  by (auto simp: CanTransition_def legalTransitions_def)

text \<open>A state that is no key of the table, such as the empty one, allows no transition.\<close>

lemma CanTransition_dom:
  "CanTransition from to \<Longrightarrow>
     from \<in> {StateStarted, StateDocumentsUploaded, StateLivenessPassed, StateScreening,
             StateVendorDecision, StateManualReview, StatePass, StateFail}"
  by (auto simp: CanTransition_def legalTransitions_def split: option.splits if_splits)

lemma CanTransition_empty [simp]: "\<not> CanTransition [] to" "\<not> CanTransition from []"
  using CanTransition_dom [of "[]" to] CanTransition_dom [of "from" "[]"] by auto

lemma IsTerminal_iff: "IsTerminal s \<longleftrightarrow> s = StatePass \<or> s = StateFail"
  by (simp add: IsTerminal_def TerminalStates_def)

lemma IsTerminal_simps [simp]:
  "\<not> IsTerminal StateStarted"
  "\<not> IsTerminal StateDocumentsUploaded"
  "\<not> IsTerminal StateLivenessPassed"
  "\<not> IsTerminal StateScreening"
  "\<not> IsTerminal StateVendorDecision"
  "IsTerminal StatePass"
  "IsTerminal StateFail"
  "\<not> IsTerminal StateManualReview"
  "\<not> IsTerminal []"
  by (simp_all add: IsTerminal_iff)

lemma ValidateTransition_None [simp]: "ValidateTransition from to = None \<longleftrightarrow> CanTransition from to"
  by (simp add: ValidateTransition_def)

lemma ValidateTransition_Some:
  "ValidateTransition from to = Some e \<Longrightarrow>
     \<not> CanTransition from to \<and> errors_Is e ErrIllegalTransition"
  by (auto simp: ValidateTransition_def split: if_splits)

lemma CanTransition_to_terminal:
  "CanTransition from to \<Longrightarrow> IsTerminal to \<Longrightarrow> from = StateVendorDecision \<or> from = StateManualReview"
  by (frule CanTransition_dom) (auto simp: IsTerminal_iff)

section \<open>The state diagram of the README\<close>

datatype phase =
    Started | DocumentsUploaded | LivenessPassed | Screening | VendorDecision
  | Pass | Fail | ManualReview

fun state_of :: "phase \<Rightarrow> State" where
  "state_of Started = StateStarted"
| "state_of DocumentsUploaded = StateDocumentsUploaded"
| "state_of LivenessPassed = StateLivenessPassed"
| "state_of Screening = StateScreening"
| "state_of VendorDecision = StateVendorDecision"
| "state_of Pass = StatePass"
| "state_of Fail = StateFail"
| "state_of ManualReview = StateManualReview"

text \<open>
  The README's section on the state machine: the chain of its diagram with its three outcomes, the
  analyst's two ways out of a manual review, and the re-opening of \<open>any terminal state\<close>, among
  which it counts the manual review.
\<close>

inductive readme_step :: "phase \<Rightarrow> phase \<Rightarrow> bool" where
  documents: "readme_step Started DocumentsUploaded"
| liveness: "readme_step DocumentsUploaded LivenessPassed"
| screening: "readme_step LivenessPassed Screening"
| vendor: "readme_step Screening VendorDecision"
| outcome: "q \<in> {Pass, Fail, ManualReview} \<Longrightarrow> readme_step VendorDecision q"
| analyst: "q \<in> {Pass, Fail} \<Longrightarrow> readme_step ManualReview q"
| reopen: "p \<in> {Pass, Fail, ManualReview} \<Longrightarrow> readme_step p Started"

inductive_simps readme_step_iff: "readme_step p q"

text \<open>
  Where code and README part: the code may skip the liveness check and may send an application to
  manual review straight after liveness or after screening, none of which the README has; and it
  does not re-open an application that is in manual review.
\<close>

definition readme_gaps :: "(phase \<times> phase) set" where
  "readme_gaps =
     {(DocumentsUploaded, Screening), (LivenessPassed, ManualReview), (Screening, ManualReview),
      (ManualReview, Started)}"

lemma state_of_inj [simp]: "state_of p = state_of q \<longleftrightarrow> p = q"
  by (cases p; cases q) simp_all

definition known_state :: "State \<Rightarrow> bool" where
  "known_state s \<longleftrightarrow> s \<in> range state_of"

lemma known_state_iff:
  "known_state s \<longleftrightarrow>
     s \<in> {StateStarted, StateDocumentsUploaded, StateLivenessPassed, StateScreening,
           StateVendorDecision, StateManualReview, StatePass, StateFail}"
proof -
  have "range state_of = {StateStarted, StateDocumentsUploaded, StateLivenessPassed,
      StateScreening, StateVendorDecision, StateManualReview, StatePass, StateFail}"
    (is "_ = ?S")
  proof (intro equalityI subsetI)
    fix s assume "s \<in> range state_of"
    then obtain p where "s = state_of p" by blast
    then show "s \<in> ?S" by (cases p) auto
  next
    fix s assume "s \<in> ?S"
    then show "s \<in> range state_of"
      by (elim insertE emptyE; simp) (metis state_of.simps rangeI)+
  qed
  then show ?thesis by (simp add: known_state_def)
qed

lemma CanTransition_phases:
  "CanTransition (state_of p) (state_of q) \<longleftrightarrow> readme_step p q \<noteq> ((p, q) \<in> readme_gaps)"
  by (cases p; cases q) (simp_all add: readme_step_iff readme_gaps_def)

lemma CanTransition_known: "CanTransition from to \<Longrightarrow> known_state from \<and> known_state to"
  using CanTransition_dom [of "from" to] by (auto simp: known_state_iff)

text \<open>The rank of a state: how far along the diagram it is. Only re-KYC goes down.\<close>

fun phase_rank :: "phase \<Rightarrow> nat" where
  "phase_rank Started = 0"
| "phase_rank DocumentsUploaded = 1"
| "phase_rank LivenessPassed = 2"
| "phase_rank Screening = 3"
| "phase_rank VendorDecision = 4"
| "phase_rank ManualReview = 5"
| "phase_rank Pass = 6"
| "phase_rank Fail = 6"

lemma CanTransition_rank:
  "CanTransition (state_of p) (state_of q) \<Longrightarrow> q \<noteq> Started \<Longrightarrow> phase_rank p < phase_rank q"
  by (cases p; cases q) simp_all

text \<open>A path through the table: each state goes to the next by a legal transition.\<close>

fun legal_path :: "State list \<Rightarrow> bool" where
  "legal_path [] = True"
| "legal_path [s] = True"
| "legal_path (s # t # ss) = (CanTransition s t \<and> legal_path (t # ss))"

lemma legal_path_phases:
  "legal_path ss \<Longrightarrow> 2 \<le> length ss \<Longrightarrow> \<exists>ps. ss = map state_of ps"
proof (induction ss rule: legal_path.induct)
  case (3 s t ss)
  from 3 have "known_state s" "known_state t" by (auto dest: CanTransition_known)
  then obtain p q where st: "s = state_of p" "t = state_of q" by (auto simp: known_state_def)
  show ?case
  proof (cases ss)
    case Nil
    with st have "s # t # ss = map state_of [p, q]" by simp
    then show ?thesis by (rule exI)
  next
    case (Cons u us)
    with 3 have "\<exists>ps. t # ss = map state_of ps" by simp
    then obtain ps where "t # ss = map state_of ps" ..
    with st have "s # t # ss = map state_of (p # ps)" by simp
    then show ?thesis by (rule exI)
  qed
qed simp_all

text \<open>Without a re-opening, a path climbs in rank at every step.\<close>

lemma legal_path_climbs:
  "legal_path (map state_of (p # ps)) \<Longrightarrow> Started \<notin> set ps \<Longrightarrow>
     phase_rank p + length ps \<le> phase_rank (last (p # ps))"
proof (induction ps arbitrary: p)
  case Nil
  then show ?case by simp
next
  case (Cons q ps)
  then have "phase_rank q + length ps \<le> phase_rank (last (q # ps))" by auto
  moreover have "phase_rank p < phase_rank q"
    using Cons.prems by (auto intro: CanTransition_rank)
  ultimately show ?case by simp
qed

lemma phase_rank_le: "phase_rank p \<le> 6"
  by (cases p) auto

lemma phase_rank_decided: "phase_rank p = 6 \<longleftrightarrow> p = Pass \<or> p = Fail"
  by (cases p) auto

text \<open>From every phase a decision can be reached.\<close>

fun way_to_pass :: "phase \<Rightarrow> phase list" where
  "way_to_pass Started = [DocumentsUploaded, Screening, VendorDecision, Pass]"
| "way_to_pass DocumentsUploaded = [Screening, VendorDecision, Pass]"
| "way_to_pass LivenessPassed = [Screening, VendorDecision, Pass]"
| "way_to_pass Screening = [VendorDecision, Pass]"
| "way_to_pass VendorDecision = [Pass]"
| "way_to_pass ManualReview = [Pass]"
| "way_to_pass Pass = []"
| "way_to_pass Fail = [Started, DocumentsUploaded, Screening, VendorDecision, Pass]"

lemma way_to_pass_legal:
  "legal_path (map state_of (p # way_to_pass p)) \<and> last (p # way_to_pass p) = Pass"
  by (cases p) simp_all

section \<open>Properties\<close>

text \<open>
  C28. The transition table against the README: the table allows exactly the steps between known
  states that the README has, except in four places. It has three steps the README lacks (from
  documents to screening, and from liveness and from screening to manual review), and lacks one
  the README has: an application in manual review cannot be re-opened. Re-opening by \<open>ReKYC\<close> and
  the table agree on that, for any string. What the table does not allow is refused with
  \<open>ErrIllegalTransition\<close>, and what \<open>ReKYC\<close> does not with \<open>ErrReKYCNotTerminal\<close>.
\<close>

theorem table_against_readme:
  "(CanTransition s t \<longleftrightarrow>
      (\<exists>p q. s = state_of p \<and> t = state_of q \<and> readme_step p q \<noteq> ((p, q) \<in> readme_gaps))) \<and>
   (case ReKYC s of
      Inr t' \<Rightarrow> t' = StateStarted \<and> CanTransition s StateStarted
    | Inl err \<Rightarrow> errors_Is err ErrReKYCNotTerminal \<and> \<not> CanTransition s StateStarted) \<and>
   (case ValidateTransition s t of
      None \<Rightarrow> CanTransition s t
    | Some err \<Rightarrow> errors_Is err ErrIllegalTransition \<and> \<not> CanTransition s t)"
proof (intro conjI)
  show "CanTransition s t \<longleftrightarrow>
      (\<exists>p q. s = state_of p \<and> t = state_of q \<and> readme_step p q \<noteq> ((p, q) \<in> readme_gaps))"
    using CanTransition_known [of s t] by (auto simp: CanTransition_phases known_state_def)
  have "CanTransition s StateStarted \<longleftrightarrow> IsTerminal s"
    using CanTransition_dom [of s StateStarted] by (auto simp: IsTerminal_iff)
  then show "case ReKYC s of
      Inr t' \<Rightarrow> t' = StateStarted \<and> CanTransition s StateStarted
    | Inl err \<Rightarrow> errors_Is err ErrReKYCNotTerminal \<and> \<not> CanTransition s StateStarted"
    by (simp add: ReKYC_def)
qed (simp add: ValidateTransition_def)

text \<open>
  C29. A path of legal transitions from \<open>STARTED\<close> that is not re-opened on the way has at most six
  steps, and after six it has ended in \<open>PASS\<close> or \<open>FAIL\<close>: the onboarding cannot cycle without a
  re-KYC.
\<close>

theorem legal_path_bounded:
  assumes "legal_path (StateStarted # ss)" and "StateStarted \<notin> set ss"
  shows "length ss \<le> 6 \<and> (length ss = 6 \<longrightarrow> IsTerminal (last ss))"
proof (cases ss)
  case Nil
  then show ?thesis by simp
next
  case (Cons u us)
  have "\<exists>ps. StateStarted # ss = map state_of ps"
    by (rule legal_path_phases [OF assms(1)]) (simp add: Cons)
  then obtain ps where ps: "StateStarted # ss = map state_of ps" ..
  obtain p qs where pq: "ps = p # qs" using ps by (cases ps) auto
  have p: "p = Started" using ps pq state_of_inj [of Started p] by simp
  have ss: "ss = map state_of qs" using ps pq by simp
  have ns: "Started \<notin> set qs"
  proof
    assume "Started \<in> set qs"
    then have "state_of Started \<in> set ss" unfolding ss by (auto simp del: state_of.simps)
    with assms(2) show False by simp
  qed
  have climb: "length qs \<le> phase_rank (last (Started # qs))"
    using legal_path_climbs [of Started qs] assms(1) ns ps pq p by simp
  have len: "length qs \<le> 6" using climb phase_rank_le [of "last (Started # qs)"] by linarith
  have "IsTerminal (last ss)" if "length ss = 6"
  proof -
    have "phase_rank (last (Started # qs)) = 6"
      using climb phase_rank_le [of "last (Started # qs)"] that ss by simp
    then have "last (Started # qs) = Pass \<or> last (Started # qs) = Fail" by (simp only: phase_rank_decided)
    moreover have "qs \<noteq> []" using that ss by auto
    ultimately show ?thesis unfolding ss by (auto simp: last_map IsTerminal_iff)
  qed
  then show ?thesis using len ss by simp
qed

theorem legal_path_bounded_witness:
  "IsTerminal (last [StateDocumentsUploaded, StateLivenessPassed, StateScreening, StateVendorDecision,
     StateManualReview, StatePass])"
  using legal_path_bounded [of "[StateDocumentsUploaded, StateLivenessPassed, StateScreening,
      StateVendorDecision, StateManualReview, StatePass]"]
  by simp

text \<open>
  From every phase a \<open>PASS\<close> can still be reached by legal transitions, along
  \<open>way_to_pass\<close>; no state of the machine is a dead end.
\<close>

theorem pass_reachable:
  "legal_path (map state_of (p # way_to_pass p)) \<and> last (map state_of (p # way_to_pass p)) = StatePass"
  by (cases p) simp_all

end
