(* ===== verification/AuditLog.thy ===== *)
theory AuditLog
  imports Metrics StateMachine
begin

text \<open>
  \<open>internal/audit.go\<close>: the append-only audit log, its optional Kafka sink, and the selection
  of the sink from the environment. The JSON encoder, SHA-256, the RFC 3339 formatter and the
  Kafka broker are not part of the repository; the model takes the first three as the fields
  of \<open>Codec\<close> and records the messages handed to the writer.
\<close>

record AuditEvent =
  ev_ID :: string
  ev_Aggregate :: string
  ev_Action :: string
  ev_Actor :: string
  ev_Payload :: payload
  ev_OccurredAt :: time

text \<open>The canonical envelope that \<open>publish\<close> builds as a \<open>map[string]any\<close>.\<close>

record Envelope =
  schema_version :: string
  env_id :: string
  env_ts :: string
  source_service :: string
  actor_id :: string
  env_action :: string
  target_type :: string
  target_id :: string
  payload_hash :: string
  env_payload :: payload

record Codec =
  json_event :: "AuditEvent \<Rightarrow> string option"
  json_envelope :: "Envelope \<Rightarrow> string option"
  sha256_hex :: "string \<Rightarrow> string"
  rfc3339nano :: "time \<Rightarrow> string"

record KafkaWriter =
  brokers :: "string list"
  topic :: string
  written :: "(string \<times> string) list"

record AuditEnv = MetricsEnv +
  codec :: Codec
  audit_events :: "AuditEvent list"
  kafka_sink :: "KafkaWriter option"

definition AuditTopic :: string where
  "AuditTopic = ''audit.v1''"

section \<open>Recording\<close>

fun coalesceStr :: "string list \<Rightarrow> string" where
  "coalesceStr [] = ''''"
| "coalesceStr (v # vals) = (if v \<noteq> '''' then v else coalesceStr vals)"

definition audit_envelope :: "Codec \<Rightarrow> AuditEvent \<Rightarrow> string \<Rightarrow> Envelope" where
  "audit_envelope c ev payloadBytes =
     \<lparr>schema_version = ''1'',
      env_id = ev_ID ev,
      env_ts = rfc3339nano c (ev_OccurredAt ev),
      source_service = ''onboarding-kyc'',
      actor_id = coalesceStr [ev_Actor ev, ''onboarding-kyc''],
      env_action = ev_Action ev,
      target_type = ''kyc_application'',
      target_id = ev_Aggregate ev,
      payload_hash = ''sha256:'' @ sha256_hex c payloadBytes,
      env_payload = ev_Payload ev\<rparr>"

text \<open>
  The error of \<open>WriteMessages\<close> is discarded, as are encoder errors. The code passes it a nil context.
  The model is of a broker's client that does not look at the context; that of \<open>kafka-go\<close> does, and
  the first event then ends in a nil dereference.
\<close>

definition audit_publish :: "Codec \<Rightarrow> AuditEvent \<Rightarrow> KafkaWriter \<Rightarrow> KafkaWriter" where
  "audit_publish c ev w =
     (case json_event c ev of
        None \<Rightarrow> w
      | Some payloadBytes \<Rightarrow>
          (case json_envelope c (audit_envelope c ev payloadBytes) of
             None \<Rightarrow> w
           | Some body \<Rightarrow> w\<lparr>written := written w @ [(ev_ID ev, body)]\<rparr>))"

definition Record :: "string \<Rightarrow> string \<Rightarrow> string \<Rightarrow> payload \<Rightarrow> 'e AuditEnv_scheme \<Rightarrow> 'e AuditEnv_scheme" where
  "Record aggregate action actor payload e =
     (let (uid, e) = newUUID e;
          (t, e) = time_Now e;
          ev = \<lparr>ev_ID = uid, ev_Aggregate = aggregate, ev_Action = action, ev_Actor = actor,
                ev_Payload = payload, ev_OccurredAt = t\<rparr>;
          e = e\<lparr>audit_events := audit_events e @ [ev]\<rparr>
      in (case kafka_sink e of
            None \<Rightarrow> e
          | Some w \<Rightarrow> e\<lparr>kafka_sink := Some (audit_publish (codec e) ev w)\<rparr>))"

definition RecordTransition ::
  "string \<Rightarrow> State \<Rightarrow> State \<Rightarrow> string \<Rightarrow> string \<Rightarrow> 'e AuditEnv_scheme \<Rightarrow> 'e AuditEnv_scheme" where
  "RecordTransition appID from to actor reason e =
     Record appID ''state_transition'' actor
       [''from'' \<mapsto> AString from, ''to'' \<mapsto> AString to, ''reason'' \<mapsto> AString reason]
       (count transitionsTotal_update 1 e)"

definition audit_List :: "'e AuditEnv_scheme \<Rightarrow> AuditEvent list" where
  "audit_List e = audit_events e"

section \<open>Choosing the sink\<close>

definition devMode :: "environ \<Rightarrow> bool" where
  "devMode env \<longleftrightarrow> (let v = env ''DEV_MODE'' in v = ''1'' \<or> v = ''true'' \<or> v = ''yes'' \<or> v = ''on'')"

definition splitCSV :: "string \<Rightarrow> string list" where
  "splitCSV s = filter (\<lambda>p. p \<noteq> '''') (map TrimSpace (Split (CHR '','') s))"

definition WithKafkaSink :: "string list \<Rightarrow> string + KafkaWriter" where
  "WithKafkaSink bs =
     (if bs = [] then Inl ''audit kafka: no brokers provided''
      else Inr \<lparr>brokers = bs, topic = AuditTopic, written = []\<rparr>)"

text \<open>\<open>Close\<close>; \<open>close\<close> is the Kafka writer's own.\<close>

definition audit_Close :: "(KafkaWriter \<Rightarrow> string option) \<Rightarrow> 'e AuditEnv_scheme \<Rightarrow> string option" where
  "audit_Close close e = (case kafka_sink e of None \<Rightarrow> None | Some w \<Rightarrow> close w)"

text \<open>
  \<open>NewAuditLogFromEnv\<close>: \<open>None\<close> is \<open>os.Exit(1)\<close>, \<open>Some None\<close> a log kept in memory
  only, and \<open>Some (Some w)\<close> a log that also publishes to \<open>w\<close>.
\<close>

definition NewAuditLogFromEnv :: "environ \<Rightarrow> KafkaWriter option option" where
  "NewAuditLogFromEnv env =
     (let bs = env ''KAFKA_BROKERS'' in
      if bs = '''' then (if devMode env then Some None else None)
      else (case WithKafkaSink (splitCSV bs) of
              Inl _ \<Rightarrow> if devMode env then Some None else None
            | Inr w \<Rightarrow> Some (Some w)))"

section \<open>Interface of event sinks\<close>

text \<open>
  The interface \<open>EventSink\<close> of \<open>repo.go\<close>, and its implementation \<open>noopEventSink\<close>; the
  others are \<open>RecordTransition\<close> above and the sinks of \<open>PolicySink\<close>.
\<close>

type_synonym 'e EventSink = "string \<Rightarrow> State \<Rightarrow> State \<Rightarrow> string \<Rightarrow> string \<Rightarrow> 'e \<Rightarrow> 'e"

definition noopEventSink :: "'e EventSink" where
  "noopEventSink appID from to actor reason e = e"

section \<open>Facts about the log\<close>

lemma time_Now_simps [simp]:
  "fst (time_Now e) = clock e (ticks e)"
  "snd (time_Now e) = e\<lparr>ticks := Suc (ticks e)\<rparr>"
  by (simp_all add: time_Now_def)

text \<open>The event a call of \<open>Record\<close> appends.\<close>

definition recorded_event ::
  "string \<Rightarrow> string \<Rightarrow> string \<Rightarrow> payload \<Rightarrow> 'e AuditEnv_scheme \<Rightarrow> AuditEvent" where
  "recorded_event aggregate action actor payload e =
     \<lparr>ev_ID = uuids e (issued e), ev_Aggregate = aggregate, ev_Action = action, ev_Actor = actor,
      ev_Payload = payload, ev_OccurredAt = clock e (ticks e)\<rparr>"

lemma Record_simps [simp]:
  "audit_events (Record ag ac at p e) = audit_events e @ [recorded_event ag ac at p e]"
  "ticks (Record ag ac at p e) = Suc (ticks e)"
  "issued (Record ag ac at p e) = Suc (issued e)"
  "clock (Record ag ac at p e) = clock e"
  "uuids (Record ag ac at p e) = uuids e"
  "globalMetrics (Record ag ac at p e) = globalMetrics e"
  "codec (Record ag ac at p e) = codec e"
  by (simp_all add: Record_def recorded_event_def newUUID_def time_Now_def Let_def
      split: option.splits)

lemma count_audit_frame [simp]:
  "audit_events (count upd n e) = audit_events e"
  "kafka_sink (count upd n e) = kafka_sink e"
  "codec (count upd n e) = codec e"
  by (simp_all add: count_def)

text \<open>The transitions of one application that a log records, oldest first.\<close>

definition event_transition :: "AuditEvent \<Rightarrow> (any option \<times> any option)" where
  "event_transition ev = (ev_Payload ev ''from'', ev_Payload ev ''to'')"

definition transitions_of :: "string \<Rightarrow> AuditEvent list \<Rightarrow> (any option \<times> any option) list" where
  "transitions_of appID evs =
     map event_transition
       (filter (\<lambda>ev. ev_Aggregate ev = appID \<and> ev_Action ev = ''state_transition'') evs)"

lemma transitions_of_append [simp]:
  "transitions_of appID (xs @ ys) = transitions_of appID xs @ transitions_of appID ys"
  by (simp add: transitions_of_def)

lemma transitions_of_Nil [simp]: "transitions_of appID [] = []"
  by (simp add: transitions_of_def)

text \<open>
  An environment is sound when every event carries its own identifier from the supply and no
  event is later than the next reading of a clock that never goes back.
\<close>

definition audit_sound :: "'e AuditEnv_scheme \<Rightarrow> bool" where
  "audit_sound e \<longleftrightarrow>
     (\<exists>ks. sorted_wrt (<) ks \<and> (\<forall>k \<in> set ks. k < issued e) \<and>
           map ev_ID (audit_events e) = map (uuids e) ks) \<and>
     (\<exists>ns. sorted_wrt (<) ns \<and> (\<forall>n \<in> set ns. n < ticks e) \<and>
           map ev_OccurredAt (audit_events e) = map (clock e) ns)"

lemma audit_sound_Record:
  assumes "audit_sound e"
  shows "audit_sound (Record ag ac at p e)"
proof -
  obtain ks ns where ks: "sorted_wrt (<) ks" "\<forall>k \<in> set ks. k < issued e"
      "map ev_ID (audit_events e) = map (uuids e) ks"
    and ns: "sorted_wrt (<) ns" "\<forall>n \<in> set ns. n < ticks e"
      "map ev_OccurredAt (audit_events e) = map (clock e) ns"
    using assms by (auto simp: audit_sound_def)
  have "sorted_wrt (<) (ks @ [issued e])" "sorted_wrt (<) (ns @ [ticks e])"
    using ks ns by (auto simp: sorted_wrt_append)
  with ks ns show ?thesis
    unfolding audit_sound_def Record_simps
    by (intro conjI exI [of _ "ks @ [issued e]"] exI [of _ "ns @ [ticks e]"])
       (auto simp: recorded_event_def)
qed

lemma audit_sound_frame:
  "audit_events e' = audit_events e \<Longrightarrow> uuids e' = uuids e \<Longrightarrow> clock e' = clock e \<Longrightarrow>
   issued e \<le> issued e' \<Longrightarrow> ticks e \<le> ticks e' \<Longrightarrow> audit_sound e \<Longrightarrow> audit_sound e'"
  unfolding audit_sound_def by (metis order_less_le_trans)

lemma audit_sound_RecordTransition:
  "audit_sound e \<Longrightarrow> audit_sound (RecordTransition i from to actor reason e)"
  unfolding RecordTransition_def
  by (rule audit_sound_Record, rule audit_sound_frame [of _ e]) simp_all

text \<open>In a sound log identifiers are unique, if the supply never repeats one.\<close>

lemma audit_sound_distinct:
  assumes "audit_sound e" and "inj (uuids e)"
  shows "distinct (map ev_ID (audit_events e))"
proof -
  obtain ks where "sorted_wrt (<) ks" "map ev_ID (audit_events e) = map (uuids e) ks"
    using assms(1) by (auto simp: audit_sound_def)
  moreover from this have "distinct ks" by (simp add: strict_sorted_iff)
  ultimately show ?thesis
    using assms(2) by (simp add: distinct_map inj_on_subset [OF _ subset_UNIV])
qed

lemma audit_sound_ordered:
  assumes "audit_sound e" and "mono (clock e)"
  shows "sorted (map ev_OccurredAt (audit_events e))"
proof -
  obtain ns where ns: "sorted_wrt (<) ns" "map ev_OccurredAt (audit_events e) = map (clock e) ns"
    using assms(1) unfolding audit_sound_def by blast
  have "sorted_wrt (\<lambda>m n. clock e m \<le> clock e n) ns"
    by (rule sorted_wrt_mono_rel [OF _ ns(1)]) (simp add: monoD [OF assms(2)])
  then show ?thesis
    unfolding ns(2) by (simp add: sorted_map)
qed

section \<open>What an operation may do to the log\<close>

text \<open>
  \<open>env_le e e'\<close>: the world moved on, with the same clock and identifier supply, and a sound log
  stayed sound. \<open>logs tr e e'\<close>: moreover the log was only appended to, and the appended events
  record exactly the transition \<open>tr\<close>, or none.
\<close>

definition env_le :: "'e AuditEnv_scheme \<Rightarrow> 'e AuditEnv_scheme \<Rightarrow> bool" where
  "env_le e e' \<longleftrightarrow>
     clock e' = clock e \<and> uuids e' = uuids e \<and> ticks e \<le> ticks e' \<and> issued e \<le> issued e' \<and>
     (audit_sound e \<longrightarrow> audit_sound e')"

fun transition_entry :: "string \<Rightarrow> (string \<times> State \<times> State) option \<Rightarrow> (any option \<times> any option) list" where
  "transition_entry j None = []"
| "transition_entry j (Some (i, f, t)) =
     (if j = i then [(Some (AString f), Some (AString t))] else [])"

definition logs ::
  "(string \<times> State \<times> State) option \<Rightarrow> 'e AuditEnv_scheme \<Rightarrow> 'e AuditEnv_scheme \<Rightarrow> bool" where
  "logs tr e e' \<longleftrightarrow> env_le e e' \<and>
     (\<exists>rest. audit_events e' = audit_events e @ rest \<and>
             (\<forall>j. transitions_of j rest = transition_entry j tr))"

lemma env_le_refl [simp]: "env_le e e"
  by (simp add: env_le_def)

lemma env_le_trans: "env_le e e' \<Longrightarrow> env_le e' e'' \<Longrightarrow> env_le e e''"
  by (auto simp: env_le_def)

lemma logs_env_le: "logs tr e e' \<Longrightarrow> env_le e e'"
  by (simp add: logs_def)

lemma logs_refl [simp, intro]: "logs None e e"
  by (simp add: logs_def)

lemma logs_trans:
  assumes "logs tr e e'" and "logs None e' e''"
  shows "logs tr e e''"
proof -
  obtain r1 r2 where "audit_events e' = audit_events e @ r1" "\<forall>j. transitions_of j r1 = transition_entry j tr"
    "audit_events e'' = audit_events e' @ r2" "\<forall>j. transitions_of j r2 = []"
    using assms by (auto simp: logs_def)
  with assms show ?thesis
    by (auto simp: logs_def intro!: exI [of _ "r1 @ r2"] intro: env_le_trans)
qed

lemma logs_trans_quiet:
  assumes "logs None e e'" and "logs tr e' e''"
  shows "logs tr e e''"
proof -
  obtain r1 r2 where "audit_events e' = audit_events e @ r1" "\<forall>j. transitions_of j r1 = []"
    "audit_events e'' = audit_events e' @ r2" "\<forall>j. transitions_of j r2 = transition_entry j tr"
    using assms by (auto simp: logs_def)
  with assms show ?thesis
    by (auto simp: logs_def intro!: exI [of _ "r1 @ r2"] intro: env_le_trans)
qed

lemma logs_transitions:
  "logs tr e e' \<Longrightarrow>
     transitions_of j (audit_events e') = transitions_of j (audit_events e) @ transition_entry j tr"
  by (auto simp: logs_def)

lemma logs_append_only:
  "logs tr e e' \<Longrightarrow> take (length (audit_events e)) (audit_events e') = audit_events e"
  by (auto simp: logs_def)

lemma logs_Record [intro]:
  assumes "ac \<noteq> ''state_transition''"
  shows "logs None e (Record ag ac at p e)"
proof -
  have "transitions_of j [recorded_event ag ac at p e] = []" for j
    using assms by (simp add: transitions_of_def recorded_event_def)
  then show ?thesis by (simp add: logs_def env_le_def audit_sound_Record)
qed

lemma logs_frame:
  assumes "audit_events e' = audit_events e" and "clock e' = clock e" and "uuids e' = uuids e"
    and "ticks e \<le> ticks e'" and "issued e \<le> issued e'"
  shows "logs None e e'"
  using assms audit_sound_frame [of e' e] by (auto simp: logs_def env_le_def)

lemma logs_count [simp, intro]: "logs None e (count upd n e)"
  by (rule logs_frame) simp_all

lemma logs_tick [simp, intro]: "logs None e (e\<lparr>ticks := Suc (ticks e)\<rparr>)"
  by (rule logs_frame) simp_all

lemma logs_issue [simp, intro]: "logs None e (e\<lparr>issued := Suc (issued e)\<rparr>)"
  by (rule logs_frame) simp_all

lemma transitions_of_recorded:
  "transitions_of j [recorded_event i ''state_transition'' a
       [''from'' \<mapsto> AString f, ''to'' \<mapsto> AString t, ''reason'' \<mapsto> AString r] e] =
     transition_entry j (Some (i, f, t))"
  by (simp add: transitions_of_def recorded_event_def event_transition_def)

lemma logs_RecordTransition: "logs (Some (i, f, t)) e (RecordTransition i f t a r e)"
proof -
  have "env_le e (RecordTransition i f t a r e)"
    using audit_sound_RecordTransition [of e i f t a r]
    by (auto simp: env_le_def RecordTransition_def)
  then show ?thesis
    by (simp add: logs_def RecordTransition_def transitions_of_recorded del: transition_entry.simps)
qed

end
