(* ===== verification/PolicySink.thy ===== *)
theory PolicySink
  imports AuditLog "HOL-Library.Multiset"
begin

text \<open>
  \<open>internal/policy_sink.go\<close>: publishing transitions and decisions to the Policy/Risk Engine,
  the bounded fallback queue, the background worker that drains it with back-off, and the
  composite sink. The engine's answers are a parameter: \<open>engine n evt\<close> is what the \<open>n\<close>-th
  POST of the process gets back. Every event ends in one of four ledgers (accepted by the
  engine, queued, dropped, abandoned at shutdown), so that losing one is visible in the state.
\<close>

record PolicyEvent =
  pe_Type :: string
  pe_ApplicationID :: string
  pe_From :: string
  pe_To :: string
  pe_Outcome :: string
  pe_Reason :: string
  pe_Actor :: string
  pe_OccurredAt :: time

text \<open>\<open>http.Client.Do\<close>: an error, or a response with a status code.\<close>

datatype http_outcome = DoError string | Status nat

record PolicyEnv = AuditEnv +
  endpoint :: string
  queueCap :: nat
  queue :: "PolicyEvent list"
  engine :: "nat \<Rightarrow> PolicyEvent \<Rightarrow> http_outcome"
  posts :: nat
  accepted :: "PolicyEvent list"
  dropped :: "PolicyEvent list"
  abandoned :: "PolicyEvent list"

section \<open>Publishing\<close>

definition policy_post :: "PolicyEvent \<Rightarrow> 'e PolicyEnv_scheme \<Rightarrow> go_error option \<times> 'e PolicyEnv_scheme" where
  "policy_post evt e =
     (let answer = engine e (posts e) evt;
          e = e\<lparr>posts := Suc (posts e)\<rparr>
      in (case answer of
            DoError m \<Rightarrow> (Some (Plain m), e)
          | Status code \<Rightarrow>
              if code \<ge> 400
              then (Some (Plain (''policy engine returned status '' @ FormatInt (int code))), e)
              else (None, e\<lparr>accepted := accepted e @ [evt]\<rparr>)))"

definition policy_publish :: "PolicyEvent \<Rightarrow> 'e PolicyEnv_scheme \<Rightarrow> 'e PolicyEnv_scheme" where
  "policy_publish evt e =
     (if endpoint e = '''' then e
      else (case policy_post evt e of
              (None, e) \<Rightarrow> e
            | (Some err, e) \<Rightarrow>
                if length (queue e) < queueCap e
                then e\<lparr>queue := queue e @ [evt]\<rparr>
                else e\<lparr>dropped := dropped e @ [evt]\<rparr>))"

definition policy_RecordTransition ::
  "string \<Rightarrow> State \<Rightarrow> State \<Rightarrow> string \<Rightarrow> string \<Rightarrow> 'e PolicyEnv_scheme \<Rightarrow> 'e PolicyEnv_scheme" where
  "policy_RecordTransition appID from to actor reason e =
     (let (t, e) = time_Now e in
      policy_publish
        \<lparr>pe_Type = ''state_transition'', pe_ApplicationID = appID, pe_From = from, pe_To = to,
         pe_Outcome = '''', pe_Reason = reason, pe_Actor = actor, pe_OccurredAt = t\<rparr> e)"

definition PublishDecision ::
  "string \<Rightarrow> string \<Rightarrow> string \<Rightarrow> string \<Rightarrow> 'e PolicyEnv_scheme \<Rightarrow> 'e PolicyEnv_scheme" where
  "PublishDecision appID outcome reason actor e =
     (let (t, e) = time_Now e in
      policy_publish
        \<lparr>pe_Type = ''decision'', pe_ApplicationID = appID, pe_From = '''', pe_To = '''',
         pe_Outcome = outcome, pe_Reason = reason, pe_Actor = actor, pe_OccurredAt = t\<rparr> e)"

definition compositeEventSink :: "'e EventSink \<Rightarrow> 'e EventSink \<Rightarrow> 'e EventSink" where
  "compositeEventSink primary secondary appID from to actor reason e =
     secondary appID from to actor reason (primary appID from to actor reason e)"

section \<open>The worker\<close>

datatype drain_result = Delivered | Exhausted | Stopped

text \<open>
  The retry loop for one dequeued event. \<open>stop k\<close> says whether the stop channel is closed
  during the wait after attempt \<open>k\<close>; the waits actually slept are returned as a list.
\<close>

function drain_attempts ::
  "(nat \<Rightarrow> bool) \<Rightarrow> nat \<Rightarrow> duration \<Rightarrow> PolicyEvent \<Rightarrow> 'e PolicyEnv_scheme \<Rightarrow>
     drain_result \<times> duration list \<times> 'e PolicyEnv_scheme" where
  "drain_attempts stop attempt backoff evt e =
     (if attempt \<le> 5 then
        (case policy_post evt e of
           (None, e) \<Rightarrow> (Delivered, [], e)
         | (Some err, e) \<Rightarrow>
             if attempt = 5 then (Exhausted, [], e\<lparr>dropped := dropped e @ [evt]\<rparr>)
             else if stop attempt then (Stopped, [], e\<lparr>abandoned := abandoned e @ [evt]\<rparr>)
             else (case drain_attempts stop (Suc attempt) (backoff * 2) evt e of
                     (r, waits, e) \<Rightarrow> (r, backoff # waits, e)))
      else (Exhausted, [], e))"
  by pat_completeness auto
termination
  by (relation "measure (\<lambda>(stop, attempt, backoff, evt, e). 6 - attempt)") auto

declare drain_attempts.simps [simp del]

text \<open>
  The outer loop, for a run in which the worker takes \<open>length stops\<close> events off the queue
  before the stop channel wins the \<open>select\<close>; \<open>stops\<close> has the \<open>stop\<close> function of each event.
  Once an event's retry loop sees the stop signal the worker returns.
\<close>

fun drain :: "(nat \<Rightarrow> bool) list \<Rightarrow> 'e PolicyEnv_scheme \<Rightarrow> 'e PolicyEnv_scheme" where
  "drain [] e = e"
| "drain (stop # stops) e =
     (case queue e of
        [] \<Rightarrow> e
      | evt # rest \<Rightarrow>
          (case drain_attempts stop 1 second evt (e\<lparr>queue := rest\<rparr>) of
             (r, _, e) \<Rightarrow> if r = Stopped then e else drain stops e))"

section \<open>Construction and shutdown\<close>

text \<open>
  The sink itself: the time-out of its HTTP client, whether the worker runs, and whether the stop
  channel has been closed. Its queue and the engine are parts of the environment.
\<close>

record PolicyEventSink =
  sink_timeout :: duration
  sink_worker :: bool
  sink_stopped :: bool

definition NewPolicyEventSink ::
  "(string \<Rightarrow> duration option) \<Rightarrow> environ \<Rightarrow> 'e PolicyEnv_scheme \<Rightarrow> PolicyEventSink \<times> 'e PolicyEnv_scheme" where
  "NewPolicyEventSink parse env e =
     (let ep = env ''POLICY_RISK_ENGINE_URL'';
          cap = envIntDefault env ''POLICY_EVENT_QUEUE_CAP'' 1024
      in (\<lparr>sink_timeout = envDurationDefault parse env ''POLICY_RISK_ENGINE_TIMEOUT'' (5 * second),
           sink_worker = (ep \<noteq> ''''), sink_stopped = False\<rparr>,
          e\<lparr>endpoint := ep, queueCap := nat cap, queue := []\<rparr>))"

text \<open>
  \<open>Stop\<close>: closing the channel a second time is a panic, \<open>None\<close>. Otherwise the call returns when
  the worker has, which may take \<open>length stops\<close> more events before it sees the closed channel.
\<close>

definition policy_Stop ::
  "PolicyEventSink \<Rightarrow> (nat \<Rightarrow> bool) list \<Rightarrow> 'e PolicyEnv_scheme \<Rightarrow> (PolicyEventSink \<times> 'e PolicyEnv_scheme) option" where
  "policy_Stop sink stops e =
     (if sink_stopped sink then None
      else Some (sink\<lparr>sink_stopped := True\<rparr>, if sink_worker sink then drain stops e else e))"

definition ErrPolicyEngineUnreachable :: go_error where
  "ErrPolicyEngineUnreachable = Plain ''policy engine unreachable''"

text \<open>A new sink can hold at least one event, and its worker runs exactly when there is an engine.\<close>

lemma NewPolicyEventSink_facts:
  assumes "NewPolicyEventSink parse env e = (sink, e')"
  shows "0 < queueCap e'" "queue e' = []" "sink_worker sink \<longleftrightarrow> endpoint e' \<noteq> ''''" "0 <s sink_timeout sink"
proof -
  have "0 <s (5 * second :: duration)" by (simp add: second_def word_sless_alt)
  then show "0 < queueCap e'" "queue e' = []" "sink_worker sink \<longleftrightarrow> endpoint e' \<noteq> ''''" "0 <s sink_timeout sink"
    using assms envIntDefault_pos [of 1024 env] envDurationDefault_pos
    by (auto simp: NewPolicyEventSink_def Let_def)
qed

text \<open>When the worker sees the closed channel first, \<open>Stop\<close> leaves the queued events where they are.\<close>

lemma policy_Stop_keeps_queue:
  "policy_Stop sink [] e = Some (sink', e') \<Longrightarrow> e' = e"
  by (auto simp: policy_Stop_def split: if_splits)

section \<open>Accounting\<close>

text \<open>Every event the sink has taken, wherever it ended.\<close>

definition ledger :: "'e PolicyEnv_scheme \<Rightarrow> PolicyEvent multiset" where
  "ledger e = mset (accepted e) + mset (queue e) + mset (dropped e) + mset (abandoned e)"

lemma policy_post_cases:
  "policy_post evt e = (r, e') \<Longrightarrow>
     queue e' = queue e \<and> queueCap e' = queueCap e \<and> endpoint e' = endpoint e \<and>
     dropped e' = dropped e \<and> abandoned e' = abandoned e \<and> engine e' = engine e \<and>
     accepted e' = (if r = None then accepted e @ [evt] else accepted e) \<and>
     posts e' = Suc (posts e)"
  by (auto simp: policy_post_def Let_def split: http_outcome.splits if_splits)

lemma policy_post_world:
  "policy_post evt e = (r, e') \<Longrightarrow>
     clock e' = clock e \<and> ticks e' = ticks e \<and> uuids e' = uuids e \<and> issued e' = issued e \<and>
     audit_events e' = audit_events e \<and> kafka_sink e' = kafka_sink e \<and> codec e' = codec e \<and>
     globalMetrics e' = globalMetrics e"
  by (auto simp: policy_post_def Let_def split: http_outcome.splits if_splits)

lemma policy_publish_ledger:
  "ledger (policy_publish evt e) = (if endpoint e = '''' then {#} else {#evt#}) + ledger e"
  by (auto simp: policy_publish_def ledger_def dest: policy_post_cases
      split: prod.splits option.splits)

lemma policy_publish_world [simp]:
  "clock (policy_publish evt e) = clock e" "ticks (policy_publish evt e) = ticks e"
  "uuids (policy_publish evt e) = uuids e" "issued (policy_publish evt e) = issued e"
  "audit_events (policy_publish evt e) = audit_events e"
  "codec (policy_publish evt e) = codec e"
  "globalMetrics (policy_publish evt e) = globalMetrics e"
  by (auto simp: policy_publish_def dest: policy_post_world split: prod.splits option.splits)

lemma policy_publish_bound:
  "length (queue e) \<le> queueCap e \<Longrightarrow>
     length (queue (policy_publish evt e)) \<le> queueCap (policy_publish evt e)"
  by (auto simp: policy_publish_def dest: policy_post_cases split: prod.splits option.splits)

text \<open>The retry loop neither duplicates nor loses its event, and leaves the queue alone.\<close>

lemma drain_attempts_ledger:
  "drain_attempts stop attempt backoff evt e = (r, waits, e') \<Longrightarrow> 1 \<le> attempt \<Longrightarrow> attempt \<le> 5 \<Longrightarrow>
     ledger e' = {#evt#} + ledger e \<and> queue e' = queue e \<and> queueCap e' = queueCap e"
proof (induction stop attempt backoff evt e arbitrary: r waits e' rule: drain_attempts.induct)
  case (1 stop attempt backoff evt e)
  obtain p e1 where post: "policy_post evt e = (p, e1)" by force
  note facts = policy_post_cases [OF post]
  show ?case
  proof (cases "p = None \<or> attempt = 5 \<or> stop attempt")
    case True
    with "1.prems" post facts show ?thesis
      by (subst (asm) drain_attempts.simps)
         (auto simp: ledger_def split: if_splits option.splits)
  next
    case False
    then obtain err where p: "p = Some err" by auto
    obtain r2 w2 e2 where rec: "drain_attempts stop (Suc attempt) (backoff * 2) evt e1 = (r2, w2, e2)"
      by (metis prod_cases3)
    have "e' = e2"
      using "1.prems" post p False rec by (subst (asm) drain_attempts.simps) (auto split: if_splits)
    moreover have "ledger e2 = {#evt#} + ledger e1 \<and> queue e2 = queue e1 \<and> queueCap e2 = queueCap e1"
      using "1.IH" [of p e1 err] post p False rec "1.prems" by simp
    ultimately show ?thesis
      using facts p by (auto simp: ledger_def ac_simps)
  qed
qed

text \<open>At most four waits, starting with the given back-off and doubling.\<close>

fun doubling :: "duration \<Rightarrow> nat \<Rightarrow> duration list" where
  "doubling d 0 = []"
| "doubling d (Suc n) = d # doubling (d * 2) n"

lemma drain_attempts_waits:
  "drain_attempts stop attempt backoff evt e = (r, waits, e') \<Longrightarrow> 1 \<le> attempt \<Longrightarrow> attempt \<le> 5 \<Longrightarrow>
     \<exists>n \<le> 5 - attempt. waits = doubling backoff n \<and>
       posts e' = posts e + n + 1 \<and> (r = Exhausted \<longrightarrow> n = 5 - attempt)"
proof (induction stop attempt backoff evt e arbitrary: r waits e' rule: drain_attempts.induct)
  case (1 stop attempt backoff evt e)
  obtain p e1 where post: "policy_post evt e = (p, e1)" by force
  note facts = policy_post_cases [OF post]
  show ?case
  proof (cases "p = None \<or> attempt = 5 \<or> stop attempt")
    case True
    with "1.prems" post facts show ?thesis
      by (subst (asm) drain_attempts.simps)
         (intro exI [of _ 0], auto split: if_splits option.splits)
  next
    case False
    then obtain err where p: "p = Some err" by auto
    obtain r2 w2 e2 where rec: "drain_attempts stop (Suc attempt) (backoff * 2) evt e1 = (r2, w2, e2)"
      by (metis prod_cases3)
    have e': "e' = e2" "waits = backoff # w2" "r = r2"
      using "1.prems" post p False rec by (subst (asm) drain_attempts.simps, auto split: if_splits)+
    have "\<exists>n \<le> 5 - Suc attempt. w2 = doubling (backoff * 2) n \<and>
       posts e2 = posts e1 + n + 1 \<and> (r2 = Exhausted \<longrightarrow> n = 5 - Suc attempt)"
      using "1.IH" [of p e1 err] post p False rec "1.prems" by simp
    then obtain n where "n \<le> 5 - Suc attempt" "w2 = doubling (backoff * 2) n"
      "posts e2 = posts e1 + n + 1" "r2 = Exhausted \<longrightarrow> n = 5 - Suc attempt" by blast
    then show ?thesis
      using e' facts False "1.prems" by (intro exI [of _ "Suc n"]) auto
  qed
qed

lemma drain_ledger: "ledger (drain stops e) = ledger e"
proof (induction stops arbitrary: e)
  case Nil
  then show ?case by simp
next
  case (Cons stop stops)
  show ?case
  proof (cases "queue e")
    case Nil
    then show ?thesis by simp
  next
    case (Cons evt rest)
    obtain r w e1 where d: "drain_attempts stop 1 second evt (e\<lparr>queue := rest\<rparr>) = (r, w, e1)"
      by (metis prod_cases3)
    have "ledger e1 = ledger e"
      using drain_attempts_ledger [OF d] Cons by (auto simp: ledger_def ac_simps)
    then show ?thesis
      using Cons.IH Cons d by (simp add: Cons.IH)
  qed
qed

section \<open>Sinks that feed the audit log\<close>

text \<open>
  What the repositories rely on in their sink: each call is one \<open>state_transition\<close> event of
  the application in the audit log, appended; the clock and the identifier supply are used only
  forwards.
\<close>

locale logging_sink =
  fixes sink :: "'x AuditEnv_scheme EventSink"
  assumes sink_logs: "logs (Some (i, f, t)) e (sink i f t a r e)"
begin

lemma sink_transitions:
  "transitions_of j (audit_events (sink i f t a r e)) =
     transitions_of j (audit_events e) @ transition_entry j (Some (i, f, t))"
  by (rule logs_transitions [OF sink_logs])

lemma sink_append_only:
  "take (length (audit_events e)) (audit_events (sink i f t a r e)) = audit_events e"
  by (rule logs_append_only [OF sink_logs])

text \<open>Also after the clock reading with which the repositories stamp the change.\<close>

lemma sink_logs_after_tick:
  "logs (Some (i, f, t)) e (sink i f t a r (e\<lparr>ticks := Suc (ticks e)\<rparr>))"
  by (rule logs_trans_quiet [OF logs_tick sink_logs])

end

interpretation audit_sink: logging_sink RecordTransition
  by unfold_locales (rule logs_RecordTransition)

lemma logs_policy_RecordTransition: "logs None e (policy_RecordTransition i f t a r e)"
  by (rule logs_frame) (simp_all add: policy_RecordTransition_def time_Now_def)

definition policy_audit_sink :: "'x PolicyEnv_scheme EventSink" where
  "policy_audit_sink = compositeEventSink policy_RecordTransition RecordTransition"

interpretation composite_sink: logging_sink policy_audit_sink
proof unfold_locales
  fix i f t a r and e :: "'x PolicyEnv_scheme"
  show "logs (Some (i, f, t)) e (policy_audit_sink i f t a r e)"
    unfolding policy_audit_sink_def compositeEventSink_def
    by (rule logs_trans_quiet [OF logs_policy_RecordTransition logs_RecordTransition])
qed

section \<open>Properties\<close>

text \<open>
  C22. No event is lost without trace or delivered twice by the sink: publishing adds exactly the
  new event to the ledger of accepted, queued, dropped and abandoned events (and nothing when no
  endpoint is configured), a full queue is never exceeded, and the worker only moves events inside
  the ledger, whatever the engine answers and whenever it is stopped.
\<close>

theorem policy_events_conserved:
  "ledger (policy_publish evt e) = (if endpoint e = '''' then {#} else {#evt#}) + ledger e \<and>
   (if length (queue e) \<le> queueCap e
    then length (queue (policy_publish evt e)) \<le> queueCap (policy_publish evt e) else True) \<and>
   ledger (drain stops e) = ledger e"
  using policy_publish_bound [of e evt] by (simp add: policy_publish_ledger drain_ledger)

text \<open>
  C23. For one event the worker makes at most five posts; the waits between them start at one second
  and double, and it gives an event up only after the fifth post.
\<close>

theorem drain_backoff_doubles:
  assumes "drain_attempts stop 1 second evt e = (r, waits, e')"
  shows "length waits \<le> 4 \<and> waits = doubling second (length waits) \<and>
    posts e' = posts e + length waits + 1 \<and> (r = Exhausted \<longrightarrow> posts e' = posts e + 5)"
proof -
  obtain n where n: "n \<le> 4" "waits = doubling second n" "posts e' = posts e + n + 1" "r = Exhausted \<longrightarrow> n = 4"
    using drain_attempts_waits [OF assms] by auto
  have "length (doubling d n) = n" for d by (induction n arbitrary: d) auto
  with n show ?thesis by auto
qed

definition demo_policy :: PolicyEnv where
  "demo_policy =
     \<lparr>clock = (\<lambda>n. int n), ticks = 0, uuids = (\<lambda>n. replicate (Suc n) (CHR ''x'')), issued = 0,
      globalMetrics = newMetrics,
      codec = \<lparr>json_event = (\<lambda>_. None), json_envelope = (\<lambda>_. None), sha256_hex = (\<lambda>_. ''''), rfc3339nano = (\<lambda>_. '''')\<rparr>,
      audit_events = [], kafka_sink = None,
      endpoint = ''http://engine'', queueCap = 1, queue = [], engine = (\<lambda>n _. if n < 2 then Status 503 else Status 200),
      posts = 0, accepted = [], dropped = [], abandoned = []\<rparr>"

definition demo_decision :: PolicyEvent where
  "demo_decision =
     \<lparr>pe_Type = ''decision'', pe_ApplicationID = ''a'', pe_From = '''', pe_To = '''', pe_Outcome = ''PASS'',
      pe_Reason = '''', pe_Actor = ''system'', pe_OccurredAt = 1\<rparr>"

theorem policy_events_conserved_witness:
  "ledger (policy_publish demo_decision demo_policy) = {#demo_decision#} \<and>
   queue (policy_publish demo_decision demo_policy) = [demo_decision]"
  using policy_events_conserved [of demo_decision demo_policy]
  by (simp add: demo_policy_def ledger_def policy_publish_def policy_post_def)

theorem drain_backoff_doubles_witness:
  "\<exists>e'. drain_attempts (\<lambda>_. False) 1 second demo_decision demo_policy = (Delivered, [second, second * 2], e') \<and>
     posts e' = 3"
proof -
  obtain r waits e' where d: "drain_attempts (\<lambda>_. False) 1 second demo_decision demo_policy = (r, waits, e')"
    by (metis prod_cases3)
  have rw: "r = Delivered" "waits = [second, second * 2]"
    using d by (simp_all add: drain_attempts.simps policy_post_def demo_policy_def Let_def)
  have "posts e' = 3" using drain_backoff_doubles [OF d] rw by (simp add: demo_policy_def)
  with d rw show ?thesis by blast
qed

end
