(* ===== verification/Repo.thy ===== *)
theory Repo
  imports PolicySink
begin

text \<open>
  \<open>internal/repo.go\<close> and \<open>internal/stores.go\<close>: the application aggregate, the in-memory
  \<open>ApplicationRepository\<close>, and the interface \<open>ApplicationRepo\<close> its clients use.

  The Go repository maps identifiers to pointers; only \<open>Create\<close> lets a pointer in, and every
  read hands out a copy, so the model keeps the records themselves in the map. \<open>Create\<close> also
  returns the application as it has filled it in, which the caller sees through its pointer.
  Every operation takes the mutex for its whole body, so each definition is one atomic step.
  The tracing spans have no effect on the state.
\<close>

section \<open>Data\<close>

record Application =
  app_ID :: string
  app_UserID :: string
  app_Vendor :: string
  app_VendorApplicantID :: string
  app_State :: State
  app_CreatedAt :: time
  app_UpdatedAt :: time
  app_ExpiresAt :: time
  app_ReKYCDueAt :: time
  app_DecidedAt :: time
  app_Version :: goint

record ReKYCDue =
  due_ID :: string
  due_Version :: goint

record ApplicationRepository =
  apps :: "string \<rightharpoonup> Application"
  byUser :: "string \<rightharpoonup> string"

definition NewApplicationRepository :: ApplicationRepository where
  "NewApplicationRepository = \<lparr>apps = Map.empty, byUser = Map.empty\<rparr>"

section \<open>The in-memory repository\<close>

text \<open>The look-up of the user's present application at the start of \<open>Create\<close>.\<close>

definition Create_admit ::
  "Application \<Rightarrow> ApplicationRepository \<Rightarrow> go_error + ApplicationRepository" where
  "Create_admit app r =
     (case byUser r (app_UserID app) of
        None \<Rightarrow> Inr r
      | Some existingID \<Rightarrow>
          (case apps r existingID of
             Some ex \<Rightarrow>
               if \<not> IsTerminal (app_State ex)
               then Inl (Errorf ErrDuplicate
                      (''active application already exists for user '' @ app_UserID app))
               else Inr (r\<lparr>apps := (apps r)(existingID := None)\<rparr>)
           | None \<Rightarrow> Inr (r\<lparr>apps := (apps r)(existingID := None)\<rparr>)))"

text \<open>The defaults \<open>Create\<close> writes into the application.\<close>

definition Create_fill :: "time \<Rightarrow> Application \<Rightarrow> Application" where
  "Create_fill t app =
     app\<lparr>app_State := (if app_State app = '''' then StateStarted else app_State app),
         app_CreatedAt := (if IsZero (app_CreatedAt app) then t else app_CreatedAt app),
         app_UpdatedAt := t,
         app_Version := (if app_Version app = 0 then 1 else app_Version app)\<rparr>"

definition Create ::
  "Application \<Rightarrow> ApplicationRepository \<times> 'e World_scheme \<Rightarrow>
     (go_error option \<times> Application) \<times> ApplicationRepository \<times> 'e World_scheme" where
  "Create app =
     (\<lambda>(r, e).
       if app_UserID app = ''''
       then ((Some (Errorf ErrInvalidArgument ''user_id is required''), app), r, e)
       else (case Create_admit app r of
               Inl err \<Rightarrow> ((Some err, app), r, e)
             | Inr r \<Rightarrow>
                 if app_ID app = ''''
                 then ((Some (Errorf ErrInvalidArgument ''id is required''), app), r, e)
                 else if apps r (app_ID app) \<noteq> None
                 then ((Some (Errorf ErrDuplicate (''application id '' @ app_ID app)), app), r, e)
                 else
                   (let (t, e) = time_Now e;
                        app = Create_fill t app
                    in ((None, app),
                        r\<lparr>apps := (apps r)(app_ID app \<mapsto> app),
                          byUser := (byUser r)(app_UserID app \<mapsto> app_ID app)\<rparr>, e))))"

definition Get :: "string \<Rightarrow> ApplicationRepository \<Rightarrow> go_error + Application" where
  "Get appID r =
     (case apps r appID of
        None \<Rightarrow> Inl (Errorf ErrNotFound (''application '' @ appID))
      | Some app \<Rightarrow> Inr app)"

definition GetByUserID :: "string \<Rightarrow> ApplicationRepository \<Rightarrow> go_error + Application" where
  "GetByUserID userID r =
     (case byUser r userID of
        None \<Rightarrow> Inl (Errorf ErrNotFound (''application for user '' @ userID))
      | Some appID \<Rightarrow>
          (case apps r appID of
             None \<Rightarrow> Inl (Errorf ErrNotFound (''application for user '' @ userID))
           | Some app \<Rightarrow> Inr app))"

text \<open>The fields \<open>UpdateState\<close> writes.\<close>

definition transition_app :: "time \<Rightarrow> State \<Rightarrow> Application \<Rightarrow> Application" where
  "transition_app t newState app =
     (let app = app\<lparr>app_State := newState, app_Version := app_Version app + 1, app_UpdatedAt := t\<rparr>
      in if IsTerminal newState
         then app\<lparr>app_DecidedAt := app_UpdatedAt app,
                  app_ReKYCDueAt := AddDuration (app_UpdatedAt app) year365\<rparr>
         else app)"

definition UpdateState ::
  "'e World_scheme EventSink \<Rightarrow> string \<Rightarrow> goint \<Rightarrow> State \<Rightarrow> string \<Rightarrow> string \<Rightarrow>
     ApplicationRepository \<times> 'e World_scheme \<Rightarrow>
     (go_error + Application) \<times> ApplicationRepository \<times> 'e World_scheme" where
  "UpdateState sink appID version newState actor reason =
     (\<lambda>(r, e).
       case apps r appID of
         None \<Rightarrow> (Inl (Errorf ErrNotFound (''application '' @ appID)), r, e)
       | Some app \<Rightarrow>
           if app_Version app \<noteq> version
           then (Inl (Errorf ErrConflict
                  (''application '' @ appID @ '' version mismatch (have '' @
                   FormatInt (sint (app_Version app)) @ '' want '' @ FormatInt (sint version) @ '')'')), r, e)
           else (case ValidateTransition (app_State app) newState of
                   Some err \<Rightarrow> (Inl err, r, e)
                 | None \<Rightarrow>
                     (let from = app_State app;
                          (t, e) = time_Now e;
                          app = transition_app t newState app
                      in (Inr app, r\<lparr>apps := (apps r)(appID \<mapsto> app)\<rparr>,
                          sink appID from newState actor reason e))))"

text \<open>The fields \<open>Reopen\<close> writes.\<close>

definition reopen_app :: "time \<Rightarrow> Application \<Rightarrow> Application" where
  "reopen_app t app =
     app\<lparr>app_State := StateStarted, app_Version := app_Version app + 1, app_UpdatedAt := t,
         app_DecidedAt := 0, app_ReKYCDueAt := 0\<rparr>"

definition Reopen ::
  "'e World_scheme EventSink \<Rightarrow> string \<Rightarrow> goint \<Rightarrow> string \<Rightarrow>
     ApplicationRepository \<times> 'e World_scheme \<Rightarrow>
     (go_error + Application) \<times> ApplicationRepository \<times> 'e World_scheme" where
  "Reopen sink appID version actor =
     (\<lambda>(r, e).
       case apps r appID of
         None \<Rightarrow> (Inl (Errorf ErrNotFound (''application '' @ appID)), r, e)
       | Some app \<Rightarrow>
           if app_Version app \<noteq> version
           then (Inl (Errorf ErrConflict (''application '' @ appID @ '' version mismatch'')), r, e)
           else if \<not> IsTerminal (app_State app)
           then (Inl (Bare ErrReKYCNotTerminal), r, e)
           else
             (let from = app_State app;
                  (t, e) = time_Now e;
                  app = reopen_app t app
              in (Inr app, r\<lparr>apps := (apps r)(appID \<mapsto> app)\<rparr>,
                  sink appID from StateStarted actor ''re-kyc'' e)))"

text \<open>The fields \<open>SetVendorApplicantID\<close> writes.\<close>

definition vendor_app :: "time \<Rightarrow> string \<Rightarrow> Application \<Rightarrow> Application" where
  "vendor_app t vendorID app =
     app\<lparr>app_VendorApplicantID := vendorID, app_Version := app_Version app + 1, app_UpdatedAt := t\<rparr>"

definition SetVendorApplicantID ::
  "string \<Rightarrow> string \<Rightarrow> ApplicationRepository \<times> 'e World_scheme \<Rightarrow>
     ApplicationRepository \<times> 'e World_scheme" where
  "SetVendorApplicantID appID vendorID =
     (\<lambda>(r, e).
       case apps r appID of
         Some app \<Rightarrow>
           (let (t, e) = time_Now e
            in (r\<lparr>apps := (apps r)(appID \<mapsto> vendor_app t vendorID app)\<rparr>, e))
       | None \<Rightarrow> (r, e))"

text \<open>The test of one application in \<open>ListDueForReKYC\<close>.\<close>

definition is_due :: "time \<Rightarrow> Application \<Rightarrow> bool" where
  "is_due now app \<longleftrightarrow>
     \<not> IsZero (app_ReKYCDueAt app) \<and> \<not> After (app_ReKYCDueAt app) now \<and> IsTerminal (app_State app)"

text \<open>\<open>order\<close> is the order in which the runtime ranges over the map.\<close>

fun ListDueForReKYC :: "string list \<Rightarrow> time \<Rightarrow> ApplicationRepository \<Rightarrow> ReKYCDue list" where
  "ListDueForReKYC [] now r = []"
| "ListDueForReKYC (appID # order) now r =
     (case apps r appID of
        None \<Rightarrow> ListDueForReKYC order now r
      | Some app \<Rightarrow>
          if is_due now app
          then \<lparr>due_ID = app_ID app, due_Version = app_Version app\<rparr> # ListDueForReKYC order now r
          else ListDueForReKYC order now r)"

section \<open>The interface\<close>

text \<open>
  An operation takes the store and the environment and returns both: a read leaves the in-memory
  store as it is, but sends statements to a database.
\<close>

record ('r, 'e) ApplicationRepo =
  repo_Create :: "Application \<Rightarrow> 'r \<times> 'e \<Rightarrow> (go_error option \<times> Application) \<times> 'r \<times> 'e"
  repo_Get :: "string \<Rightarrow> 'r \<times> 'e \<Rightarrow> (go_error + Application) \<times> 'r \<times> 'e"
  repo_GetByUserID :: "string \<Rightarrow> 'r \<times> 'e \<Rightarrow> (go_error + Application) \<times> 'r \<times> 'e"
  repo_UpdateState ::
    "string \<Rightarrow> goint \<Rightarrow> State \<Rightarrow> string \<Rightarrow> string \<Rightarrow> 'r \<times> 'e \<Rightarrow> (go_error + Application) \<times> 'r \<times> 'e"
  repo_Reopen :: "string \<Rightarrow> goint \<Rightarrow> string \<Rightarrow> 'r \<times> 'e \<Rightarrow> (go_error + Application) \<times> 'r \<times> 'e"
  repo_ListDueForReKYC :: "string list \<Rightarrow> time \<Rightarrow> 'r \<times> 'e \<Rightarrow> ReKYCDue list \<times> 'r \<times> 'e"
  repo_SetVendorApplicantID :: "string \<Rightarrow> string \<Rightarrow> 'r \<times> 'e \<Rightarrow> 'r \<times> 'e"

definition mem_repo ::
  "'e World_scheme EventSink \<Rightarrow> (ApplicationRepository, 'e World_scheme) ApplicationRepo" where
  "mem_repo sink =
     \<lparr>repo_Create = Create,
      repo_Get = (\<lambda>appID (r, e). (Get appID r, r, e)),
      repo_GetByUserID = (\<lambda>userID (r, e). (GetByUserID userID r, r, e)),
      repo_UpdateState = UpdateState sink,
      repo_Reopen = Reopen sink,
      repo_ListDueForReKYC = (\<lambda>order now (r, e). (ListDueForReKYC order now r, r, e)),
      repo_SetVendorApplicantID = SetVendorApplicantID\<rparr>"

lemma mem_repo_simps [simp]:
  "repo_Create (mem_repo sink) = Create"
  "repo_Get (mem_repo sink) = (\<lambda>appID (r, e). (Get appID r, r, e))"
  "repo_GetByUserID (mem_repo sink) = (\<lambda>userID (r, e). (GetByUserID userID r, r, e))"
  "repo_UpdateState (mem_repo sink) = UpdateState sink"
  "repo_Reopen (mem_repo sink) = Reopen sink"
  "repo_ListDueForReKYC (mem_repo sink) = (\<lambda>order now (r, e). (ListDueForReKYC order now r, r, e))"
  "repo_SetVendorApplicantID (mem_repo sink) = SetVendorApplicantID"
  by (simp_all add: mem_repo_def)

end
