(* ===== verification/RepoContract.thy ===== *)
theory RepoContract
  imports Repo
begin

text \<open>
  What the clients of \<open>ApplicationRepo\<close> (\<open>internal/stores.go\<close>) rely on. The abstract view of a
  repository is the map from identifiers to applications; \<open>app_step\<close> says how that view and the
  audit log may change together. The locale \<open>application_repo\<close> states the laws that hold even
  if the store behind it can fail, \<open>reliable_repo\<close> adds what a store that never fails promises,
  and the in-memory repository over any sink that feeds the audit log is shown to be one.
\<close>

section \<open>Steps of the abstract system\<close>

type_synonym view = "string \<rightharpoonup> Application"

text \<open>The view without the applications of one user.\<close>

definition forget_user :: "string \<Rightarrow> view \<Rightarrow> view" where
  "forget_user u v =
     (\<lambda>i. case v i of None \<Rightarrow> None | Some a \<Rightarrow> if app_UserID a = u then None else Some a)"

definition all_terminal :: "string \<Rightarrow> view \<Rightarrow> bool" where
  "all_terminal u v \<longleftrightarrow> (\<forall>i a. v i = Some a \<longrightarrow> app_UserID a = u \<longrightarrow> IsTerminal (app_State a))"

text \<open>An application as the service creates it: no history, no decision.\<close>

definition blank_app :: "Application \<Rightarrow> bool" where
  "blank_app a \<longleftrightarrow> app_State a \<in> {'''', StateStarted} \<and> app_DecidedAt a = 0 \<and>
     app_ReKYCDueAt a = 0 \<and> app_Version a = 0 \<and> app_ID a \<noteq> '''' \<and> app_UserID a \<noteq> ''''"

inductive app_step :: "view \<times> 'e AuditEnv_scheme \<Rightarrow> view \<times> 'e AuditEnv_scheme \<Rightarrow> bool" where
  create:
    "blank_app a \<Longrightarrow> v (app_ID a) = None \<Longrightarrow> all_terminal (app_UserID a) v \<Longrightarrow>
     issued e \<le> k \<Longrightarrow> k < issued e' \<Longrightarrow> app_ID a = uuids e k \<Longrightarrow> t \<in> range (clock e) \<Longrightarrow>
     logs None e e' \<Longrightarrow>
     app_step (v, e) ((forget_user (app_UserID a) v)(app_ID a \<mapsto> Create_fill t a), e')"
| purge:
    "all_terminal u v \<Longrightarrow> logs None e e' \<Longrightarrow> app_step (v, e) (forget_user u v, e')"
| update:
    "v i = Some a \<Longrightarrow> CanTransition (app_State a) s \<Longrightarrow> s \<noteq> StateStarted \<Longrightarrow>
     t \<in> range (clock e) \<Longrightarrow> logs (Some (i, app_State a, s)) e e' \<Longrightarrow>
     app_step (v, e) (v(i \<mapsto> transition_app t s a), e')"
| reopen:
    "v i = Some a \<Longrightarrow> IsTerminal (app_State a) \<Longrightarrow> t \<in> range (clock e) \<Longrightarrow>
     logs (Some (i, app_State a, StateStarted)) e e' \<Longrightarrow>
     app_step (v, e) (v(i \<mapsto> reopen_app t a), e')"
| vendor:
    "v i = Some a \<Longrightarrow> logs None e e' \<Longrightarrow> app_step (v, e) (v(i \<mapsto> vendor_app t w a), e')"
| observe:
    "logs None e e' \<Longrightarrow> app_step (v, e) (v, e')"

abbreviation app_steps :: "view \<times> 'e AuditEnv_scheme \<Rightarrow> view \<times> 'e AuditEnv_scheme \<Rightarrow> bool" where
  "app_steps \<equiv> app_step\<^sup>*\<^sup>*"

lemma app_steps_observe: "logs None e e' \<Longrightarrow> app_steps (v, e) (v, e')"
  by (rule r_into_rtranclp) (rule app_step.observe)

lemma app_steps_trans [trans]: "app_steps x y \<Longrightarrow> app_steps y z \<Longrightarrow> app_steps x z"
  by (rule rtranclp_trans)

lemma app_step_env_le: "app_step x y \<Longrightarrow> env_le (snd x) (snd y)"
  by (induction rule: app_step.induct) (auto intro: logs_env_le)

lemma app_steps_env_le: "app_steps x y \<Longrightarrow> env_le (snd x) (snd y)"
  by (induction rule: rtranclp_induct) (auto intro: env_le_trans app_step_env_le)

section \<open>The invariant of the abstract system\<close>

text \<open>
  Replaying the transitions that the log has for one application: each starts where the one
  before ended, and is legal.
\<close>

fun replay :: "State \<Rightarrow> (any option \<times> any option) list \<Rightarrow> State option" where
  "replay s [] = Some s"
| "replay s ((Some (AString f), Some (AString t)) # es) =
     (if f = s \<and> CanTransition f t then replay t es else None)"
| "replay s (_ # es) = None"

lemma replay_append:
  "replay s (xs @ ys) = (case replay s xs of None \<Rightarrow> None | Some s' \<Rightarrow> replay s' ys)"
  by (induction s xs rule: replay.induct) auto

text \<open>A decided application has its decision and re-KYC dates, an open one has neither.\<close>

definition dates_ok :: "Application \<Rightarrow> bool" where
  "dates_ok a \<longleftrightarrow>
     (if IsTerminal (app_State a)
      then app_ReKYCDueAt a = AddDuration (app_DecidedAt a) year365
      else app_DecidedAt a = 0 \<and> app_ReKYCDueAt a = 0)"

definition issued_id :: "'e AuditEnv_scheme \<Rightarrow> string \<Rightarrow> bool" where
  "issued_id e i \<longleftrightarrow> (\<exists>k < issued e. i = uuids e k)"

definition app_ok :: "'e AuditEnv_scheme \<Rightarrow> string \<Rightarrow> Application \<Rightarrow> bool" where
  "app_ok e i a \<longleftrightarrow> app_ID a = i \<and> app_UserID a \<noteq> '''' \<and> known_state (app_State a) \<and>
     dates_ok a \<and> issued_id e i \<and>
     replay StateStarted (transitions_of i (audit_events e)) = Some (app_State a)"

definition app_inv :: "view \<times> 'e AuditEnv_scheme \<Rightarrow> bool" where
  "app_inv = (\<lambda>(v, e).
     (\<forall>i a. v i = Some a \<longrightarrow> app_ok e i a) \<and>
     (\<forall>i j a b. v i = Some a \<longrightarrow> v j = Some b \<longrightarrow> app_UserID a = app_UserID b \<longrightarrow> i = j) \<and>
     (\<forall>i. transitions_of i (audit_events e) \<noteq> [] \<longrightarrow> issued_id e i))"

lemma app_invD:
  "app_inv (v, e) \<Longrightarrow> v i = Some a \<Longrightarrow> app_ok e i a"
  by (auto simp: app_inv_def)

lemma issued_id_mono: "env_le e e' \<Longrightarrow> issued_id e i \<Longrightarrow> issued_id e' i"
  unfolding issued_id_def env_le_def by (metis order_less_le_trans)

lemma issued_id_fresh:
  "inj (uuids e) \<Longrightarrow> issued e \<le> k \<Longrightarrow> \<not> issued_id e (uuids e k)"
  unfolding issued_id_def by (metis injD linorder_not_less)

lemma app_ok_quiet:
  "logs None e e' \<Longrightarrow> app_ok e i a \<Longrightarrow> app_ok e' i a"
  by (auto simp: app_ok_def logs_transitions dest: logs_env_le intro: issued_id_mono)

lemma app_ok_other:
  "logs (Some (j, f, t)) e e' \<Longrightarrow> i \<noteq> j \<Longrightarrow> app_ok e i a \<Longrightarrow> app_ok e' i a"
  by (auto simp: app_ok_def logs_transitions dest: logs_env_le intro: issued_id_mono)

lemma app_ok_transition:
  assumes "app_ok e i a" and "logs (Some (i, app_State a, s)) e e'"
    and "CanTransition (app_State a) s"
    and "app_State a' = s" and "app_ID a' = app_ID a" and "app_UserID a' = app_UserID a"
    and "dates_ok a'"
  shows "app_ok e' i a'"
  using assms logs_transitions [OF assms(2)] CanTransition_known [OF assms(3)]
    issued_id_mono [OF logs_env_le [OF assms(2)]]
  by (auto simp: app_ok_def replay_append)

lemma dates_ok_transition:
  "dates_ok a \<Longrightarrow> CanTransition (app_State a) s \<Longrightarrow> s \<noteq> StateStarted \<Longrightarrow> dates_ok (transition_app t s a)"
  using CanTransition_dom [of "app_State a" s]
  by (auto simp: dates_ok_def transition_app_def Let_def IsTerminal_iff)

lemma dates_ok_reopen: "dates_ok (reopen_app t a)"
  by (simp add: dates_ok_def reopen_app_def)

lemma transition_app_fields [simp]:
  "app_State (transition_app t s a) = s"
  "app_ID (transition_app t s a) = app_ID a"
  "app_UserID (transition_app t s a) = app_UserID a"
  "app_Version (transition_app t s a) = app_Version a + 1"
  "app_UpdatedAt (transition_app t s a) = t"
  "app_CreatedAt (transition_app t s a) = app_CreatedAt a"
  "app_VendorApplicantID (transition_app t s a) = app_VendorApplicantID a"
  by (simp_all add: transition_app_def Let_def)

lemma reopen_app_fields [simp]:
  "app_State (reopen_app t a) = StateStarted"
  "app_ID (reopen_app t a) = app_ID a"
  "app_UserID (reopen_app t a) = app_UserID a"
  "app_Version (reopen_app t a) = app_Version a + 1"
  "app_UpdatedAt (reopen_app t a) = t"
  by (simp_all add: reopen_app_def)

lemma vendor_app_fields [simp]:
  "app_State (vendor_app t w a) = app_State a"
  "app_ID (vendor_app t w a) = app_ID a"
  "app_UserID (vendor_app t w a) = app_UserID a"
  "app_DecidedAt (vendor_app t w a) = app_DecidedAt a"
  "app_ReKYCDueAt (vendor_app t w a) = app_ReKYCDueAt a"
  "app_CreatedAt (vendor_app t w a) = app_CreatedAt a"
  "app_Version (vendor_app t w a) = app_Version a + 1"
  "app_VendorApplicantID (vendor_app t w a) = w"
  by (simp_all add: vendor_app_def)

lemma Create_fill_fields [simp]:
  "app_ID (Create_fill t a) = app_ID a"
  "app_UserID (Create_fill t a) = app_UserID a"
  "app_DecidedAt (Create_fill t a) = app_DecidedAt a"
  "app_ReKYCDueAt (Create_fill t a) = app_ReKYCDueAt a"
  "app_State (Create_fill t a) = (if app_State a = '''' then StateStarted else app_State a)"
  "app_Version (Create_fill t a) = (if app_Version a = 0 then 1 else app_Version a)"
  by (simp_all add: Create_fill_def)

lemma app_ok_vendor: "app_ok e i (vendor_app t w a) \<longleftrightarrow> app_ok e i a"
  by (simp add: app_ok_def dates_ok_def)

lemma app_ok_create:
  assumes "blank_app a" and "logs None e e'" and "app_ID a = uuids e k" and "k < issued e'"
    and "transitions_of (app_ID a) (audit_events e) = []"
  shows "app_ok e' (app_ID a) (Create_fill t a)"
proof -
  have "uuids e' = uuids e" using assms(2) by (simp add: logs_def env_le_def)
  then have "issued_id e' (app_ID a)" using assms by (auto simp: issued_id_def)
  moreover have "app_State (Create_fill t a) = StateStarted"
    using assms(1) by (auto simp: blank_app_def)
  ultimately show ?thesis
    using assms by (simp add: app_ok_def blank_app_def dates_ok_def logs_transitions
        known_state_iff)
qed

lemma forget_user_Some:
  "forget_user u v i = Some a \<longleftrightarrow> v i = Some a \<and> app_UserID a \<noteq> u"
  by (auto simp: forget_user_def split: option.splits)

lemma app_inv_logs:
  assumes "app_inv (v, e)" and "logs tr e e'"
    and "\<And>i f t. tr = Some (i, f, t) \<Longrightarrow> issued_id e i"
  shows "transitions_of j (audit_events e') \<noteq> [] \<Longrightarrow> issued_id e' j"
proof -
  assume ne: "transitions_of j (audit_events e') \<noteq> []"
  have "transitions_of j (audit_events e) \<noteq> [] \<or> transition_entry j tr \<noteq> []"
    using ne logs_transitions [OF assms(2), of j] by auto
  then have "issued_id e j"
  proof
    assume "transitions_of j (audit_events e) \<noteq> []"
    then show ?thesis using assms(1) by (simp add: app_inv_def)
  next
    assume "transition_entry j tr \<noteq> []"
    then show ?thesis
      using assms(3) by (cases tr) (auto split: if_splits)
  qed
  then show ?thesis by (rule issued_id_mono [OF logs_env_le [OF assms(2)]])
qed

text \<open>Every step keeps the invariant, if the supply of identifiers never repeats one.\<close>

lemma app_step_inv:
  assumes "app_step x y" and "app_inv x" and "inj (uuids (snd x))"
  shows "app_inv y"
  using assms
proof (induction rule: app_step.induct)
  case (create a v e k e' t)
  have fresh: "transitions_of (app_ID a) (audit_events e) = []"
    using create issued_id_fresh [of e k] by (auto simp: app_inv_def)
  have new: "app_ok e' (app_ID a) (Create_fill t a)"
    using create fresh by (intro app_ok_create) auto
  have trs: "transitions_of i (audit_events e') \<noteq> [] \<Longrightarrow> issued_id e' i" for i
    using app_inv_logs [OF create.prems(1) create(8)] by simp
  show ?case
    using create.prems(1) new trs app_ok_quiet [OF create(8)]
    by (auto simp: app_inv_def forget_user_Some)
next
  case (purge u v e e')
  have trs: "transitions_of i (audit_events e') \<noteq> [] \<Longrightarrow> issued_id e' i" for i
    using app_inv_logs [OF purge.prems(1) purge(2)] by simp
  show ?case
    using purge.prems(1) trs app_ok_quiet [OF purge(2)]
    by (auto simp: app_inv_def forget_user_Some)
next
  case (update v i a s t e e')
  have ok: "app_ok e i a" using update by (auto intro: app_invD)
  then have new: "app_ok e' i (transition_app t s a)"
    using update by (intro app_ok_transition [OF ok]) (auto simp: app_ok_def dates_ok_transition)
  have trs: "transitions_of j (audit_events e') \<noteq> [] \<Longrightarrow> issued_id e' j" for j
    using app_inv_logs [OF update.prems(1) update(5)] ok by (auto simp: app_ok_def)
  show ?case
    using update.prems(1) update(1) new trs app_ok_other [OF update(5)]
    by (auto simp: app_inv_def)
next
  case (reopen v i a t e e')
  have ok: "app_ok e i a" using reopen by (auto intro: app_invD)
  have legal: "CanTransition (app_State a) StateStarted"
    using reopen(2) by (auto simp: IsTerminal_iff)
  have new: "app_ok e' i (reopen_app t a)"
    using app_ok_transition [OF ok reopen(4) legal] by (simp add: dates_ok_reopen)
  have trs: "transitions_of j (audit_events e') \<noteq> [] \<Longrightarrow> issued_id e' j" for j
    using app_inv_logs [OF reopen.prems(1) reopen(4)] ok by (auto simp: app_ok_def)
  show ?case
    using reopen.prems(1) reopen(1) new trs app_ok_other [OF reopen(4)]
    by (auto simp: app_inv_def)
next
  case (vendor v i a e e' t w)
  have trs: "transitions_of j (audit_events e') \<noteq> [] \<Longrightarrow> issued_id e' j" for j
    using app_inv_logs [OF vendor.prems(1) vendor(2)] by simp
  show ?case
    using vendor.prems(1) vendor(1) trs app_ok_quiet [OF vendor(2)]
    by (auto simp: app_inv_def app_ok_vendor)
next
  case (observe e e' v)
  have trs: "transitions_of j (audit_events e') \<noteq> [] \<Longrightarrow> issued_id e' j" for j
    using app_inv_logs [OF observe.prems(1) observe(1)] by simp
  show ?case
    using observe.prems(1) trs app_ok_quiet [OF observe(1)] by (auto simp: app_inv_def)
qed

lemma app_steps_inv:
  assumes "app_steps x y" and "app_inv x" and "inj (uuids (snd x))"
  shows "app_inv y"
  using assms
proof (induction rule: rtranclp_induct)
  case base
  then show ?case by simp
next
  case (step y z)
  have "uuids (snd y) = uuids (snd x)"
    using app_steps_env_le [OF step(1)] by (simp add: env_le_def)
  with step show ?case by (auto intro: app_step_inv [of y z])
qed

text \<open>
  What the invariant needs of the store and of the environment: \<open>good\<close> is the representation
  invariant of the store, and \<open>google/uuid\<close> promises that identifiers are not empty and never repeat.
\<close>

definition repo_ok :: "('r \<Rightarrow> view) \<Rightarrow> ('r \<Rightarrow> bool) \<Rightarrow> 'r \<times> 'e AuditEnv_scheme \<Rightarrow> bool" where
  "repo_ok view_of good = (\<lambda>(r, e).
     good r \<and> app_inv (view_of r, e) \<and> inj (uuids e) \<and> (\<forall>k. uuids e k \<noteq> ''''))"

lemma repo_ok_steps:
  assumes "repo_ok view_of good (r, e)" and "good r'" and "app_steps (view_of r, e) (view_of r', e')"
  shows "repo_ok view_of good (r', e')"
proof -
  have "app_inv (view_of r', e')" using app_steps_inv [OF assms(3)] assms(1) by (simp add: repo_ok_def)
  moreover have "uuids e' = uuids e" using app_steps_env_le [OF assms(3)] by (simp add: env_le_def)
  ultimately show ?thesis using assms(1,2) by (simp add: repo_ok_def)
qed

section \<open>What clients call\<close>

text \<open>The application \<open>createApplicationHandler\<close> hands to \<open>Create\<close>, under an identifier it has just drawn.\<close>

definition draft :: "Application \<Rightarrow> bool" where
  "draft a \<longleftrightarrow> app_State a = StateStarted \<and> app_DecidedAt a = 0 \<and> app_ReKYCDueAt a = 0 \<and>
     app_Version a = 0 \<and> app_UserID a \<noteq> ''''"

text \<open>
  One call of the interface, or a change of the environment alone that records no transition. No
  client asks for a transition to \<open>STARTED\<close>.
\<close>

inductive repo_call ::
  "('r, 'e AuditEnv_scheme) ApplicationRepo \<Rightarrow> 'r \<times> 'e AuditEnv_scheme \<Rightarrow> 'r \<times> 'e AuditEnv_scheme \<Rightarrow> bool"
  for R where
  quiet: "logs None e e' \<Longrightarrow> repo_call R (r, e) (r, e')"
| get: "repo_call R s (snd (repo_Get R i s))"
| get_user: "repo_call R s (snd (repo_GetByUserID R u s))"
| list_due: "repo_call R s (snd (repo_ListDueForReKYC R order now s))"
| update: "st \<noteq> StateStarted \<Longrightarrow> repo_call R s (snd (repo_UpdateState R i n st actor reason s))"
| reopen: "repo_call R s (snd (repo_Reopen R i n actor s))"
| vendor: "repo_call R s (repo_SetVendorApplicantID R i w s)"
| create: "newUUID e = (app_ID a, e1) \<Longrightarrow> draft a \<Longrightarrow> repo_call R (r, e) (snd (repo_Create R a (r, e1)))"

abbreviation repo_calls ::
  "('r, 'e AuditEnv_scheme) ApplicationRepo \<Rightarrow> 'r \<times> 'e AuditEnv_scheme \<Rightarrow> 'r \<times> 'e AuditEnv_scheme \<Rightarrow> bool" where
  "repo_calls R \<equiv> (repo_call R)\<^sup>*\<^sup>*"

lemma repo_calls_trans: "repo_calls R x y \<Longrightarrow> repo_calls R y z \<Longrightarrow> repo_calls R x z"
  by (rule rtranclp_trans)

lemma repo_calls_quiet: "logs None e e' \<Longrightarrow> repo_calls R (r, e) (r, e')"
  by (intro r_into_rtranclp repo_call.quiet)

text \<open>A call whose result is known, as the next of a run.\<close>

lemma repo_calls_get: "repo_Get R i s = (res, s') \<Longrightarrow> repo_calls R s s'"
  by (metis repo_call.get r_into_rtranclp snd_conv)

lemma repo_calls_update:
  "repo_UpdateState R i n st actor reason s = (res, s') \<Longrightarrow> st \<noteq> StateStarted \<Longrightarrow> repo_calls R s s'"
  by (metis repo_call.update r_into_rtranclp snd_conv)

lemma repo_calls_reopen: "repo_Reopen R i n actor s = (res, s') \<Longrightarrow> repo_calls R s s'"
  by (metis repo_call.reopen r_into_rtranclp snd_conv)

lemma repo_calls_list_due: "repo_ListDueForReKYC R order now s = (ds, s') \<Longrightarrow> repo_calls R s s'"
  by (metis repo_call.list_due r_into_rtranclp snd_conv)

section \<open>The laws of the interface\<close>

text \<open>
  \<open>view_of\<close> is the abstraction of the store, \<open>good\<close> its representation invariant. A failing
  operation may return any error; what it must not do is change the view, except that a failed
  \<open>Create\<close> may already have removed the user's decided application.
\<close>

locale application_repo =
  fixes R :: "('r, 'x AuditEnv_scheme) ApplicationRepo"
    and view_of :: "'r \<Rightarrow> view"
    and good :: "'r \<Rightarrow> bool"
  assumes get_law:
    "good r \<Longrightarrow> repo_Get R i (r, e) = (res, r', e') \<Longrightarrow>
       good r' \<and> view_of r' = view_of r \<and> e' = e \<and> (\<forall>a. res = Inr a \<longrightarrow> view_of r i = Some a)"
    and getuser_law:
    "good r \<Longrightarrow> repo_GetByUserID R u (r, e) = (res, r', e') \<Longrightarrow>
       good r' \<and> view_of r' = view_of r \<and> e' = e \<and>
       (\<forall>a. res = Inr a \<longrightarrow> view_of r (app_ID a) = Some a \<and> app_UserID a = u)"
    and view_id: "good r \<Longrightarrow> view_of r i = Some a \<Longrightarrow> app_ID a = i"
    and create_ok:
    "good r \<Longrightarrow> repo_Create R a (r, e) = ((None, a'), r', e') \<Longrightarrow> view_of r (app_ID a) = None \<Longrightarrow>
       good r' \<and> logs None e e' \<and> app_ID a \<noteq> '''' \<and> app_UserID a \<noteq> '''' \<and>
       all_terminal (app_UserID a) (view_of r) \<and>
       (\<exists>t \<in> range (clock e). a' = Create_fill t a \<and>
          view_of r' = (forget_user (app_UserID a) (view_of r))(app_ID a \<mapsto> a'))"
    and create_err:
    "good r \<Longrightarrow> repo_Create R a (r, e) = ((Some err, a'), r', e') \<Longrightarrow>
       view_of r (app_ID a) = None \<Longrightarrow> app_ID a \<noteq> '''' \<Longrightarrow>
       good r' \<and> logs None e e' \<and>
       (view_of r' = view_of r \<or>
        all_terminal (app_UserID a) (view_of r) \<and>
        view_of r' = forget_user (app_UserID a) (view_of r))"
    and update_ok:
    "good r \<Longrightarrow> repo_UpdateState R i n s actor reason (r, e) = (Inr a', r', e') \<Longrightarrow>
       good r' \<and> (\<exists>a. \<exists>t \<in> range (clock e). view_of r i = Some a \<and> app_Version a = n \<and>
         CanTransition (app_State a) s \<and> a' = transition_app t s a \<and>
         view_of r' = (view_of r)(i \<mapsto> a') \<and> logs (Some (i, app_State a, s)) e e')"
    and update_err:
    "good r \<Longrightarrow> repo_UpdateState R i n s actor reason (r, e) = (Inl err, r', e') \<Longrightarrow>
       good r' \<and> view_of r' = view_of r \<and> logs None e e'"
    and reopen_ok:
    "good r \<Longrightarrow> repo_Reopen R i n actor (r, e) = (Inr a', r', e') \<Longrightarrow>
       good r' \<and> (\<exists>a. \<exists>t \<in> range (clock e). view_of r i = Some a \<and> app_Version a = n \<and>
         IsTerminal (app_State a) \<and> a' = reopen_app t a \<and>
         view_of r' = (view_of r)(i \<mapsto> a') \<and> logs (Some (i, app_State a, StateStarted)) e e')"
    and reopen_err:
    "good r \<Longrightarrow> repo_Reopen R i n actor (r, e) = (Inl err, r', e') \<Longrightarrow>
       good r' \<and> view_of r' = view_of r \<and> logs None e e'"
    and vendor_law:
    "good r \<Longrightarrow> repo_SetVendorApplicantID R i w (r, e) = (r', e') \<Longrightarrow>
       good r' \<and> logs None e e' \<and>
       (view_of r' = view_of r \<or>
        (\<exists>a t. view_of r i = Some a \<and> view_of r' = (view_of r)(i \<mapsto> vendor_app t w a)))"
    and list_due_law:
    "good r \<Longrightarrow> repo_ListDueForReKYC R order now (r, e) = (ds, r', e') \<Longrightarrow>
       good r' \<and> view_of r' = view_of r \<and> e' = e \<and>
       (\<forall>d \<in> set ds. \<exists>a. view_of r (due_ID d) = Some a \<and> app_Version a = due_Version d \<and> is_due now a)"
begin

text \<open>Each operation is a run of the abstract system.\<close>

lemma update_steps:
  assumes "good r" and "repo_UpdateState R i n s actor reason (r, e) = (res, r', e')"
    and "s \<noteq> StateStarted"
  shows "good r' \<and> app_steps (view_of r, e) (view_of r', e')"
proof (cases res)
  case (Inl err)
  with assms update_err [of r i n s actor reason e err r' e'] show ?thesis
    by (auto intro: app_steps_observe)
next
  case (Inr a')
  with assms update_ok [of r i n s actor reason e a' r' e'] show ?thesis
    by (auto intro!: r_into_rtranclp app_step.update)
qed

lemma reopen_steps:
  assumes "good r" and "repo_Reopen R i n actor (r, e) = (res, r', e')"
  shows "good r' \<and> app_steps (view_of r, e) (view_of r', e')"
proof (cases res)
  case (Inl err)
  with assms reopen_err [of r i n actor e err r' e'] show ?thesis
    by (auto intro: app_steps_observe)
next
  case (Inr a')
  with assms reopen_ok [of r i n actor e a' r' e'] show ?thesis
    by (auto intro!: r_into_rtranclp app_step.reopen)
qed

lemma vendor_steps:
  assumes "good r" and "repo_SetVendorApplicantID R i w (r, e) = (r', e')"
  shows "good r' \<and> app_steps (view_of r, e) (view_of r', e')"
proof -
  have law: "good r' \<and> logs None e e' \<and> (view_of r' = view_of r \<or>
      (\<exists>a t. view_of r i = Some a \<and> view_of r' = (view_of r)(i \<mapsto> vendor_app t w a)))"
    using assms by (rule vendor_law)
  then show ?thesis
    by (auto intro!: r_into_rtranclp intro: app_step.vendor app_step.observe)
qed

text \<open>
  Creation starts with drawing the identifier: \<open>e\<close> is the world before \<open>newUUID\<close>.
\<close>

lemma create_steps:
  assumes "good r" and "newUUID e = (app_ID a, e1)" and "blank_app a"
    and "view_of r (app_ID a) = None" and "repo_Create R a (r, e1) = ((res, a'), r', e')"
  shows "good r' \<and> app_steps (view_of r, e) (view_of r', e')"
proof -
  have e1: "e1 = e\<lparr>issued := Suc (issued e)\<rparr>" "app_ID a = uuids e (issued e)"
    using assms(2) by (auto simp: newUUID_def)
  then have q: "logs None e e1" by simp
  show ?thesis
  proof (cases res)
    case None
    obtain t where law: "good r'" "logs None e1 e'" "all_terminal (app_UserID a) (view_of r)"
      "t \<in> range (clock e1)" "a' = Create_fill t a"
      "view_of r' = (forget_user (app_UserID a) (view_of r))(app_ID a \<mapsto> a')"
      using create_ok [OF assms(1) assms(5) [unfolded None] assms(4)] by blast
    have le: "env_le e1 e'" using law(2) by (rule logs_env_le)
    have "app_step (view_of r, e)
        ((forget_user (app_UserID a) (view_of r))(app_ID a \<mapsto> Create_fill t a), e')"
      using law le e1 assms(3,4)
      by (intro app_step.create [of _ _ _ "issued e"] logs_trans_quiet [OF q])
         (auto simp: env_le_def)
    with law show ?thesis by auto
  next
    case (Some err)
    have law: "good r'" "logs None e1 e'"
      "view_of r' = view_of r \<or> all_terminal (app_UserID a) (view_of r) \<and>
         view_of r' = forget_user (app_UserID a) (view_of r)"
      using create_err [OF assms(1) assms(5) [unfolded Some] assms(4)] assms(3)
      by (auto simp: blank_app_def)
    from q law(2) have "logs None e e'" by (rule logs_trans_quiet)
    with law show ?thesis
      by (auto intro!: r_into_rtranclp intro: app_step.purge app_step.observe)
  qed
qed

text \<open>So is every run of calls, from a state that meets the invariant.\<close>

lemma call_steps:
  assumes "repo_call R x y" and "repo_ok view_of good x"
  shows "good (fst y) \<and> app_steps (view_of (fst x), snd x) (view_of (fst y), snd y)"
  using assms
proof (induction rule: repo_call.induct)
  case (quiet e e' r)
  then show ?case by (simp add: repo_ok_def app_steps_observe)
next
  case (get s i)
  obtain res r' e' where "repo_Get R i (fst s, snd s) = (res, r', e')" by (rule prod_cases3)
  with get_law [OF _ this] get show ?case by (cases s) (simp add: repo_ok_def)
next
  case (get_user s u)
  obtain res r' e' where "repo_GetByUserID R u (fst s, snd s) = (res, r', e')" by (rule prod_cases3)
  with getuser_law [OF _ this] get_user show ?case by (cases s) (simp add: repo_ok_def)
next
  case (list_due s order now)
  obtain ds r' e' where "repo_ListDueForReKYC R order now (fst s, snd s) = (ds, r', e')" by (rule prod_cases3)
  with list_due_law [OF _ this] list_due show ?case by (cases s) (simp add: repo_ok_def)
next
  case (update st s i n actor reason)
  obtain res r' e' where "repo_UpdateState R i n st actor reason (fst s, snd s) = (res, r', e')"
    by (rule prod_cases3)
  with update_steps [OF _ this] update show ?case by (cases s) (simp add: repo_ok_def)
next
  case (reopen s i n actor)
  obtain res r' e' where "repo_Reopen R i n actor (fst s, snd s) = (res, r', e')" by (rule prod_cases3)
  with reopen_steps [OF _ this] reopen show ?case by (cases s) (simp add: repo_ok_def)
next
  case (vendor s i w)
  obtain r' e' where "repo_SetVendorApplicantID R i w (fst s, snd s) = (r', e')" by fastforce
  with vendor_steps [OF _ this] vendor show ?case by (cases s) (simp add: repo_ok_def)
next
  case (create e a e1 r)
  have uid: "app_ID a = uuids e (issued e)" using create(1) by (auto simp: newUUID_def)
  have "blank_app a" using create uid by (auto simp: blank_app_def draft_def repo_ok_def)
  moreover have "view_of r (app_ID a) = None"
  proof (rule ccontr)
    assume "view_of r (app_ID a) \<noteq> None"
    then obtain b where "view_of r (app_ID a) = Some b" by auto
    with create(3) have "issued_id e (app_ID a)" by (auto simp: repo_ok_def app_ok_def dest: app_invD)
    with create(3) uid issued_id_fresh [of e "issued e"] show False by (auto simp: repo_ok_def)
  qed
  moreover obtain x a' r' e' where cr: "repo_Create R a (r, e1) = ((x, a'), r', e')" by (metis prod.collapse)
  ultimately have "good r' \<and> app_steps (view_of r, e) (view_of r', e')"
    using create_steps [OF _ create(1)] create(3) by (auto simp: repo_ok_def)
  with cr show ?case by simp
qed

lemma calls_steps:
  assumes "repo_calls R x y" and "repo_ok view_of good x"
  shows "repo_ok view_of good y \<and> app_steps (view_of (fst x), snd x) (view_of (fst y), snd y)"
  using assms
proof (induction rule: rtranclp_induct)
  case (step y z)
  then have ok: "repo_ok view_of good y" and st: "app_steps (view_of (fst x), snd x) (view_of (fst y), snd y)"
    by simp_all
  note c = call_steps [OF step(2) ok]
  then have "repo_ok view_of good (fst z, snd z)" using repo_ok_steps [of view_of good "fst y" "snd y" "fst z" "snd z"] ok by simp
  with c st show ?case by (auto intro: app_steps_trans)
qed simp

end

text \<open>
  A store that does not fail: operations succeed when the laws allow it, and a rejected
  \<open>Create\<close> with a fresh identifier leaves everything as it was. \<open>keys\<close> are the orders in which
  the store may enumerate its applications.
\<close>

locale reliable_repo = application_repo R view_of good
  for R :: "('r, 'x AuditEnv_scheme) ApplicationRepo" and view_of :: "'r \<Rightarrow> view"
    and good :: "'r \<Rightarrow> bool" +
  fixes keys :: "'r \<Rightarrow> string list \<Rightarrow> bool"
  assumes get_complete:
    "good r \<Longrightarrow> view_of r i = Some a \<Longrightarrow> \<exists>r'. repo_Get R i (r, e) = (Inr a, r', e)"
    and get_missing:
    "good r \<Longrightarrow> view_of r i = None \<Longrightarrow> 
       \<exists>err r'. repo_Get R i (r, e) = (Inl err, r', e) \<and> errors_Is err ErrNotFound"
    and getuser_complete:
    "good r \<Longrightarrow> view_of r i = Some a \<Longrightarrow> \<exists>r'. repo_GetByUserID R (app_UserID a) (r, e) = (Inr a, r', e)"
    and create_accepts:
    "good r \<Longrightarrow> view_of r (app_ID a) = None \<Longrightarrow> app_ID a \<noteq> '''' \<Longrightarrow> app_UserID a \<noteq> '''' \<Longrightarrow>
       all_terminal (app_UserID a) (view_of r) \<Longrightarrow> \<exists>a' s'. repo_Create R a (r, e) = ((None, a'), s')"
    and create_rejects:
    "good r \<Longrightarrow> view_of r (app_ID a) = None \<Longrightarrow> app_ID a \<noteq> '''' \<Longrightarrow> app_UserID a \<noteq> '''' \<Longrightarrow>
       \<not> all_terminal (app_UserID a) (view_of r) \<Longrightarrow>
       \<exists>err. repo_Create R a (r, e) = ((Some err, a), r, e) \<and> errors_Is err ErrDuplicate"
    and update_accepts:
    "good r \<Longrightarrow> view_of r i = Some a \<Longrightarrow> CanTransition (app_State a) s \<Longrightarrow>
       \<exists>a' s'. repo_UpdateState R i (app_Version a) s actor reason (r, e) = (Inr a', s')"
    and update_conflict:
    "good r \<Longrightarrow> view_of r i = Some a \<Longrightarrow> app_Version a \<noteq> n \<Longrightarrow>
       \<exists>err. repo_UpdateState R i n s actor reason (r, e) = (Inl err, r, e) \<and> errors_Is err ErrConflict"
    and reopen_accepts:
    "good r \<Longrightarrow> view_of r i = Some a \<Longrightarrow> IsTerminal (app_State a) \<Longrightarrow>
       \<exists>a' s'. repo_Reopen R i (app_Version a) actor (r, e) = (Inr a', s')"
    and list_due_complete:
    "good r \<Longrightarrow> keys r order \<Longrightarrow> view_of r i = Some a \<Longrightarrow> is_due now a \<Longrightarrow>
       \<lparr>due_ID = i, due_Version = app_Version a\<rparr> \<in> set (fst (repo_ListDueForReKYC R order now (r, e)))"
    and list_due_distinct:
    "good r \<Longrightarrow> keys r order \<Longrightarrow> distinct (map due_ID (fst (repo_ListDueForReKYC R order now (r, e))))"
begin

lemma update_exact:
  assumes "good r" and "view_of r i = Some a" and "CanTransition (app_State a) s"
  obtains t r' e' where "t \<in> range (clock e)"
    and "repo_UpdateState R i (app_Version a) s actor reason (r, e) = (Inr (transition_app t s a), r', e')"
    and "view_of r' = (view_of r)(i \<mapsto> transition_app t s a)" and "good r'"
    and "logs (Some (i, app_State a, s)) e e'"
proof -
  obtain a' s' where acc: "repo_UpdateState R i (app_Version a) s actor reason (r, e) = (Inr a', s')"
    using update_accepts [OF assms] by blast
  then obtain r' e' where acc': "repo_UpdateState R i (app_Version a) s actor reason (r, e) = (Inr a', r', e')"
    by (cases s') auto
  from update_ok [OF assms(1) acc'] assms(2) acc' show ?thesis
    by (auto intro: that)
qed

lemma reopen_exact:
  assumes "good r" and "view_of r i = Some a" and "IsTerminal (app_State a)"
  obtains t r' e' where "t \<in> range (clock e)"
    and "repo_Reopen R i (app_Version a) actor (r, e) = (Inr (reopen_app t a), r', e')"
    and "view_of r' = (view_of r)(i \<mapsto> reopen_app t a)" and "good r'"
    and "logs (Some (i, app_State a, StateStarted)) e e'"
proof -
  obtain a' s' where acc: "repo_Reopen R i (app_Version a) actor (r, e) = (Inr a', s')"
    using reopen_accepts [OF assms] by blast
  then obtain r' e' where acc': "repo_Reopen R i (app_Version a) actor (r, e) = (Inr a', r', e')"
    by (cases s') auto
  from reopen_ok [OF assms(1) acc'] assms(2) acc' show ?thesis
    by (auto intro: that)
qed

end

end
