(* ===== verification/MemRepo.thy ===== *)
theory MemRepo
  imports RepoContract
begin

text \<open>
  The in-memory \<open>ApplicationRepository\<close> meets the contract of \<open>ApplicationRepo\<close>, over any sink
  that feeds the audit log; its representation invariant; and what optimistic concurrency on
  the version field gives when operations of several callers interleave.
\<close>

section \<open>The representation invariant\<close>

text \<open>
  Applications are filed under their own identifier, and \<open>byUser\<close> maps exactly the users that
  have an application to it; so no user has two.
\<close>

definition repo_inv :: "ApplicationRepository \<Rightarrow> bool" where
  "repo_inv r \<longleftrightarrow>
     (\<forall>i a. apps r i = Some a \<longrightarrow>
        app_ID a = i \<and> app_UserID a \<noteq> '''' \<and> byUser r (app_UserID a) = Some i) \<and>
     (\<forall>u i. byUser r u = Some i \<longrightarrow> (\<exists>a. apps r i = Some a \<and> app_UserID a = u))"

lemma repo_inv_app:
  "repo_inv r \<Longrightarrow> apps r i = Some a \<Longrightarrow>
     app_ID a = i \<and> app_UserID a \<noteq> '''' \<and> byUser r (app_UserID a) = Some i"
  by (auto simp: repo_inv_def)

lemma repo_inv_user:
  "repo_inv r \<Longrightarrow> byUser r u = Some i \<Longrightarrow> \<exists>a. apps r i = Some a \<and> app_UserID a = u"
  by (auto simp: repo_inv_def)

lemma repo_inv_new: "repo_inv NewApplicationRepository"
  by (simp add: repo_inv_def NewApplicationRepository_def)

lemma repo_inv_set:
  assumes "repo_inv r" and "apps r i = Some a" and "app_ID a' = app_ID a"
    and "app_UserID a' = app_UserID a"
  shows "repo_inv (r\<lparr>apps := (apps r)(i \<mapsto> a')\<rparr>)"
proof -
  have user: "app_UserID a = u" if "byUser r u = Some i" for u
    using assms(2) repo_inv_user [OF assms(1) that] by auto
  show ?thesis
    using assms(2-4) repo_inv_app [OF assms(1)] repo_inv_user [OF assms(1)] user
    by (simp add: repo_inv_def)
qed

lemma repo_inv_lookup:
  assumes "repo_inv r" and "apps r i = Some a"
  shows "app_ID a = i \<and> app_UserID a \<noteq> '''' \<and> GetByUserID (app_UserID a) r = Inr a \<and>
    (\<forall>j b. apps r j = Some b \<and> app_UserID b = app_UserID a \<longrightarrow> j = i)"
proof -
  have a: "app_ID a = i" "app_UserID a \<noteq> ''''" "byUser r (app_UserID a) = Some i"
    using repo_inv_app [OF assms] by auto
  have "j = i" if "apps r j = Some b" "app_UserID b = app_UserID a" for j b
    using repo_inv_app [OF assms(1) that(1)] that(2) a(3) by simp
  moreover have "GetByUserID (app_UserID a) r = Inr a" using a(3) assms(2) by (simp add: GetByUserID_def)
  ultimately show ?thesis using a by blast
qed

text \<open>What the look-up in \<open>Create\<close> leaves.\<close>

lemma Create_admit_cases:
  assumes "repo_inv r"
  shows "(all_terminal (app_UserID app) (apps r) \<and>
           Create_admit app r = Inr (r\<lparr>apps := forget_user (app_UserID app) (apps r)\<rparr>)) \<or>
         (\<not> all_terminal (app_UserID app) (apps r) \<and>
           (\<exists>err. Create_admit app r = Inl err \<and> errors_Is err ErrDuplicate))"
proof (cases "byUser r (app_UserID app)")
  case None
  have "forget_user (app_UserID app) (apps r) i = apps r i" for i
    using None assms by (auto simp: forget_user_def split: option.splits dest: repo_inv_app)
  then have "forget_user (app_UserID app) (apps r) = apps r" by (rule ext)
  moreover have "all_terminal (app_UserID app) (apps r)"
    using None assms by (auto simp: all_terminal_def dest: repo_inv_app)
  ultimately show ?thesis using None by (simp add: Create_admit_def)
next
  case (Some i)
  then obtain ex where ex: "apps r i = Some ex" "app_UserID ex = app_UserID app"
    using assms by (auto dest: repo_inv_user)
  have only: "\<And>j b. apps r j = Some b \<Longrightarrow> app_UserID b = app_UserID app \<Longrightarrow> j = i"
    using Some assms by (auto dest: repo_inv_app)
  have "forget_user (app_UserID app) (apps r) j = ((apps r)(i := None)) j" for j
    using ex only [of j] by (cases "apps r j") (auto simp: forget_user_def)
  then have "forget_user (app_UserID app) (apps r) = (apps r)(i := None)" by (rule ext)
  moreover have "all_terminal (app_UserID app) (apps r) \<longleftrightarrow> IsTerminal (app_State ex)"
    using ex only by (auto simp: all_terminal_def)
  ultimately show ?thesis
    using Some ex by (simp add: Create_admit_def)
qed

lemma repo_inv_create:
  assumes "repo_inv r" and "apps r (app_ID a) = None" and "app_UserID a \<noteq> ''''"
  shows "repo_inv (r\<lparr>apps := (forget_user (app_UserID a) (apps r))(app_ID a \<mapsto> Create_fill t a),
                    byUser := (byUser r)(app_UserID a \<mapsto> app_ID a)\<rparr>)"
proof -
  note app = repo_inv_app [OF assms(1)] and user = repo_inv_user [OF assms(1)]
  have "apps r i = Some b \<Longrightarrow> byUser r u = Some i \<Longrightarrow> app_UserID b = u" for i b u
    using user by fastforce
  then show ?thesis
    using assms(2,3) app user
    by (simp add: repo_inv_def forget_user_Some) (metis option.distinct(1) option.inject)
qed

text \<open>\<open>Create\<close> with an identifier that is not in use.\<close>

lemma Create_fresh:
  assumes "repo_inv r" and "apps r (app_ID a) = None" and "app_ID a \<noteq> ''''" and "app_UserID a \<noteq> ''''"
  shows "if all_terminal (app_UserID a) (apps r)
    then Create a (r, e) =
      ((None, Create_fill (clock e (ticks e)) a),
       r\<lparr>apps := (forget_user (app_UserID a) (apps r))(app_ID a \<mapsto> Create_fill (clock e (ticks e)) a),
         byUser := (byUser r)(app_UserID a \<mapsto> app_ID a)\<rparr>, e\<lparr>ticks := Suc (ticks e)\<rparr>)
    else \<exists>err. Create a (r, e) = ((Some err, a), r, e) \<and> errors_Is err ErrDuplicate"
proof -
  have "forget_user (app_UserID a) (apps r) (app_ID a) = None"
    using assms(2) by (simp add: forget_user_def)
  then show ?thesis
    using assms Create_admit_cases [OF assms(1), of a]
    by (auto simp: Create_def time_Now_def Let_def)
qed

section \<open>The contract\<close>

lemma UpdateState_cases:
  assumes "UpdateState sink i n s actor reason (r, e) = (res, r', e')"
  shows "(\<exists>err. res = Inl err \<and> r' = r \<and> e' = e \<and>
            (apps r i = None \<and> errors_Is err ErrNotFound \<or>
             (\<exists>a. apps r i = Some a \<and> app_Version a \<noteq> n \<and> errors_Is err ErrConflict) \<or>
             (\<exists>a. apps r i = Some a \<and> app_Version a = n \<and> \<not> CanTransition (app_State a) s \<and>
                  errors_Is err ErrIllegalTransition))) \<or>
         (\<exists>a. apps r i = Some a \<and> app_Version a = n \<and> CanTransition (app_State a) s \<and>
            res = Inr (transition_app (clock e (ticks e)) s a) \<and>
            r' = r\<lparr>apps := (apps r)(i \<mapsto> transition_app (clock e (ticks e)) s a)\<rparr> \<and>
            e' = sink i (app_State a) s actor reason (e\<lparr>ticks := Suc (ticks e)\<rparr>))"
  using assms
  by (auto simp: UpdateState_def time_Now_def Let_def split: option.splits if_splits
      dest: ValidateTransition_Some)

lemma Reopen_cases:
  assumes "Reopen sink i n actor (r, e) = (res, r', e')"
  shows "(\<exists>err. res = Inl err \<and> r' = r \<and> e' = e \<and>
            (apps r i = None \<and> errors_Is err ErrNotFound \<or>
             (\<exists>a. apps r i = Some a \<and> app_Version a \<noteq> n \<and> errors_Is err ErrConflict) \<or>
             (\<exists>a. apps r i = Some a \<and> app_Version a = n \<and> \<not> IsTerminal (app_State a) \<and>
                  errors_Is err ErrReKYCNotTerminal))) \<or>
         (\<exists>a. apps r i = Some a \<and> app_Version a = n \<and> IsTerminal (app_State a) \<and>
            res = Inr (reopen_app (clock e (ticks e)) a) \<and>
            r' = r\<lparr>apps := (apps r)(i \<mapsto> reopen_app (clock e (ticks e)) a)\<rparr> \<and>
            e' = sink i (app_State a) StateStarted actor ''re-kyc'' (e\<lparr>ticks := Suc (ticks e)\<rparr>))"
  using assms
  by (auto simp: Reopen_def time_Now_def Let_def split: option.splits if_splits)

lemma SetVendorApplicantID_cases:
  "SetVendorApplicantID i w (r, e) =
     (case apps r i of
        None \<Rightarrow> (r, e)
      | Some a \<Rightarrow> (r\<lparr>apps := (apps r)(i \<mapsto> vendor_app (clock e (ticks e)) w a)\<rparr>,
                  e\<lparr>ticks := Suc (ticks e)\<rparr>))"
  by (simp add: SetVendorApplicantID_def time_Now_def split: option.splits)

lemma ListDueForReKYC_set:
  "d \<in> set (ListDueForReKYC order now r) \<longleftrightarrow>
     (\<exists>i \<in> set order. \<exists>a. apps r i = Some a \<and> is_due now a \<and>
        d = \<lparr>due_ID = app_ID a, due_Version = app_Version a\<rparr>)"
  by (induction order) (auto split: option.splits)

lemma ListDueForReKYC_distinct:
  "repo_inv r \<Longrightarrow> distinct order \<Longrightarrow> distinct (map due_ID (ListDueForReKYC order now r))"
  by (induction order)
     (auto simp: ListDueForReKYC_set split: option.splits, metis repo_inv_app)

sublocale logging_sink \<subseteq> mem: reliable_repo "mem_repo sink" apps repo_inv "\<lambda>r. range_order (apps r)"
proof unfold_locales
  fix r :: ApplicationRepository and a a' :: Application and e e' :: "'x AuditEnv_scheme" and r'
  assume inv: "repo_inv r" and fresh: "apps r (app_ID a) = None"
  {
    assume c: "repo_Create (mem_repo sink) a (r, e) = ((None, a'), r', e')"
    then have ids: "app_ID a \<noteq> ''''" "app_UserID a \<noteq> ''''"
      by (auto simp: Create_def Let_def split: sum.splits if_splits)
    with c Create_fresh [OF inv fresh ids, of e] repo_inv_create [OF inv fresh ids(2)]
    show "repo_inv r' \<and> logs None e e' \<and> app_ID a \<noteq> '''' \<and> app_UserID a \<noteq> '''' \<and>
       all_terminal (app_UserID a) (apps r) \<and>
       (\<exists>t \<in> range (clock e). a' = Create_fill t a \<and>
          apps r' = (forget_user (app_UserID a) (apps r))(app_ID a \<mapsto> a'))"
      by (auto split: if_splits)
  next
    fix err
    assume c: "repo_Create (mem_repo sink) a (r, e) = ((Some err, a'), r', e')" and id: "app_ID a \<noteq> ''''"
    show "repo_inv r' \<and> logs None e e' \<and>
       (apps r' = apps r \<or> all_terminal (app_UserID a) (apps r) \<and>
        apps r' = forget_user (app_UserID a) (apps r))"
    proof (cases "app_UserID a = ''''")
      case True
      with c inv show ?thesis by (auto simp: Create_def)
    next
      case False
      with c Create_fresh [OF inv fresh id False, of e] inv show ?thesis by (auto split: if_splits)
    qed
  next
    assume ids: "app_ID a \<noteq> ''''" "app_UserID a \<noteq> ''''"
    {
      assume "all_terminal (app_UserID a) (apps r)"
      with Create_fresh [OF inv fresh ids, of e]
      show "\<exists>a' s'. repo_Create (mem_repo sink) a (r, e) = ((None, a'), s')" by auto
    next
      assume "\<not> all_terminal (app_UserID a) (apps r)"
      with Create_fresh [OF inv fresh ids, of e]
      show "\<exists>err. repo_Create (mem_repo sink) a (r, e) = ((Some err, a), r, e) \<and> errors_Is err ErrDuplicate"
        by auto
    }
  }
next
  fix r :: ApplicationRepository and e e' :: "'x AuditEnv_scheme" and r' i n s actor reason
  assume inv: "repo_inv r"
  {
    fix a' assume "repo_UpdateState (mem_repo sink) i n s actor reason (r, e) = (Inr a', r', e')"
    with UpdateState_cases [of sink i n s actor reason r e "Inr a'" r' e'] inv
    show "repo_inv r' \<and> (\<exists>a. \<exists>t \<in> range (clock e). apps r i = Some a \<and> app_Version a = n \<and>
         CanTransition (app_State a) s \<and> a' = transition_app t s a \<and>
         apps r' = (apps r)(i \<mapsto> a') \<and> logs (Some (i, app_State a, s)) e e')"
      using sink_logs_after_tick by (auto intro: repo_inv_set)
  next
    fix err assume "repo_UpdateState (mem_repo sink) i n s actor reason (r, e) = (Inl err, r', e')"
    with UpdateState_cases [of sink i n s actor reason r e "Inl err" r' e'] inv
    show "repo_inv r' \<and> apps r' = apps r \<and> logs None e e'" by auto
  next
    fix a' assume "repo_Reopen (mem_repo sink) i n actor (r, e) = (Inr a', r', e')"
    with Reopen_cases [of sink i n actor r e "Inr a'" r' e'] inv
    show "repo_inv r' \<and> (\<exists>a. \<exists>t \<in> range (clock e). apps r i = Some a \<and> app_Version a = n \<and>
         IsTerminal (app_State a) \<and> a' = reopen_app t a \<and>
         apps r' = (apps r)(i \<mapsto> a') \<and> logs (Some (i, app_State a, StateStarted)) e e')"
      using sink_logs_after_tick by (auto intro: repo_inv_set)
  next
    fix err assume "repo_Reopen (mem_repo sink) i n actor (r, e) = (Inl err, r', e')"
    with Reopen_cases [of sink i n actor r e "Inl err" r' e'] inv
    show "repo_inv r' \<and> apps r' = apps r \<and> logs None e e'" by auto
  next
    fix w assume "repo_SetVendorApplicantID (mem_repo sink) i w (r, e) = (r', e')"
    with inv show "repo_inv r' \<and> logs None e e' \<and>
       (apps r' = apps r \<or> (\<exists>a t. apps r i = Some a \<and> apps r' = (apps r)(i \<mapsto> vendor_app t w a)))"
      by (auto simp: SetVendorApplicantID_cases intro: repo_inv_set split: option.splits)
  }
next
  fix r :: ApplicationRepository and e :: "'x AuditEnv_scheme" and a i u
  assume inv: "repo_inv r"
  {
    fix res r' e'
    assume "repo_Get (mem_repo sink) i (r, e) = (res, r', e')"
    with inv show "repo_inv r' \<and> apps r' = apps r \<and> e' = e \<and> (\<forall>a. res = Inr a \<longrightarrow> apps r i = Some a)"
      by (auto simp: Get_def split: option.splits)
  next
    fix res r' e'
    assume g: "repo_GetByUserID (mem_repo sink) u (r, e) = (res, r', e')"
    have "apps r (app_ID a) = Some a \<and> app_UserID a = u" if res: "res = Inr a" for a
    proof -
      obtain i where i: "byUser r u = Some i" "apps r i = Some a"
        using g res by (auto simp: GetByUserID_def split: option.splits)
      with repo_inv_user [OF inv i(1)] repo_inv_app [OF inv i(2)] show ?thesis by simp
    qed
    with g inv show "repo_inv r' \<and> apps r' = apps r \<and> e' = e \<and>
       (\<forall>a. res = Inr a \<longrightarrow> apps r (app_ID a) = Some a \<and> app_UserID a = u)" by simp
  next
    assume a: "apps r i = Some a"
    with inv show "app_ID a = i" by (simp add: repo_inv_app)
    from a show "\<exists>r'. repo_Get (mem_repo sink) i (r, e) = (Inr a, r', e)" by (simp add: Get_def)
    from inv a show "\<exists>r'. repo_GetByUserID (mem_repo sink) (app_UserID a) (r, e) = (Inr a, r', e)"
      by (simp add: GetByUserID_def repo_inv_app)
    fix s actor reason n
    assume "CanTransition (app_State a) s"
    with a show "\<exists>a' s'. repo_UpdateState (mem_repo sink) i (app_Version a) s actor reason (r, e) = (Inr a', s')"
      by (simp add: UpdateState_def ValidateTransition_def time_Now_def Let_def)
  next
    assume "apps r i = None"
    then show "\<exists>err r'. repo_Get (mem_repo sink) i (r, e) = (Inl err, r', e) \<and> errors_Is err ErrNotFound"
      by (simp add: Get_def)
  next
    fix n s actor reason
    assume "apps r i = Some a" and "app_Version a \<noteq> n"
    then show "\<exists>err. repo_UpdateState (mem_repo sink) i n s actor reason (r, e) = (Inl err, r, e) \<and>
        errors_Is err ErrConflict"
      by (simp add: UpdateState_def)
  next
    fix actor assume "apps r i = Some a" and "IsTerminal (app_State a)"
    then show "\<exists>a' s'. repo_Reopen (mem_repo sink) i (app_Version a) actor (r, e) = (Inr a', s')"
      by (simp add: Reopen_def time_Now_def Let_def)
  next
    fix order now assume o: "range_order (apps r) order"
    from inv o show "distinct (map due_ID (fst (repo_ListDueForReKYC (mem_repo sink) order now (r, e))))"
      by (simp add: ListDueForReKYC_distinct range_order_def)
    assume "apps r i = Some a" and "is_due now a"
    with inv o show "\<lparr>due_ID = i, due_Version = app_Version a\<rparr>
        \<in> set (fst (repo_ListDueForReKYC (mem_repo sink) order now (r, e)))"
      by (auto simp: ListDueForReKYC_set range_order_def dest: repo_inv_app intro!: bexI [of _ i])
  next
    fix ds r' e' order now assume "repo_ListDueForReKYC (mem_repo sink) order now (r, e) = (ds, r', e')"
    with inv show "repo_inv r' \<and> apps r' = apps r \<and> e' = e \<and>
       (\<forall>d \<in> set ds. \<exists>a. apps r (due_ID d) = Some a \<and> app_Version a = due_Version d \<and> is_due now a)"
      by (fastforce simp: ListDueForReKYC_set dest: repo_inv_app)
  }
qed

end
