(* ===== verification/Concurrency.thy ===== *)
theory Concurrency
  imports MemRepo
begin

text \<open>
  Interleaving on the in-memory repository. Handlers read an application, compute, and write it
  back with the version they read; between the two any number of operations of other requests
  may run, each atomic under the mutex. A history of such operations is a list.
\<close>

section \<open>Histories\<close>

datatype repo_op =
    OpCreate Application
  | OpUpdate string goint State string string
  | OpReopen string goint string
  | OpVendor string string

fun run_op ::
  "'e World_scheme EventSink \<Rightarrow> repo_op \<Rightarrow> ApplicationRepository \<times> 'e World_scheme \<Rightarrow>
     ApplicationRepository \<times> 'e World_scheme" where
  "run_op sink (OpCreate a) s = snd (Create a s)"
| "run_op sink (OpUpdate i n st actor reason) s = snd (UpdateState sink i n st actor reason s)"
| "run_op sink (OpReopen i n actor) s = snd (Reopen sink i n actor s)"
| "run_op sink (OpVendor i w) s = SetVendorApplicantID i w s"

fun run_ops ::
  "'e World_scheme EventSink \<Rightarrow> repo_op list \<Rightarrow> ApplicationRepository \<times> 'e World_scheme \<Rightarrow>
     ApplicationRepository \<times> 'e World_scheme" where
  "run_ops sink [] s = s"
| "run_ops sink (p # ps) s = run_ops sink ps (run_op sink p s)"

text \<open>
  Identifiers come from \<open>newUUID\<close>: a history creates applications only under non-empty
  identifiers that are not in use at that moment.
\<close>

fun fresh_ids ::
  "'e World_scheme EventSink \<Rightarrow> repo_op list \<Rightarrow> ApplicationRepository \<times> 'e World_scheme \<Rightarrow> bool" where
  "fresh_ids sink [] s \<longleftrightarrow> True"
| "fresh_ids sink (p # ps) s \<longleftrightarrow>
     (case p of
        OpCreate a \<Rightarrow> app_ID a \<noteq> '''' \<and> apps (fst s) (app_ID a) = None
      | _ \<Rightarrow> True) \<and>
     fresh_ids sink ps (run_op sink p s)"

text \<open>A history that creates no application for a given user.\<close>

fun leaves_alone :: "string \<Rightarrow> repo_op \<Rightarrow> bool" where
  "leaves_alone u (OpCreate a) \<longleftrightarrow> app_UserID a \<noteq> u"
| "leaves_alone u _ \<longleftrightarrow> True"

section \<open>The version counts the changes\<close>

lemma run_op_inv:
  assumes "repo_inv r" and "fresh_ids sink [p] (r, e)" and "run_op sink p (r, e) = (r', e')"
  shows "repo_inv r'"
proof (cases p)
  case (OpCreate a)
  with assms have fresh: "apps r (app_ID a) = None" "app_ID a \<noteq> ''''" by auto
  show ?thesis
  proof (cases "app_UserID a = ''''")
    case True
    with assms OpCreate show ?thesis by (auto simp: Create_def)
  next
    case False
    from Create_fresh [OF assms(1) fresh False, of e] repo_inv_create [OF assms(1) fresh(1) False] assms
    show ?thesis by (auto simp: OpCreate split: if_splits)
  qed
next
  case (OpUpdate j n st actor reason)
  obtain res where "UpdateState sink j n st actor reason (r, e) = (res, r', e')"
    using assms(3) OpUpdate by (cases "UpdateState sink j n st actor reason (r, e)") auto
  from UpdateState_cases [OF this] assms(1) show ?thesis by (auto intro: repo_inv_set)
next
  case (OpReopen j n actor)
  obtain res where "Reopen sink j n actor (r, e) = (res, r', e')"
    using assms(3) OpReopen by (cases "Reopen sink j n actor (r, e)") auto
  from Reopen_cases [OF this] assms(1) show ?thesis by (auto intro: repo_inv_set)
next
  case (OpVendor j w)
  with assms(1,3) show ?thesis
    by (auto simp: SetVendorApplicantID_cases intro: repo_inv_set split: option.splits)
qed

text \<open>
  One operation leaves an application as it is, or changes it and counts its version up; or it is
  the creation of a new application for the same user, which removes a decided one.
\<close>

lemma run_op_app:
  assumes "repo_inv r" and "apps r i = Some a" and "fresh_ids sink [p] (r, e)"
    and "run_op sink p (r, e) = (r', e')"
  shows "apps r' i = Some a \<or>
    (\<exists>a'. apps r' i = Some a' \<and> app_Version a' = app_Version a + 1 \<and> app_UserID a' = app_UserID a) \<or>
    apps r' i = None \<and> \<not> leaves_alone (app_UserID a) p"
proof (cases p)
  case (OpCreate b)
  with assms have fresh: "apps r (app_ID b) = None" "app_ID b \<noteq> ''''"
    by auto
  then have "app_ID b \<noteq> i" using assms(2) by auto
  show ?thesis
  proof (cases "app_UserID b = ''''")
    case True
    with assms OpCreate show ?thesis by (auto simp: Create_def)
  next
    case False
    from Create_fresh [OF assms(1) fresh False, of e] assms(2,4) \<open>app_ID b \<noteq> i\<close>
    show ?thesis by (auto simp: OpCreate forget_user_def split: if_splits)
  qed
next
  case (OpUpdate j n st actor reason)
  obtain res where "UpdateState sink j n st actor reason (r, e) = (res, r', e')"
    using assms(4) OpUpdate by (cases "UpdateState sink j n st actor reason (r, e)") auto
  from UpdateState_cases [OF this] assms(2) show ?thesis by (cases "i = j") auto
next
  case (OpReopen j n actor)
  obtain res where "Reopen sink j n actor (r, e) = (res, r', e')"
    using assms(4) OpReopen by (cases "Reopen sink j n actor (r, e)") auto
  from Reopen_cases [OF this] assms(2) show ?thesis by (cases "i = j") auto
next
  case (OpVendor j w)
  with assms(2,4) show ?thesis
    by (cases "i = j") (auto simp: SetVendorApplicantID_cases split: option.splits)
qed

text \<open>An application that is gone does not come back unless its identifier is used again.\<close>

lemma run_op_gone:
  assumes "repo_inv r" and "apps r i = None" and "fresh_ids sink [p] (r, e)"
    and "\<And>b. p = OpCreate b \<Longrightarrow> app_ID b \<noteq> i" and "run_op sink p (r, e) = (r', e')"
  shows "apps r' i = None"
proof (cases p)
  case (OpCreate b)
  with assms have fresh: "apps r (app_ID b) = None" "app_ID b \<noteq> ''''" and "app_ID b \<noteq> i"
    by auto
  show ?thesis
  proof (cases "app_UserID b = ''''")
    case True
    with assms OpCreate show ?thesis by (auto simp: Create_def)
  next
    case False
    from Create_fresh [OF assms(1) fresh False, of e] assms(2,5) \<open>app_ID b \<noteq> i\<close>
    show ?thesis by (auto simp: OpCreate forget_user_def split: if_splits)
  qed
next
  case (OpUpdate j n st actor reason)
  obtain res where "UpdateState sink j n st actor reason (r, e) = (res, r', e')"
    using assms(5) OpUpdate by (cases "UpdateState sink j n st actor reason (r, e)") auto
  from UpdateState_cases [OF this] assms(2) show ?thesis by (cases "i = j") auto
next
  case (OpReopen j n actor)
  obtain res where "Reopen sink j n actor (r, e) = (res, r', e')"
    using assms(5) OpReopen by (cases "Reopen sink j n actor (r, e)") auto
  from Reopen_cases [OF this] assms(2) show ?thesis by (cases "i = j") auto
next
  case (OpVendor j w)
  with assms(2,5) show ?thesis by (auto simp: SetVendorApplicantID_cases split: option.splits)
qed

text \<open>
  Over a history the version has moved by the number of changes, which is at most the number
  of operations; no change at all means the application is the one that was read.
\<close>

lemma run_ops_version:
  assumes "repo_inv r" and "apps r i = Some a" and "fresh_ids sink ps (r, e)"
    and "list_all (leaves_alone (app_UserID a)) ps" and "run_ops sink ps (r, e) = (r', e')"
  shows "repo_inv r' \<and> (\<exists>k a'. k \<le> length ps \<and> apps r' i = Some a' \<and>
    app_Version a' = app_Version a + of_nat k \<and> (k = 0 \<longrightarrow> a' = a))"
  using assms
proof (induction ps arbitrary: r e a)
  case Nil
  then show ?case by auto
next
  case (Cons p ps)
  obtain r1 e1 where run: "run_op sink p (r, e) = (r1, e1)" by force
  have fr: "fresh_ids sink [p] (r, e)" "fresh_ids sink ps (r1, e1)"
    using Cons.prems(3) run by auto
  have al: "leaves_alone (app_UserID a) p" "list_all (leaves_alone (app_UserID a)) ps"
    using Cons.prems(4) by auto
  have rest: "run_ops sink ps (r1, e1) = (r', e')" using Cons.prems(5) run by simp
  have inv1: "repo_inv r1" by (rule run_op_inv [OF Cons.prems(1) fr(1) run])
  from run_op_app [OF Cons.prems(1,2) fr(1) run] al(1) consider
    "apps r1 i = Some a"
  | "\<exists>a'. apps r1 i = Some a' \<and> app_Version a' = app_Version a + 1 \<and> app_UserID a' = app_UserID a"
    by blast
  then show ?case
  proof cases
    assume "apps r1 i = Some a"
    from Cons.IH [OF inv1 this fr(2) al(2) rest]
    obtain k c where "k \<le> length ps" "apps r' i = Some c" "app_Version c = app_Version a + of_nat k"
      "k = 0 \<longrightarrow> c = a" "repo_inv r'" by blast
    then show ?thesis by (intro conjI exI [of _ k] exI [of _ c]) simp_all
  next
    assume "\<exists>a'. apps r1 i = Some a' \<and> app_Version a' = app_Version a + 1 \<and>
      app_UserID a' = app_UserID a"
    then obtain b where b: "apps r1 i = Some b" "app_Version b = app_Version a + 1"
      "app_UserID b = app_UserID a" by blast
    from Cons.IH [OF inv1 b(1) fr(2) _ rest] al(2) b(3)
    obtain k c where "k \<le> length ps" "apps r' i = Some c" "app_Version c = app_Version b + of_nat k"
      "repo_inv r'" by auto
    with b(2) show ?thesis
      by (intro conjI exI [of _ "Suc k"] exI [of _ c]) auto
  qed
qed

text \<open>
  Without a restriction on the users, the application may also be gone at the end, and then a new
  one was created for its user.
\<close>

lemma run_ops_gone:
  assumes "repo_inv r" and "apps r i = None" and "fresh_ids sink ps (r, e)"
    and "\<forall>b. OpCreate b \<in> set ps \<longrightarrow> app_ID b \<noteq> i" and "run_ops sink ps (r, e) = (r', e')"
  shows "apps r' i = None"
  using assms
proof (induction ps arbitrary: r e)
  case (Cons p ps)
  obtain r1 e1 where run: "run_op sink p (r, e) = (r1, e1)" by force
  have fr: "fresh_ids sink [p] (r, e)" using Cons.prems(3) by auto
  have "repo_inv r1" by (rule run_op_inv [OF Cons.prems(1) fr run])
  moreover have "apps r1 i = None"
    using Cons.prems(4) by (intro run_op_gone [OF Cons.prems(1,2) fr _ run]) auto
  ultimately show ?case using Cons.prems run by (intro Cons.IH [of r1 e1]) auto
qed simp

lemma run_ops_version_or_gone:
  assumes "repo_inv r" and "apps r i = Some a" and "fresh_ids sink ps (r, e)"
    and "\<forall>b. OpCreate b \<in> set ps \<longrightarrow> app_ID b \<noteq> i" and "run_ops sink ps (r, e) = (r', e')"
  shows "(\<exists>k a'. k \<le> length ps \<and> apps r' i = Some a' \<and> app_Version a' = app_Version a + of_nat k) \<or>
    apps r' i = None \<and> (\<exists>b. OpCreate b \<in> set ps \<and> app_UserID b = app_UserID a)"
  using assms
proof (induction ps arbitrary: r e a)
  case Nil
  then show ?case by auto
next
  case (Cons p ps)
  obtain r1 e1 where run: "run_op sink p (r, e) = (r1, e1)" by force
  have fr: "fresh_ids sink [p] (r, e)" "fresh_ids sink ps (r1, e1)"
    using Cons.prems(3) run by auto
  have rest: "run_ops sink ps (r1, e1) = (r', e')" using Cons.prems(5) run by simp
  have inv1: "repo_inv r1" by (rule run_op_inv [OF Cons.prems(1) fr(1) run])
  have ids: "\<forall>b. OpCreate b \<in> set ps \<longrightarrow> app_ID b \<noteq> i" using Cons.prems(4) by simp
  from run_op_app [OF Cons.prems(1,2) fr(1) run] show ?case
  proof (elim disjE exE conjE)
    assume same: "apps r1 i = Some a"
    from Cons.IH [OF inv1 same fr(2) ids rest] show ?thesis
    proof (elim disjE exE conjE)
      fix k c
      assume "k \<le> length ps" "apps r' i = Some c" "app_Version c = app_Version a + of_nat k"
      then show ?thesis by (intro disjI1 exI [of _ k] exI [of _ c]) simp
    qed auto
  next
    fix a'
    assume moved: "apps r1 i = Some a'" "app_Version a' = app_Version a + 1" "app_UserID a' = app_UserID a"
    from Cons.IH [OF inv1 moved(1) fr(2) ids rest] show ?thesis
    proof (elim disjE exE conjE)
      fix k c
      assume "k \<le> length ps" "apps r' i = Some c" "app_Version c = app_Version a' + of_nat k"
      with moved(2) have "Suc k \<le> length (p # ps) \<and> apps r' i = Some c \<and>
          app_Version c = app_Version a + of_nat (Suc k)" by simp
      then show ?thesis by blast
    qed (use moved(3) in auto)
  next
    assume gone: "apps r1 i = None" "\<not> leaves_alone (app_UserID a) p"
    have "apps r' i = None" by (rule run_ops_gone [OF inv1 gone(1) fr(2) ids rest])
    with gone(2) show ?thesis by (cases p) auto
  qed
qed

lemma of_nat_goint_eq_0: "k < 2 ^ 64 \<Longrightarrow> (of_nat k :: goint) = 0 \<Longrightarrow> k = 0"
  using unsigned_of_nat [of k, where 'b = 64, where 'a = nat] by (simp add: take_bit_nat_eq_self)

section \<open>No lost updates\<close>

text \<open>
  C11. No lost update: a handler reads an application, any number of operations of other requests
  run (fewer than \<open>2 ^ 64\<close>, none of them creating an application for the same user), and the
  handler writes the state back with the version it read. If that write succeeds, the application
  is still exactly the one that was read, and the result is the transition of that one.
\<close>

theorem write_back_sees_read:
  assumes "repo_inv r" and "apps r i = Some a" and "fresh_ids sink ps (r, e)"
    and "list_all (leaves_alone (app_UserID a)) ps" and "length ps < 2 ^ 64"
    and "run_ops sink ps (r, e) = (r1, e1)"
    and "UpdateState sink i (app_Version a) st actor reason (r1, e1) = (Inr a2, r2, e2)"
  shows "apps r1 i = Some a \<and> a2 = transition_app (clock e1 (ticks e1)) st a \<and>
    CanTransition (app_State a) st"
proof -
  obtain k b where k: "k \<le> length ps" "apps r1 i = Some b" "app_Version b = app_Version a + of_nat k"
    "k = 0 \<longrightarrow> b = a"
    using run_ops_version [OF assms(1-4,6)] by blast
  have upd: "app_Version b = app_Version a \<and> a2 = transition_app (clock e1 (ticks e1)) st b \<and>
    CanTransition (app_State b) st"
    using UpdateState_cases [OF assms(7)] k(2) by auto
  then have "(of_nat k :: goint) = 0" using k(3) by simp
  then have "k = 0" using k(1) assms(5) by (intro of_nat_goint_eq_0) auto
  with k upd show ?thesis by simp
qed

text \<open>
  C12. Of two writers with the same version at most one succeeds. Once one of them has changed the
  application, fewer than \<open>2 ^ 64 - 1\<close> operations of other requests may run, of any kind and for
  any user, none of them drawing the identifier of this application again: the other writer then
  gets an error and changes nothing. The error is \<open>ErrConflict\<close> while the application is there. It
  is \<open>ErrNotFound\<close> if it is gone, which takes the creation of a new application for its user.
\<close>

theorem stale_write_conflicts:
  assumes "repo_inv r" and "apps r i = Some a"
    and "UpdateState sink i (app_Version a) st actor reason (r, e) = (Inr a1, r1, e1)"
    and "fresh_ids sink ps (r1, e1)" and "\<forall>b. OpCreate b \<in> set ps \<longrightarrow> app_ID b \<noteq> i"
    and "Suc (length ps) < 2 ^ 64" and "run_ops sink ps (r1, e1) = (r2, e2)"
  shows "\<exists>err. UpdateState sink i (app_Version a) st' actor' reason' (r2, e2) = (Inl err, r2, e2) \<and>
    (case apps r2 i of
       Some _ \<Rightarrow> errors_Is err ErrConflict
     | None \<Rightarrow> errors_Is err ErrNotFound \<and> (\<exists>b. OpCreate b \<in> set ps \<and> app_UserID b = app_UserID a))"
proof -
  have r1: "r1 = r\<lparr>apps := (apps r)(i \<mapsto> a1)\<rparr>" "app_Version a1 = app_Version a + 1"
    "app_UserID a1 = app_UserID a" "app_ID a1 = app_ID a"
    using UpdateState_cases [OF assms(3)] assms(2) by auto
  then have inv1: "repo_inv r1" "apps r1 i = Some a1"
    using assms(1,2) by (auto intro: repo_inv_set)
  from run_ops_version_or_gone [OF inv1 assms(4,5,7)] show ?thesis
  proof (elim disjE exE conjE)
    fix k b
    assume k: "k \<le> length ps" "apps r2 i = Some b" "app_Version b = app_Version a1 + of_nat k"
    have "(of_nat (Suc k) :: goint) \<noteq> 0"
      using of_nat_goint_eq_0 [of "Suc k"] k(1) assms(6) by auto
    then have "app_Version b \<noteq> app_Version a"
      using k(3) r1(2) by (auto simp: add.assoc)
    with k(2) show ?thesis by (simp add: UpdateState_def)
  qed (auto simp: UpdateState_def r1(3))
qed

section \<open>A concrete history\<close>

definition demo_app :: "string \<Rightarrow> string \<Rightarrow> State \<Rightarrow> Application" where
  "demo_app i u st =
     \<lparr>app_ID = i, app_UserID = u, app_Vendor = '''', app_VendorApplicantID = '''', app_State = st,
      app_CreatedAt = 1, app_UpdatedAt = 1, app_ExpiresAt = 0, app_ReKYCDueAt = 0, app_DecidedAt = 0,
      app_Version = 1\<rparr>"

definition demo_repo :: ApplicationRepository where
  "demo_repo = \<lparr>apps = [''a'' \<mapsto> demo_app ''a'' ''u'' StateStarted], byUser = [''u'' \<mapsto> ''a'']\<rparr>"

definition demo_clock :: World where
  "demo_clock = \<lparr>clock = (\<lambda>n. int n + 1), ticks = 0, uuids = (\<lambda>n. replicate (Suc n) (CHR ''x'')), issued = 0\<rparr>"

definition demo_ops :: "repo_op list" where
  "demo_ops = [OpCreate (demo_app ''b'' ''w'' StateStarted), OpVendor ''b'' ''v'']"

lemma demo_repo_inv: "repo_inv demo_repo"
  by (simp add: repo_inv_def demo_repo_def demo_app_def)

lemmas demo_simps = demo_repo_def demo_clock_def demo_ops_def demo_app_def Create_def Create_admit_def
  SetVendorApplicantID_def UpdateState_def noopEventSink_def time_Now_def Let_def

theorem write_back_sees_read_witness:
  "\<exists>r1 e1 a2 r2 e2. run_ops noopEventSink demo_ops (demo_repo, demo_clock) = (r1, e1) \<and>
     UpdateState noopEventSink ''a'' 1 StateDocumentsUploaded ''system'' '''' (r1, e1) = (Inr a2, r2, e2) \<and>
     apps r1 ''a'' = Some (demo_app ''a'' ''u'' StateStarted)"
proof -
  obtain r1 e1 where run: "run_ops noopEventSink demo_ops (demo_repo, demo_clock) = (r1, e1)" by force
  then have a: "apps r1 ''a'' = Some (demo_app ''a'' ''u'' StateStarted)"
    by (auto simp: demo_simps)
  then obtain a2 r2 e2 where upd: "UpdateState noopEventSink ''a''
      (app_Version (demo_app ''a'' ''u'' StateStarted)) StateDocumentsUploaded ''system'' '''' (r1, e1) = (Inr a2, r2, e2)"
    by (auto simp: UpdateState_def demo_app_def time_Now_def Let_def ValidateTransition_def)
  have h: "apps demo_repo ''a'' = Some (demo_app ''a'' ''u'' StateStarted)"
    "fresh_ids noopEventSink demo_ops (demo_repo, demo_clock)"
    "list_all (leaves_alone (app_UserID (demo_app ''a'' ''u'' StateStarted))) demo_ops"
    "length demo_ops < 2 ^ 64"
    by (simp_all add: demo_simps)
  from write_back_sees_read [OF demo_repo_inv h run upd] run upd show ?thesis
    by (auto simp: demo_app_def)
qed

theorem stale_write_conflicts_witness:
  "\<exists>a1 r1 e1 r2 e2 err.
     UpdateState noopEventSink ''a'' 1 StateDocumentsUploaded ''one'' '''' (demo_repo, demo_clock) = (Inr a1, r1, e1) \<and>
     run_ops noopEventSink demo_ops (r1, e1) = (r2, e2) \<and>
     UpdateState noopEventSink ''a'' 1 StateDocumentsUploaded ''two'' '''' (r2, e2) = (Inl err, r2, e2) \<and>
     errors_Is err ErrConflict"
proof -
  have a: "apps demo_repo ''a'' = Some (demo_app ''a'' ''u'' StateStarted)"
    by (simp add: demo_repo_def)
  then obtain a1 r1 e1 where upd: "UpdateState noopEventSink ''a''
      (app_Version (demo_app ''a'' ''u'' StateStarted)) StateDocumentsUploaded ''one'' '''' (demo_repo, demo_clock) =
      (Inr a1, r1, e1)"
    by (auto simp: UpdateState_def demo_app_def time_Now_def Let_def ValidateTransition_def)
  have r1: "r1 = demo_repo\<lparr>apps := (apps demo_repo)(''a'' \<mapsto> a1)\<rparr>"
    using UpdateState_cases [OF upd] by auto
  obtain r2 e2 where run: "run_ops noopEventSink demo_ops (r1, e1) = (r2, e2)" by force
  have h: "fresh_ids noopEventSink demo_ops (r1, e1)"
    "\<forall>b. OpCreate b \<in> set demo_ops \<longrightarrow> app_ID b \<noteq> ''a''"
    "Suc (length demo_ops) < 2 ^ 64"
    by (simp_all add: r1 demo_simps)
  have "\<not> (\<exists>b. OpCreate b \<in> set demo_ops \<and> app_UserID b = app_UserID (demo_app ''a'' ''u'' StateStarted))"
    by (simp add: demo_simps)
  with stale_write_conflicts [OF demo_repo_inv a upd h run, of StateDocumentsUploaded "''two''" "''''"] upd run
  show ?thesis by (auto simp: demo_app_def split: option.splits)
qed

end
