(* ===== verification/Stores.thy ===== *)
theory Stores
  imports Concurrency
begin

text \<open>
  The evidence stores of \<open>internal/server.go\<close> (\<open>DocumentStore\<close>, \<open>LivenessStore\<close>), their
  interfaces \<open>DocumentRepo\<close> and \<open>LivenessRepo\<close> of \<open>internal/stores.go\<close> as locales, with the
  in-memory stores as their interpretations. The three repositories of a service act on one value,
  its stores: a database they share, or the three in-memory stores side by side (\<open>MemStores\<close>).

  A document's content is a byte slice that copies of the record share. Sweeping overwrites it
  with zeros before dropping the record; \<open>redacted\<close> keeps what such copies still see.
\<close>

section \<open>Data\<close>

type_synonym byte = "8 word"

record Document =
  doc_ID :: string
  doc_ApplicationID :: string
  doc_Type :: string
  doc_Content :: "byte list"
  doc_UploadedAt :: time
  doc_RetentionUntil :: time

record LivenessSession =
  ls_ID :: string
  ls_ApplicationID :: string
  ls_VendorSessionID :: string
  ls_Status :: string
  ls_StartedAt :: time
  ls_CompletedAt :: time
  ls_Result :: string
  ls_RetentionUntil :: time

record DocumentStore =
  docs :: "string \<rightharpoonup> Document list"
  redacted :: "Document list"

record LivenessStore =
  sessions :: "string \<rightharpoonup> LivenessSession list"

definition NewDocumentStore :: DocumentStore where
  "NewDocumentStore = \<lparr>docs = Map.empty, redacted = []\<rparr>"

definition NewLivenessStore :: LivenessStore where
  "NewLivenessStore = \<lparr>sessions = Map.empty\<rparr>"

section \<open>Documents\<close>

definition doc_Add :: "string \<Rightarrow> Document \<Rightarrow> DocumentStore \<Rightarrow> DocumentStore" where
  "doc_Add appID doc d = d\<lparr>docs := (docs d)(appID \<mapsto> index_list (docs d) appID @ [doc])\<rparr>"

definition doc_List :: "string \<Rightarrow> DocumentStore \<Rightarrow> Document list" where
  "doc_List appID d = index_list (docs d) appID"

text \<open>The loop of \<open>HasRequiredDocs\<close> over the documents, with its two flags.\<close>

fun required_loop :: "Document list \<Rightarrow> bool \<Rightarrow> bool \<Rightarrow> bool" where
  "required_loop [] hasID hasSelfie = (hasID \<and> hasSelfie)"
| "required_loop (doc # ds) hasID hasSelfie =
     (if doc_Type doc = ''ID_FRONT'' then required_loop ds True hasSelfie
      else if doc_Type doc = ''SELFIE'' then required_loop ds hasID True
      else required_loop ds hasID hasSelfie)"

definition HasRequiredDocs :: "string \<Rightarrow> DocumentStore \<Rightarrow> bool" where
  "HasRequiredDocs appID d = required_loop (index_list (docs d) appID) False False"

definition redact :: "Document \<Rightarrow> Document" where
  "redact doc = doc\<lparr>doc_Content := map (\<lambda>_. 0) (doc_Content doc)\<rparr>"

definition expired :: "time \<Rightarrow> time \<Rightarrow> bool" where
  "expired now until \<longleftrightarrow> \<not> IsZero until \<and> \<not> After until now"

text \<open>The inner loop: (number removed, documents kept, documents redacted).\<close>

fun sweep_docs :: "time \<Rightarrow> Document list \<Rightarrow> nat \<times> Document list \<times> Document list" where
  "sweep_docs now [] = (0, [], [])"
| "sweep_docs now (doc # ds) =
     (case sweep_docs now ds of
        (removed, kept, gone) \<Rightarrow>
          if expired now (doc_RetentionUntil doc)
          then (Suc removed, kept, redact doc # gone)
          else (removed, doc # kept, gone))"

fun doc_SweepExpired :: "string list \<Rightarrow> time \<Rightarrow> DocumentStore \<Rightarrow> nat \<times> DocumentStore" where
  "doc_SweepExpired [] now d = (0, d)"
| "doc_SweepExpired (appID # order) now d =
     (case docs d appID of
        None \<Rightarrow> doc_SweepExpired order now d
      | Some ds \<Rightarrow>
          (case sweep_docs now ds of
             (removed, kept, gone) \<Rightarrow>
               (case doc_SweepExpired order now
                       (d\<lparr>docs := (docs d)(appID \<mapsto> kept), redacted := redacted d @ gone\<rparr>) of
                  (n, d) \<Rightarrow> (removed + n, d))))"

section \<open>Liveness sessions\<close>

definition live_Add :: "string \<Rightarrow> LivenessSession \<Rightarrow> LivenessStore \<Rightarrow> LivenessStore" where
  "live_Add appID s l = l\<lparr>sessions := (sessions l)(appID \<mapsto> index_list (sessions l) appID @ [s])\<rparr>"

definition Latest :: "string \<Rightarrow> LivenessStore \<Rightarrow> LivenessSession option" where
  "Latest appID l =
     (let s = index_list (sessions l) appID in if s = [] then None else Some (s ! (length s - 1)))"

fun sweep_sessions :: "time \<Rightarrow> LivenessSession list \<Rightarrow> nat \<times> LivenessSession list" where
  "sweep_sessions now [] = (0, [])"
| "sweep_sessions now (s # ss) =
     (case sweep_sessions now ss of
        (removed, kept) \<Rightarrow>
          if expired now (ls_RetentionUntil s) then (Suc removed, kept) else (removed, s # kept))"

fun live_SweepExpired :: "string list \<Rightarrow> time \<Rightarrow> LivenessStore \<Rightarrow> nat \<times> LivenessStore" where
  "live_SweepExpired [] now l = (0, l)"
| "live_SweepExpired (appID # order) now l =
     (case sessions l appID of
        None \<Rightarrow> live_SweepExpired order now l
      | Some ss \<Rightarrow>
          (case sweep_sessions now ss of
             (removed, kept) \<Rightarrow>
               (case live_SweepExpired order now (l\<lparr>sessions := (sessions l)(appID \<mapsto> kept)\<rparr>) of
                  (n, l) \<Rightarrow> (removed + n, l))))"

section \<open>The interfaces\<close>

record 's DocumentRepo =
  docs_Add :: "string \<Rightarrow> Document \<Rightarrow> 's \<Rightarrow> 's"
  docs_List :: "string \<Rightarrow> 's \<Rightarrow> Document list \<times> 's"
  docs_HasRequiredDocs :: "string \<Rightarrow> 's \<Rightarrow> bool \<times> 's"
  docs_SweepExpired :: "string list \<Rightarrow> time \<Rightarrow> 's \<Rightarrow> nat \<times> 's"

record 's LivenessRepo =
  lives_Add :: "string \<Rightarrow> LivenessSession \<Rightarrow> 's \<Rightarrow> 's"
  lives_Latest :: "string \<Rightarrow> 's \<Rightarrow> LivenessSession option \<times> 's"
  lives_SweepExpired :: "string list \<Rightarrow> time \<Rightarrow> 's \<Rightarrow> nat \<times> 's"

text \<open>One call of either.\<close>

inductive evidence_call :: "'s DocumentRepo \<Rightarrow> 's LivenessRepo \<Rightarrow> 's \<Rightarrow> 's \<Rightarrow> bool" for D L s where
  add_doc: "evidence_call D L s (docs_Add D i doc s)"
| list_docs: "evidence_call D L s (snd (docs_List D i s))"
| required: "evidence_call D L s (snd (docs_HasRequiredDocs D i s))"
| sweep_docs: "evidence_call D L s (snd (docs_SweepExpired D order now s))"
| add_live: "evidence_call D L s (lives_Add L i sess s)"
| latest: "evidence_call D L s (snd (lives_Latest L i s))"
| sweep_live: "evidence_call D L s (snd (lives_SweepExpired L order now s))"

section \<open>The in-memory stores of one process\<close>

record MemStores =
  m_repo :: ApplicationRepository
  m_docs :: DocumentStore
  m_live :: LivenessStore

definition NewMemStores :: MemStores where
  "NewMemStores = \<lparr>m_repo = NewApplicationRepository, m_docs = NewDocumentStore, m_live = NewLivenessStore\<rparr>"

definition mem_docs :: "MemStores DocumentRepo" where
  "mem_docs =
     \<lparr>docs_Add = (\<lambda>appID doc m. m\<lparr>m_docs := doc_Add appID doc (m_docs m)\<rparr>),
      docs_List = (\<lambda>appID m. (doc_List appID (m_docs m), m)),
      docs_HasRequiredDocs = (\<lambda>appID m. (HasRequiredDocs appID (m_docs m), m)),
      docs_SweepExpired = (\<lambda>order now m.
        case doc_SweepExpired order now (m_docs m) of (n, d) \<Rightarrow> (n, m\<lparr>m_docs := d\<rparr>))\<rparr>"

definition mem_live :: "MemStores LivenessRepo" where
  "mem_live =
     \<lparr>lives_Add = (\<lambda>appID s m. m\<lparr>m_live := live_Add appID s (m_live m)\<rparr>),
      lives_Latest = (\<lambda>appID m. (Latest appID (m_live m), m)),
      lives_SweepExpired = (\<lambda>order now m.
        case live_SweepExpired order now (m_live m) of (n, l) \<Rightarrow> (n, m\<lparr>m_live := l\<rparr>))\<rparr>"

lemma mem_evidence_simps [simp]:
  "docs_Add mem_docs = (\<lambda>appID doc m. m\<lparr>m_docs := doc_Add appID doc (m_docs m)\<rparr>)"
  "docs_List mem_docs = (\<lambda>appID m. (doc_List appID (m_docs m), m))"
  "docs_HasRequiredDocs mem_docs = (\<lambda>appID m. (HasRequiredDocs appID (m_docs m), m))"
  "lives_Add mem_live = (\<lambda>appID s m. m\<lparr>m_live := live_Add appID s (m_live m)\<rparr>)"
  "lives_Latest mem_live = (\<lambda>appID m. (Latest appID (m_live m), m))"
  by (simp_all add: mem_docs_def mem_live_def)

text \<open>An operation on the repository is one on the stores, and so is the repository.\<close>

definition in_repo ::
  "(ApplicationRepository \<times> 'e \<Rightarrow> 'a \<times> ApplicationRepository \<times> 'e) \<Rightarrow> MemStores \<times> 'e \<Rightarrow> 'a \<times> MemStores \<times> 'e" where
  "in_repo f = (\<lambda>(m, e). case f (m_repo m, e) of (x, r, e) \<Rightarrow> (x, m\<lparr>m_repo := r\<rparr>, e))"

definition stored_repo ::
  "(ApplicationRepository, 'e) ApplicationRepo \<Rightarrow> (MemStores, 'e) ApplicationRepo" where
  "stored_repo R =
     \<lparr>repo_Create = (\<lambda>app. in_repo (repo_Create R app)),
      repo_Get = (\<lambda>appID. in_repo (repo_Get R appID)),
      repo_GetByUserID = (\<lambda>userID. in_repo (repo_GetByUserID R userID)),
      repo_UpdateState = (\<lambda>appID n st actor reason. in_repo (repo_UpdateState R appID n st actor reason)),
      repo_Reopen = (\<lambda>appID n actor. in_repo (repo_Reopen R appID n actor)),
      repo_ListDueForReKYC = (\<lambda>order now. in_repo (repo_ListDueForReKYC R order now)),
      repo_SetVendorApplicantID = (\<lambda>appID vendorID s.
        snd (in_repo (\<lambda>s. ((), repo_SetVendorApplicantID R appID vendorID s)) s))\<rparr>"

lemma stored_repo_simps [simp]:
  "repo_Create (stored_repo R) app = in_repo (repo_Create R app)"
  "repo_Get (stored_repo R) appID = in_repo (repo_Get R appID)"
  "repo_GetByUserID (stored_repo R) userID = in_repo (repo_GetByUserID R userID)"
  "repo_UpdateState (stored_repo R) appID n st actor reason = in_repo (repo_UpdateState R appID n st actor reason)"
  "repo_Reopen (stored_repo R) appID n actor = in_repo (repo_Reopen R appID n actor)"
  "repo_ListDueForReKYC (stored_repo R) order now = in_repo (repo_ListDueForReKYC R order now)"
  "repo_SetVendorApplicantID (stored_repo R) appID vendorID s =
     snd (in_repo (\<lambda>s. ((), repo_SetVendorApplicantID R appID vendorID s)) s)"
  by (simp_all add: stored_repo_def)

lemma in_repo_result:
  "in_repo f (m, e) = (x, m', e') \<longleftrightarrow>
     (\<exists>r. f (m_repo m, e) = (x, r, e') \<and> m' = m\<lparr>m_repo := r\<rparr>)"
  by (auto simp: in_repo_def split: prod.splits)

section \<open>The contracts\<close>

text \<open>\<open>docs_of\<close> is the list of an application's documents, in the order of upload.\<close>

locale document_repo =
  fixes D :: "'s DocumentRepo"
    and docs_of :: "'s \<Rightarrow> string \<Rightarrow> Document list"
    and dkeys :: "'s \<Rightarrow> string list \<Rightarrow> bool"
  assumes list_law: "fst (docs_List D i d) = docs_of d i" "docs_of (snd (docs_List D i d)) = docs_of d"
    and add_law: "docs_of (docs_Add D i x d) j = (if j = i then docs_of d i @ [x] else docs_of d j)"
    and required_law:
    "fst (docs_HasRequiredDocs D i d) \<longleftrightarrow>
       (\<exists>x \<in> set (docs_of d i). doc_Type x = ''ID_FRONT'') \<and>
       (\<exists>x \<in> set (docs_of d i). doc_Type x = ''SELFIE'')"
    "docs_of (snd (docs_HasRequiredDocs D i d)) = docs_of d"
    and sweep_law:
    "dkeys d order \<Longrightarrow> docs_SweepExpired D order now d = (n, d') \<Longrightarrow>
       (\<forall>i. docs_of d' i = filter (\<lambda>x. \<not> expired now (doc_RetentionUntil x)) (docs_of d i)) \<and>
       n = sum_list (map (\<lambda>i. length (filter (\<lambda>x. expired now (doc_RetentionUntil x)) (docs_of d i))) order)"
begin

text \<open>Once the required documents are there, adding more keeps them.\<close>

lemma required_mono: "fst (docs_HasRequiredDocs D i d) \<Longrightarrow> fst (docs_HasRequiredDocs D i (docs_Add D j x d))"
  by (auto simp: required_law add_law)

lemma sweep_keeps_live:
  "dkeys d order \<Longrightarrow> docs_SweepExpired D order now d = (n, d') \<Longrightarrow>
     x \<in> set (docs_of d' i) \<longleftrightarrow> x \<in> set (docs_of d i) \<and> \<not> expired now (doc_RetentionUntil x)"
  using sweep_law by auto

end

locale liveness_repo =
  fixes L :: "'s LivenessRepo"
    and sessions_of :: "'s \<Rightarrow> string \<Rightarrow> LivenessSession list"
    and lkeys :: "'s \<Rightarrow> string list \<Rightarrow> bool"
  assumes latest_law:
    "fst (lives_Latest L i l) = (if sessions_of l i = [] then None else Some (last (sessions_of l i)))"
    "sessions_of (snd (lives_Latest L i l)) = sessions_of l"
    and live_add_law:
    "sessions_of (lives_Add L i s l) j = (if j = i then sessions_of l i @ [s] else sessions_of l j)"
    and live_sweep_law:
    "lkeys l order \<Longrightarrow> lives_SweepExpired L order now l = (n, l') \<Longrightarrow>
       (\<forall>i. sessions_of l' i = filter (\<lambda>s. \<not> expired now (ls_RetentionUntil s)) (sessions_of l i)) \<and>
       n = sum_list (map (\<lambda>i. length (filter (\<lambda>s. expired now (ls_RetentionUntil s)) (sessions_of l i))) order)"
begin

lemma latest_after_add: "fst (lives_Latest L i (lives_Add L i s l)) = Some s"
  by (simp add: latest_law live_add_law)

end

section \<open>The in-memory stores meet them\<close>

lemma required_loop_iff:
  "required_loop ds hasID hasSelfie \<longleftrightarrow>
     (hasID \<or> (\<exists>x \<in> set ds. doc_Type x = ''ID_FRONT'')) \<and>
     (hasSelfie \<or> (\<exists>x \<in> set ds. doc_Type x = ''SELFIE''))"
  by (induction ds hasID hasSelfie rule: required_loop.induct) auto

lemma sweep_docs_filter:
  "sweep_docs now ds =
     (length (filter (\<lambda>x. expired now (doc_RetentionUntil x)) ds),
      filter (\<lambda>x. \<not> expired now (doc_RetentionUntil x)) ds,
      map redact (filter (\<lambda>x. expired now (doc_RetentionUntil x)) ds))"
  by (induction ds) auto

lemma sweep_sessions_filter:
  "sweep_sessions now ss =
     (length (filter (\<lambda>s. expired now (ls_RetentionUntil s)) ss),
      filter (\<lambda>s. \<not> expired now (ls_RetentionUntil s)) ss)"
  by (induction ss) auto

text \<open>Both sweeps are one loop over a map of lists.\<close>

fun sweep_map :: "('v \<Rightarrow> bool) \<Rightarrow> 'k list \<Rightarrow> ('k \<rightharpoonup> 'v list) \<Rightarrow> nat \<times> ('k \<rightharpoonup> 'v list)" where
  "sweep_map gone [] m = (0, m)"
| "sweep_map gone (k # order) m =
     (case m k of
        None \<Rightarrow> sweep_map gone order m
      | Some xs \<Rightarrow>
          (case sweep_map gone order (m(k \<mapsto> filter (\<lambda>x. \<not> gone x) xs)) of
             (n, m) \<Rightarrow> (length (filter gone xs) + n, m)))"

lemma sweep_map_spec:
  "sweep_map gone order m = (n, m') \<Longrightarrow> distinct order \<Longrightarrow>
     (\<forall>i. index_list m' i =
        (if i \<in> set order then filter (\<lambda>x. \<not> gone x) (index_list m i) else index_list m i)) \<and>
     n = sum_list (map (\<lambda>i. length (filter gone (index_list m i))) order)"
proof (induction order arbitrary: m n m')
  case Nil
  then show ?case by auto
next
  case (Cons k order)
  show ?case
  proof (cases "m k")
    case None
    then have "index_list m k = []" by (simp add: index_list_def)
    with None Cons show ?thesis by auto
  next
    case (Some xs)
    define m1 where "m1 = m(k \<mapsto> filter (\<lambda>x. \<not> gone x) xs)"
    obtain l m2 where rec: "sweep_map gone order m1 = (l, m2)" by force
    have xs: "index_list m k = xs" using Some by (simp add: index_list_def)
    have m1: "index_list m1 i = (if i = k then filter (\<lambda>x. \<not> gone x) xs else index_list m i)" for i
      by (simp add: m1_def)
    have res: "n = length (filter gone xs) + l" "m' = m2"
      using Cons.prems(1) Some rec by (auto simp: m1_def)
    have k: "k \<notin> set order" and dist: "distinct order" using Cons.prems(2) by auto
    have "map (\<lambda>i. length (filter gone (index_list m1 i))) order
        = map (\<lambda>i. length (filter gone (index_list m i))) order"
      using k by (intro map_cong) (auto simp: m1)
    note sum = arg_cong [OF this, of sum_list]
    have IH: "index_list m2 i =
        (if i \<in> set order then filter (\<lambda>x. \<not> gone x) (index_list m1 i) else index_list m1 i)"
      "l = sum_list (map (\<lambda>i. length (filter gone (index_list m1 i))) order)" for i
      using Cons.IH [OF rec dist] by auto
    show ?thesis
      using IH sum res xs k by (auto simp: m1)
  qed
qed

lemma doc_SweepExpired_eq:
  "sweep_map (\<lambda>x. expired now (doc_RetentionUntil x)) order (docs d) =
     map_prod (\<lambda>n. n) docs (doc_SweepExpired order now d)"
proof (induction order arbitrary: d)
  case (Cons k order)
  define d1 where "d1 = (\<lambda>xs. d\<lparr>docs := (docs d)(k \<mapsto> filter (\<lambda>x. \<not> expired now (doc_RetentionUntil x)) xs),
    redacted := redacted d @ map redact (filter (\<lambda>x. expired now (doc_RetentionUntil x)) xs)\<rparr>)"
  have d1: "(docs d)(k \<mapsto> filter (\<lambda>x. \<not> expired now (doc_RetentionUntil x)) xs) = docs (d1 xs)" for xs
    by (simp add: d1_def)
  show ?case
    by (cases "docs d k")
       (simp_all add: d1 Cons.IH sweep_docs_filter case_prod_beta map_prod_def, simp add: d1_def)
qed simp

lemma doc_SweepExpired_map:
  "doc_SweepExpired order now d = (n, d') \<Longrightarrow>
     sweep_map (\<lambda>x. expired now (doc_RetentionUntil x)) order (docs d) = (n, docs d')"
  by (simp add: doc_SweepExpired_eq)

lemma live_SweepExpired_eq:
  "sweep_map (\<lambda>s. expired now (ls_RetentionUntil s)) order (sessions l) =
     map_prod (\<lambda>n. n) sessions (live_SweepExpired order now l)"
proof (induction order arbitrary: l)
  case (Cons k order)
  define l1 where "l1 = (\<lambda>xs. l\<lparr>sessions := (sessions l)(k \<mapsto> filter (\<lambda>x. \<not> expired now (ls_RetentionUntil x)) xs)\<rparr>)"
  have l1: "(sessions l)(k \<mapsto> filter (\<lambda>x. \<not> expired now (ls_RetentionUntil x)) xs) = sessions (l1 xs)" for xs
    by (simp add: l1_def)
  show ?case
    by (cases "sessions l k")
       (simp_all add: l1 Cons.IH sweep_sessions_filter case_prod_beta map_prod_def, simp add: l1_def)
qed simp

lemma live_SweepExpired_map:
  "live_SweepExpired order now l = (n, l') \<Longrightarrow>
     sweep_map (\<lambda>s. expired now (ls_RetentionUntil s)) order (sessions l) = (n, sessions l')"
  by (simp add: live_SweepExpired_eq)

lemma index_list_outside: "i \<notin> dom m \<Longrightarrow> index_list m i = []"
  by (auto simp: index_list_def split: option.splits)

interpretation doc_store: document_repo mem_docs "\<lambda>m. index_list (docs (m_docs m))" "\<lambda>m. range_order (docs (m_docs m))"
proof unfold_locales
  fix m m' :: MemStores and order now n
  assume "range_order (docs (m_docs m)) order" and "docs_SweepExpired mem_docs order now m = (n, m')"
  then have o: "distinct order" "set order = dom (docs (m_docs m))"
    and s: "doc_SweepExpired order now (m_docs m) = (n, m_docs m')"
    by (auto simp: range_order_def mem_docs_def split: prod.splits)
  from sweep_map_spec [OF doc_SweepExpired_map [OF s] o(1)]
  show "(\<forall>i. index_list (docs (m_docs m')) i =
          filter (\<lambda>x. \<not> expired now (doc_RetentionUntil x)) (index_list (docs (m_docs m)) i)) \<and>
       n = sum_list (map (\<lambda>i. length (filter (\<lambda>x. expired now (doc_RetentionUntil x)) (index_list (docs (m_docs m)) i))) order)"
    by (simp add: o(2) index_list_outside)
qed (simp_all add: doc_List_def doc_Add_def HasRequiredDocs_def required_loop_iff)

interpretation live_store: liveness_repo mem_live "\<lambda>m. index_list (sessions (m_live m))" "\<lambda>m. range_order (sessions (m_live m))"
proof unfold_locales
  fix m m' :: MemStores and order now n
  assume "range_order (sessions (m_live m)) order" and "lives_SweepExpired mem_live order now m = (n, m')"
  then have o: "distinct order" "set order = dom (sessions (m_live m))"
    and s: "live_SweepExpired order now (m_live m) = (n, m_live m')"
    by (auto simp: range_order_def mem_live_def split: prod.splits)
  from sweep_map_spec [OF live_SweepExpired_map [OF s] o(1)]
  show "(\<forall>i. index_list (sessions (m_live m')) i =
          filter (\<lambda>s. \<not> expired now (ls_RetentionUntil s)) (index_list (sessions (m_live m)) i)) \<and>
       n = sum_list (map (\<lambda>i. length (filter (\<lambda>s. expired now (ls_RetentionUntil s)) (index_list (sessions (m_live m)) i))) order)"
    by (simp add: o(2) index_list_outside)
qed (simp_all add: live_Add_def Latest_def last_conv_nth Let_def)

text \<open>Among the stores of a process, the repository keeps its contract, and evidence does not touch it.\<close>

locale process_repo = application_repo R view_of good
  for R :: "(ApplicationRepository, 'x AuditEnv_scheme) ApplicationRepo"
    and view_of :: "ApplicationRepository \<Rightarrow> view" and good :: "ApplicationRepository \<Rightarrow> bool"

sublocale process_repo \<subseteq> stored: application_repo "stored_repo R" "\<lambda>m. view_of (m_repo m)" "\<lambda>m. good (m_repo m)"
proof unfold_locales
  fix m m' :: MemStores and e e' :: "'x AuditEnv_scheme" and i n s actor reason a' w
  assume g: "good (m_repo m)"
  {
    assume "repo_UpdateState (stored_repo R) i n s actor reason (m, e) = (Inr a', m', e')"
    then obtain r where r: "repo_UpdateState R i n s actor reason (m_repo m, e) = (Inr a', r, e')" "m' = m\<lparr>m_repo := r\<rparr>"
      by (auto simp: in_repo_result)
    from update_ok [OF g r(1)] show "good (m_repo m') \<and> (\<exists>a. \<exists>t \<in> range (clock e).
         view_of (m_repo m) i = Some a \<and> app_Version a = n \<and> CanTransition (app_State a) s \<and>
         a' = transition_app t s a \<and> view_of (m_repo m') = (view_of (m_repo m))(i \<mapsto> a') \<and>
         logs (Some (i, app_State a, s)) e e')"
      by (simp add: r(2))
  next
    assume "repo_Reopen (stored_repo R) i n actor (m, e) = (Inr a', m', e')"
    then obtain r where r: "repo_Reopen R i n actor (m_repo m, e) = (Inr a', r, e')" "m' = m\<lparr>m_repo := r\<rparr>"
      by (auto simp: in_repo_result)
    from reopen_ok [OF g r(1)] show "good (m_repo m') \<and> (\<exists>a. \<exists>t \<in> range (clock e).
         view_of (m_repo m) i = Some a \<and> app_Version a = n \<and> IsTerminal (app_State a) \<and>
         a' = reopen_app t a \<and> view_of (m_repo m') = (view_of (m_repo m))(i \<mapsto> a') \<and>
         logs (Some (i, app_State a, StateStarted)) e e')"
      by (simp add: r(2))
  next
    assume "repo_SetVendorApplicantID (stored_repo R) i w (m, e) = (m', e')"
    then obtain r where r: "repo_SetVendorApplicantID R i w (m_repo m, e) = (r, e')" "m' = m\<lparr>m_repo := r\<rparr>"
      by (auto simp: in_repo_def split: prod.splits)
    from vendor_law [OF g r(1)] show "good (m_repo m') \<and> logs None e e' \<and>
       (view_of (m_repo m') = view_of (m_repo m) \<or>
        (\<exists>a t. view_of (m_repo m) i = Some a \<and> view_of (m_repo m') = (view_of (m_repo m))(i \<mapsto> vendor_app t w a)))"
      by (simp add: r(2))
  }
qed (auto simp: in_repo_result dest: get_law getuser_law view_id create_ok create_err update_err
       reopen_err list_due_law)

sublocale logging_sink \<subseteq> process: process_repo "mem_repo sink" apps repo_inv
  by unfold_locales

locale evidence_apart =
  fixes D :: "'s DocumentRepo" and L :: "'s LivenessRepo" and view_of :: "'s \<Rightarrow> view" and good :: "'s \<Rightarrow> bool"
  assumes evidence_law: "evidence_call D L s s' \<Longrightarrow> good s \<Longrightarrow> good s' \<and> view_of s' = view_of s"

interpretation mem_evidence: evidence_apart mem_docs mem_live "\<lambda>m. apps (m_repo m)" "\<lambda>m. repo_inv (m_repo m)"
proof
  fix m m'
  assume "evidence_call mem_docs mem_live m m'" and "repo_inv (m_repo m)"
  then show "repo_inv (m_repo m') \<and> apps (m_repo m') = apps (m_repo m)"
    by (induction rule: evidence_call.induct) (auto simp: mem_docs_def mem_live_def split: prod.split)
qed

end
