(* ===== verification/Retention.thy ===== *)
theory Retention
  imports Stores
begin

text \<open>
  \<open>internal/retention.go\<close>: one pass of the retention sweeper over the interfaces
  \<open>DocumentRepo\<close> and \<open>LivenessRepo\<close>, the sweeper's background loop, and the flags and channel
  behind \<open>Start\<close> and \<open>Stop\<close>. The log lines and the tracing span have no effect on the state.
\<close>

section \<open>One pass\<close>

text \<open>
  \<open>audited\<close> says whether the sweeper has an audit log (\<open>r.audit != nil\<close>). \<open>dorder\<close> and
  \<open>lorder\<close> are the orders in which the two stores range over their maps.
\<close>

definition Sweep ::
  "'s DocumentRepo \<Rightarrow> 's LivenessRepo \<Rightarrow> bool \<Rightarrow> string list \<Rightarrow> string list \<Rightarrow> time \<Rightarrow>
     's \<times> 'e AuditEnv_scheme \<Rightarrow> (nat \<times> nat) \<times> 's \<times> 'e AuditEnv_scheme" where
  "Sweep D L audited dorder lorder now =
     (\<lambda>(s, e).
       let (docsRemoved, s) = docs_SweepExpired D dorder now s;
           (sessionsRemoved, s) = lives_SweepExpired L lorder now s;
           e = (if docsRemoved > 0 \<and> audited
                then Record ''retention'' ''retention_sweep'' ''system''
                       [''documents_removed'' \<mapsto> AInt (int docsRemoved),
                        ''liveness_removed'' \<mapsto> AInt (int sessionsRemoved)] e
                else e)
       in ((docsRemoved, sessionsRemoved), s, e))"

section \<open>The background loop\<close>

definition retentionInterval :: "(string \<Rightarrow> duration option) \<Rightarrow> environ \<Rightarrow> duration" where
  "retentionInterval parse env = envDurationDefault parse env ''RETENTION_SWEEP_INTERVAL'' hour"

text \<open>
  \<open>running\<close> is the field of that name, \<open>stop_closed\<close> says whether \<open>close(r.stop)\<close> has been
  called, and \<open>workers\<close> lists the intervals of the goroutines launched so far. The list sync job
  has the same two fields and extends this record.
\<close>

record LoopControl =
  running :: bool
  stop_closed :: bool
  workers :: "duration list"

definition NewRetentionSweeper :: LoopControl where
  "NewRetentionSweeper = \<lparr>running = False, stop_closed = False, workers = []\<rparr>"

definition Sweeper_Start ::
  "(string \<Rightarrow> duration option) \<Rightarrow> environ \<Rightarrow> duration \<Rightarrow> LoopControl \<Rightarrow> LoopControl" where
  "Sweeper_Start parse env interval c =
     (if running c then c
      else c\<lparr>running := True,
             workers := workers c @
               [if interval \<le>s 0 then envDurationDefault parse env ''RETENTION_SWEEP_INTERVAL'' hour
                else interval]\<rparr>)"

text \<open>\<open>None\<close> is the run-time panic \<open>close of closed channel\<close>.\<close>

definition Sweeper_Stop :: "LoopControl \<Rightarrow> LoopControl option" where
  "Sweeper_Stop c =
     (if \<not> running c then Some c
      else if stop_closed c then None
      else Some (c\<lparr>stop_closed := True, running := False\<rparr>))"

text \<open>
  The worker: what each \<open>select\<close> received, a tick (with the orders the runtime then picks) or
  the closed stop channel. The list is a prefix of the worker's run.
\<close>

datatype wakeup = Ticked "string list" "string list" | StopSignal

fun sweeper_loop ::
  "'s DocumentRepo \<Rightarrow> 's LivenessRepo \<Rightarrow> bool \<Rightarrow> wakeup list \<Rightarrow>
     's \<times> 'e AuditEnv_scheme \<Rightarrow> 's \<times> 'e AuditEnv_scheme" where
  "sweeper_loop D L audited [] s = s"
| "sweeper_loop D L audited (StopSignal # ws) s = s"
| "sweeper_loop D L audited (Ticked dorder lorder # ws) (s, e) =
     (let (t, e) = time_Now e
      in sweeper_loop D L audited ws (snd (Sweep D L audited dorder lorder t (s, e))))"

section \<open>What a pass does\<close>

lemma retentionInterval_pos: "0 <s retentionInterval parse env"
  unfolding retentionInterval_def
  by (rule envDurationDefault_pos) (simp add: word_sless_alt hour_def second_def)

lemma Sweep_calls:
  assumes "Sweep D L audited dorder lorder now (s, e) = (res, s', e')"
  shows "logs None e e' \<and> (\<exists>s1. evidence_call D L s s1 \<and> evidence_call D L s1 s')"
proof -
  define s1 where "s1 = snd (docs_SweepExpired D dorder now s)"
  have "s' = snd (lives_SweepExpired L lorder now s1)" "logs None e e'"
    using assms by (auto simp: Sweep_def s1_def split: prod.splits if_splits)
  moreover have "evidence_call D L s s1" unfolding s1_def by (rule evidence_call.sweep_docs)
  ultimately show ?thesis using evidence_call.sweep_live by metis
qed

text \<open>Sweeping documents leaves the sessions, and sweeping sessions the documents.\<close>

locale retention_stores =
  document_repo D docs_of dkeys + liveness_repo L sessions_of lkeys
  for D :: "'s DocumentRepo" and docs_of :: "'s \<Rightarrow> string \<Rightarrow> Document list"
    and dkeys :: "'s \<Rightarrow> string list \<Rightarrow> bool"
    and L :: "'s LivenessRepo" and sessions_of :: "'s \<Rightarrow> string \<Rightarrow> LivenessSession list"
    and lkeys :: "'s \<Rightarrow> string list \<Rightarrow> bool" +
  assumes sweep_docs_apart:
    "docs_SweepExpired D order now s = (n, s') \<Longrightarrow> sessions_of s' = sessions_of s \<and> lkeys s' = lkeys s"
    and sweep_live_apart: "lives_SweepExpired L order now s = (n, s') \<Longrightarrow> docs_of s' = docs_of s"
begin

lemma Sweep_contents:
  assumes "dkeys s dorder" and "lkeys s lorder"
    and "Sweep D L audited dorder lorder now (s, e) = ((nd, nl), s', e')"
  shows "docs_of s' i = filter (\<lambda>x. \<not> expired now (doc_RetentionUntil x)) (docs_of s i)"
    and "sessions_of s' i = filter (\<lambda>x. \<not> expired now (ls_RetentionUntil x)) (sessions_of s i)"
    and "nd = sum_list (map (\<lambda>i. length (filter (\<lambda>x. expired now (doc_RetentionUntil x)) (docs_of s i))) dorder)"
    and "nl = sum_list (map (\<lambda>i. length (filter (\<lambda>x. expired now (ls_RetentionUntil x)) (sessions_of s i))) lorder)"
proof -
  obtain s1 where s1: "docs_SweepExpired D dorder now s = (nd, s1)" "lives_SweepExpired L lorder now s1 = (nl, s')"
    using assms(3) by (auto simp: Sweep_def split: prod.splits)
  note apart = sweep_docs_apart [OF s1(1)] sweep_live_apart [OF s1(2)]
  have "lkeys s1 lorder" using apart assms(2) by simp
  from sweep_law [OF assms(1) s1(1)] live_sweep_law [OF this s1(2)] apart
  show "docs_of s' i = filter (\<lambda>x. \<not> expired now (doc_RetentionUntil x)) (docs_of s i)"
    and "sessions_of s' i = filter (\<lambda>x. \<not> expired now (ls_RetentionUntil x)) (sessions_of s i)"
    and "nd = sum_list (map (\<lambda>i. length (filter (\<lambda>x. expired now (doc_RetentionUntil x)) (docs_of s i))) dorder)"
    and "nl = sum_list (map (\<lambda>i. length (filter (\<lambda>x. expired now (ls_RetentionUntil x)) (sessions_of s i))) lorder)"
    by auto
qed

text \<open>A second pass at the same time finds nothing, changes nothing and records nothing.\<close>

lemma Sweep_again:
  assumes "dkeys s dorder" and "lkeys s lorder"
    and "Sweep D L audited dorder lorder now (s, e) = (res, s', e')"
    and "dkeys s' dorder'" and "lkeys s' lorder'"
    and "Sweep D L audited dorder' lorder' now (s', e') = ((nd, nl), s'', e'')"
  shows "nd = 0 \<and> nl = 0 \<and> docs_of s'' = docs_of s' \<and> sessions_of s'' = sessions_of s' \<and> e'' = e'"
proof -
  obtain nd1 nl1 where "Sweep D L audited dorder lorder now (s, e) = ((nd1, nl1), s', e')"
    using assms(3) by (cases res) auto
  note first = Sweep_contents [OF assms(1,2) this]
  note again = Sweep_contents [OF assms(4-6)]
  have "nd = 0" "nl = 0" unfolding again(3,4) by (simp_all add: first)
  moreover from this have "e'' = e'"
    using assms(6) by (auto simp: Sweep_def split: prod.splits)
  ultimately show ?thesis using again(1,2) by (auto simp: first fun_eq_iff)
qed

end

interpretation mem_retention:
  retention_stores mem_docs "\<lambda>m. index_list (docs (m_docs m))" "\<lambda>m. range_order (docs (m_docs m))"
    mem_live "\<lambda>m. index_list (sessions (m_live m))" "\<lambda>m. range_order (sessions (m_live m))"
  by unfold_locales (auto simp: mem_docs_def mem_live_def split: prod.splits)

section \<open>Starting and stopping\<close>

text \<open>
  The first stop never panics. The channel is not made anew, so a sweeper that has been stopped
  once cannot be stopped again after a restart, and the restarted worker finds its channel closed.
\<close>

lemma Sweeper_Stop_first:
  "\<not> stop_closed c \<Longrightarrow> \<exists>c'. Sweeper_Stop c = Some c' \<and> \<not> running c'"
  by (auto simp: Sweeper_Stop_def)

lemma Sweeper_Stop_panics:
  "Sweeper_Stop c = None \<longleftrightarrow> running c \<and> stop_closed c"
  by (simp add: Sweeper_Stop_def)

lemma Sweeper_Start_idem:
  "Sweeper_Start parse env i' (Sweeper_Start parse env i c) = Sweeper_Start parse env i c"
  by (simp add: Sweeper_Start_def)

lemma Sweeper_restart_panics:
  assumes "running c" and "Sweeper_Stop c = Some c'"
  shows "Sweeper_Stop (Sweeper_Start parse env i c') = None"
  using assms by (auto simp: Sweeper_Stop_def Sweeper_Start_def split: if_splits)

section \<open>Properties\<close>

text \<open>
  \<open>Stop\<close> closes a channel that \<open>Start\<close> never makes anew: the first stop of a running sweeper
  works, and the stop after a restart panics (\<open>close of closed channel\<close>), as does nothing else.
\<close>

theorem sweeper_second_stop_panics:
  assumes "Sweeper_Stop (Sweeper_Start parse env i NewRetentionSweeper) = Some c"
  shows "\<not> running c \<and> Sweeper_Stop c = Some c \<and>
    Sweeper_Stop (Sweeper_Start parse env' i' c) = None \<and>
    (Sweeper_Stop c' = None \<longleftrightarrow> running c' \<and> stop_closed c')"
  using assms by (auto simp: Sweeper_Stop_def Sweeper_Start_def NewRetentionSweeper_def)

theorem sweeper_second_stop_panics_witness:
  "Sweeper_Stop (Sweeper_Start (\<lambda>_. None) (\<lambda>_. '''') hour
     \<lparr>running = False, stop_closed = True, workers = [hour]\<rparr>) = None"
proof -
  have "Sweeper_Stop (Sweeper_Start (\<lambda>_. None) (\<lambda>_. '''') hour NewRetentionSweeper) =
      Some \<lparr>running = False, stop_closed = True, workers = [hour]\<rparr>"
    by (simp add: Sweeper_Stop_def Sweeper_Start_def NewRetentionSweeper_def hour_def second_def word_sle_eq)
  from sweeper_second_stop_panics [OF this] show ?thesis by blast
qed

end
