(* ===== verification/Screening.thy ===== *)
theory Screening
  imports Retention
begin

text \<open>
  \<open>internal/screening.go\<close>: the screening client interface and its in-memory implementation,
  the hit store, and the screening service with its two operations \<open>Run\<close> and
  \<open>Disposition\<close>. A \<open>context.Context\<close> is what \<open>ctx.Err()\<close> answers when the operation asks.
\<close>

section \<open>Data\<close>

record ScreeningHit =
  sh_List :: string
  sh_MatchedName :: string
  sh_Score :: float64

record SanctionsHit =
  san_ID :: string
  san_ApplicationID :: string
  san_List :: string
  san_MatchedName :: string
  san_Score :: float64
  san_ReviewedBy :: string
  san_ReviewedAt :: time
  san_Disposition :: string

type_synonym ctx = "go_error option"

type_synonym 'e ScreeningClient = "ctx \<Rightarrow> string \<Rightarrow> 'e \<Rightarrow> (go_error + ScreeningHit list) \<times> 'e"

section \<open>The in-memory client\<close>

record InMemoryScreeningClient =
  listed :: "string list"

definition NewInMemoryScreeningClient :: InMemoryScreeningClient where
  "NewInMemoryScreeningClient = \<lparr>listed = [''BAD ACTOR'', ''EVIL DOER'']\<rparr>"

definition Names :: "InMemoryScreeningClient \<Rightarrow> string list" where
  "Names c = listed c"

definition SetNames :: "string list \<Rightarrow> InMemoryScreeningClient \<Rightarrow> InMemoryScreeningClient" where
  "SetNames names c = c\<lparr>listed := names\<rparr>"

fun screen_loop :: "string \<Rightarrow> string list \<Rightarrow> ScreeningHit list" where
  "screen_loop hay [] = []"
| "screen_loop hay (n # ns) =
     (if Contains hay (ToUpper n)
      then \<lparr>sh_List = ''internal_sanctions'', sh_MatchedName = n, sh_Score = float_one\<rparr> # screen_loop hay ns
      else screen_loop hay ns)"

definition mem_Screen :: "InMemoryScreeningClient \<Rightarrow> 'e ScreeningClient" where
  "mem_Screen c ctx fullName e =
     (case ctx of
        Some err \<Rightarrow> (Inl err, e)
      | None \<Rightarrow> (Inr (screen_loop (ToUpper (TrimSpace fullName)) (listed c)), e))"

section \<open>The hit store\<close>

record ScreeningStore =
  hits :: "string \<rightharpoonup> SanctionsHit list"

definition NewScreeningStore :: ScreeningStore where
  "NewScreeningStore = \<lparr>hits = Map.empty\<rparr>"

definition hit_Add :: "string \<Rightarrow> SanctionsHit \<Rightarrow> ScreeningStore \<Rightarrow> ScreeningStore" where
  "hit_Add appID hit s = s\<lparr>hits := (hits s)(appID \<mapsto> index_list (hits s) appID @ [hit])\<rparr>"

definition hit_List :: "string \<Rightarrow> ScreeningStore \<Rightarrow> SanctionsHit list" where
  "hit_List appID s = index_list (hits s) appID"

definition review :: "time \<Rightarrow> string \<Rightarrow> string \<Rightarrow> SanctionsHit \<Rightarrow> SanctionsHit" where
  "review now reviewedBy disposition h =
     h\<lparr>san_ReviewedBy := reviewedBy, san_ReviewedAt := now, san_Disposition := disposition\<rparr>"

definition SetDisposition ::
  "string \<Rightarrow> string \<Rightarrow> string \<Rightarrow> ScreeningStore \<times> 'e World_scheme \<Rightarrow> ScreeningStore \<times> 'e World_scheme" where
  "SetDisposition appID reviewedBy disposition =
     (\<lambda>(s, e).
       let (now, e) = time_Now e in
       (case hits s appID of
          None \<Rightarrow> (s, e)
        | Some hs \<Rightarrow> (s\<lparr>hits := (hits s)(appID \<mapsto> map (review now reviewedBy disposition) hs)\<rparr>, e)))"

section \<open>The service\<close>

definition ScreeningThreshold :: "environ \<Rightarrow> int" where
  "ScreeningThreshold env =
     (if env ''SCREENING_HIT_THRESHOLD'' \<noteq> '''' then
        (case Atoi (env ''SCREENING_HIT_THRESHOLD'') of
           Some n \<Rightarrow> if n > 0 then n else 1
         | None \<Rightarrow> 1)
      else 1)"

text \<open>The loop of \<open>Run\<close> that gives every hit an identifier and stores it.\<close>

fun persist_hits ::
  "string \<Rightarrow> ScreeningHit list \<Rightarrow> ScreeningStore \<times> 'e World_scheme \<Rightarrow>
     SanctionsHit list \<times> ScreeningStore \<times> 'e World_scheme" where
  "persist_hits appID [] (s, e) = ([], s, e)"
| "persist_hits appID (h # hs) (s, e) =
     (let (uid, e) = newUUID e;
          sh = \<lparr>san_ID = uid, san_ApplicationID = appID, san_List = sh_List h,
                san_MatchedName = sh_MatchedName h, san_Score = sh_Score h,
                san_ReviewedBy = '''', san_ReviewedAt = 0, san_Disposition = ''''\<rparr>;
          s = hit_Add appID sh s;
          (persisted, s, e) = persist_hits appID hs (s, e)
      in (sh # persisted, s, e))"

definition screening_Run ::
  "('e AuditEnv_scheme) ScreeningClient \<Rightarrow> environ \<Rightarrow> bool \<Rightarrow> ctx \<Rightarrow> Application \<Rightarrow> string \<Rightarrow>
     ScreeningStore \<times> 'e AuditEnv_scheme \<Rightarrow>
     (go_error + SanctionsHit list \<times> bool) \<times> ScreeningStore \<times> 'e AuditEnv_scheme" where
  "screening_Run screener env audited ctx app fullName =
     (\<lambda>(s, e).
       case screener ctx fullName e of
         (Inl err, e) \<Rightarrow> (Inl err, s, e)
       | (Inr hs, e) \<Rightarrow>
           (let (persisted, s, e) = persist_hits (app_ID app) hs (s, e);
                threshold = ScreeningThreshold env;
                manualReview = (int (length hs) \<ge> threshold);
                e = (if audited
                     then Record (app_ID app) ''screening'' ''system''
                            [''hits'' \<mapsto> AInt (int (length hs)), ''manual_review'' \<mapsto> ABool manualReview] e
                     else e)
            in (Inr (persisted, manualReview), s, e)))"

definition errBadDisposition :: AppError where
  "errBadDisposition =
     \<lparr>Code = ''bad_disposition'', Message = ''disposition must be clear or block'', StatusCode = 400\<rparr>"

definition errNotInReview :: AppError where
  "errNotInReview =
     \<lparr>Code = ''not_in_review'', Message = ''application not in manual_review'', StatusCode = 409\<rparr>"

text \<open>\<open>None\<close> is the nil error.\<close>

definition Disposition ::
  "('r, 'e AuditEnv_scheme) ApplicationRepo \<Rightarrow> bool \<Rightarrow> string \<Rightarrow> string \<Rightarrow> string \<Rightarrow>
     'r \<times> ScreeningStore \<times> 'e AuditEnv_scheme \<Rightarrow>
     go_error option \<times> 'r \<times> ScreeningStore \<times> 'e AuditEnv_scheme" where
  "Disposition R audited appID disposition reviewedBy =
     (\<lambda>(r, s, e).
       if disposition \<noteq> ''CLEAR'' \<and> disposition \<noteq> ''BLOCK''
       then (Some (AppErr errBadDisposition), r, s, e)
       else (case repo_Get R appID (r, e) of
               (Inl err, r, e) \<Rightarrow> (Some err, r, s, e)
             | (Inr app, r, e) \<Rightarrow>
                 if app_State app \<noteq> StateManualReview
                 then (Some (AppErr errNotInReview), r, s, e)
                 else
                   (let (s, e) = SetDisposition appID reviewedBy disposition (s, e);
                        to = (if disposition = ''CLEAR'' then StatePass else StateFail)
                    in (case repo_UpdateState R appID (app_Version app) to reviewedBy
                               (''screening disposition: '' @ disposition) (r, e) of
                          (Inl err, r, e) \<Rightarrow> (Some err, r, s, e)
                        | (Inr _, r, e) \<Rightarrow>
                            (let e = (if audited
                                      then Record appID ''screening_disposition'' reviewedBy
                                             [''disposition'' \<mapsto> AString disposition] e
                                      else e)
                             in (None, r, s, e))))))"

section \<open>Matching\<close>

lemma screen_loop_hits:
  "screen_loop hay ns =
     map (\<lambda>n. \<lparr>sh_List = ''internal_sanctions'', sh_MatchedName = n, sh_Score = float_one\<rparr>)
       (filter (\<lambda>n. Contains hay (ToUpper n)) ns)"
  by (induction ns) auto

lemma ToUpper_append [simp]: "ToUpper (a @ b) = ToUpper a @ ToUpper b"
  by (simp add: ToUpper_def)

text \<open>Trimming keeps a text whose two ends are no spaces, whatever surrounds it.\<close>

lemma dropWhile_keeps:
  "w \<noteq> [] \<Longrightarrow> \<not> p (hd w) \<Longrightarrow> \<exists>a'. dropWhile p (a @ w @ b) = a' @ w @ b"
  by (induction a) (auto simp: neq_Nil_conv)

lemma TrimSpace_keeps:
  assumes "w \<noteq> []" and "\<not> is_space (hd w)" and "\<not> is_space (last w)"
  shows "\<exists>a' b'. TrimSpace (a @ w @ b) = a' @ w @ b'"
proof -
  obtain a' where a': "dropWhile is_space (a @ w @ b) = a' @ w @ b"
    using dropWhile_keeps assms(1,2) by blast
  have "rev w \<noteq> []" "\<not> is_space (hd (rev w))" using assms by (simp_all add: hd_rev)
  then obtain b' where "dropWhile is_space (rev b @ rev w @ rev a') = b' @ rev w @ rev a'"
    using dropWhile_keeps by blast
  then have "TrimSpace (a @ w @ b) = a' @ w @ rev b'"
    by (simp add: TrimSpace_def TrimRightP_def a')
  then show ?thesis by blast
qed

lemma ToUpper_ends:
  assumes "ToUpper w = ToUpper n"
  shows "w = [] \<longleftrightarrow> n = []" and "length w = length n"
  using assms by (auto simp: ToUpper_def dest: map_eq_imp_length_eq)

section \<open>What the service guarantees\<close>

lemma ScreeningThreshold_pos: "0 < ScreeningThreshold env"
  by (auto simp: ScreeningThreshold_def split: option.splits)

text \<open>What the service relies on in its client: screening records no transition.\<close>

locale screening_client =
  fixes screen :: "('x AuditEnv_scheme) ScreeningClient"
  assumes screen_logs: "screen ctx name e = (res, e') \<Longrightarrow> logs None e e'"

text \<open>How the loop finds a listed name.\<close>

lemma screen_loop_detects:
  assumes "n \<in> set ns" and "ToUpper w = ToUpper n" and "w \<noteq> []"
    and "\<not> is_space (hd w)" and "\<not> is_space (last w)"
  shows "n \<in> sh_MatchedName ` set (screen_loop (ToUpper (TrimSpace (a @ w @ b))) ns)"
proof -
  obtain a' b' where "TrimSpace (a @ w @ b) = a' @ w @ b'"
    using TrimSpace_keeps assms(3-5) by blast
  then have "Contains (ToUpper (TrimSpace (a @ w @ b))) (ToUpper n)"
    using assms(2) by (auto simp: Contains_iff)
  with assms(1) show ?thesis by (force simp: screen_loop_hits)
qed

interpretation mem_screen: screening_client "mem_Screen c" for c
  by unfold_locales (auto simp: mem_Screen_def split: option.splits)

lemma hit_Add_index [simp]:
  "index_list (hits (hit_Add i h s)) j = index_list (hits s) j @ (if j = i then [h] else [])"
  by (simp add: hit_Add_def)

lemma persist_hits_law:
  "persist_hits i hs (s, e) = (ps, s', e') \<Longrightarrow>
     index_list (hits s') j = index_list (hits s) j @ (if j = i then ps else []) \<and>
     map san_MatchedName ps = map sh_MatchedName hs \<and>
     map san_ID ps = map (uuids e) [issued e..<issued e + length hs] \<and>
     (\<forall>p \<in> set ps. san_ApplicationID p = i \<and> san_Disposition p = '''') \<and>
     e' = e\<lparr>issued := issued e + length hs\<rparr>"
proof (induction hs arbitrary: s e ps s' e')
  case Nil
  then show ?case by simp
next
  case (Cons h hs)
  define sh where "sh = \<lparr>san_ID = uuids e (issued e), san_ApplicationID = i, san_List = sh_List h,
                san_MatchedName = sh_MatchedName h, san_Score = sh_Score h,
                san_ReviewedBy = '''', san_ReviewedAt = 0, san_Disposition = ''''\<rparr>"
  obtain qs s1 e1 where rec: "persist_hits i hs (hit_Add i sh s, e\<lparr>issued := Suc (issued e)\<rparr>) = (qs, s1, e1)"
    by (metis prod_cases3)
  have res: "ps = sh # qs" "s' = s1" "e' = e1"
    using Cons.prems rec by (auto simp: newUUID_def Let_def sh_def)
  have sh: "san_ID sh = uuids e (issued e)" "san_ApplicationID sh = i" "san_Disposition sh = ''''"
    "san_MatchedName sh = sh_MatchedName h"
    by (simp_all add: sh_def)
  have range: "[issued e..<issued e + length (h # hs)] = issued e # [Suc (issued e)..<Suc (issued e) + length hs]"
    by (simp add: upt_conv_Cons del: upt_Suc)
  from Cons.IH [OF rec] show ?case
    unfolding res range by (simp add: sh del: upt_Suc)
qed

context screening_client
begin

lemma screening_Run_ok:
  assumes "screening_Run screen env audited ctx a name (s, e) = (Inr (ps, manual), s', e')"
  obtains hs e1 where "screen ctx name e = (Inr hs, e1)"
    and "map san_MatchedName ps = map sh_MatchedName hs"
    and "manual \<longleftrightarrow> ScreeningThreshold env \<le> int (length hs)"
    and "\<And>j. index_list (hits s') j = index_list (hits s) j @ (if j = app_ID a then ps else [])"
    and "logs None e e'"
proof -
  obtain hs e1 where screen: "screen ctx name e = (Inr hs, e1)"
    using assms by (cases "screen ctx name e"; cases "fst (screen ctx name e)")
      (auto simp: screening_Run_def)
  obtain qs s2 e2 where persist: "persist_hits (app_ID a) hs (s, e1) = (qs, s2, e2)"
    by (metis prod_cases3)
  have out: "qs = ps" "s' = s2" "manual \<longleftrightarrow> ScreeningThreshold env \<le> int (length hs)"
    "e' = (if audited
           then Record (app_ID a) ''screening'' ''system''
                  [''hits'' \<mapsto> AInt (int (length hs)), ''manual_review'' \<mapsto> ABool manual] e2
           else e2)"
    using assms screen persist by (auto simp: screening_Run_def Let_def)
  note law = persist_hits_law [OF persist]
  have "logs None e1 e2" using law by (auto intro: logs_frame)
  then have "logs None e1 e'"
    unfolding out(4) by (auto intro: logs_trans)
  then have "logs None e e'" by (rule logs_trans_quiet [OF screen_logs [OF screen]])
  with screen law out(1-3) show ?thesis by (intro that [of hs e1]) auto
qed

lemma screening_Run_err:
  assumes "screening_Run screen env audited ctx a name (s, e) = (Inl err, s', e')"
  shows "s' = s \<and> screen ctx name e = (Inl err, e')"
  using assms by (auto simp: screening_Run_def Let_def split: prod.splits sum.splits)

lemma screening_Run_logs:
  assumes "screening_Run screen env audited ctx a name (s, e) = (res, s', e')"
  shows "logs None e e'"
proof (cases res)
  case (Inl err)
  with assms screening_Run_err screen_logs show ?thesis by blast
next
  case (Inr p)
  with assms show ?thesis by (cases p) (auto elim: screening_Run_ok)
qed

end

lemma SetDisposition_law:
  "SetDisposition i by d (s, e) = (s', e') \<Longrightarrow>
     e' = e\<lparr>ticks := Suc (ticks e)\<rparr> \<and>
     index_list (hits s') j =
       (if j = i then map (review (clock e (ticks e)) by d) (index_list (hits s) j)
        else index_list (hits s) j)"
  by (auto simp: SetDisposition_def time_Now_def index_list_def split: option.splits)

text \<open>
  A disposition either ends before it reaches the store of hits, or stores the review and asks for
  the transition.
\<close>

lemma Disposition_cases:
  assumes "Disposition R audited i d by (r, s, e) = (res, r', s', e')"
  obtains "res \<noteq> None" and "r' = r" and "e' = e"
  | x where "res \<noteq> None" and "repo_Get R i (r, e) = (x, r', e')"
  | a r1 e0 e1 upd r2 e2 where "d = ''CLEAR'' \<or> d = ''BLOCK''" and "repo_Get R i (r, e) = (Inr a, r1, e0)"
    and "app_State a = StateManualReview" and "SetDisposition i by d (s, e0) = (s', e1)"
    and "repo_UpdateState R i (app_Version a) (if d = ''CLEAR'' then StatePass else StateFail) by
      (''screening disposition: '' @ d) (r1, e1) = (upd, r2, e2)"
    and "r' = r2" and "logs None e2 e'" and "\<And>err. upd = Inl err \<Longrightarrow> res = Some err \<and> e' = e2"
    and "res = None \<longleftrightarrow> (\<exists>b. upd = Inr b)"
proof (cases "d = ''CLEAR'' \<or> d = ''BLOCK''")
  case False
  with assms that(1) show ?thesis by (auto simp: Disposition_def)
next
  case d: True
  obtain x r1 e0 where g: "repo_Get R i (r, e) = (x, r1, e0)" by (rule prod_cases3)
  show ?thesis
  proof (cases "\<exists>a. x = Inr a \<and> app_State a = StateManualReview")
    case False
    with d g assms that(2) show ?thesis by (auto simp: Disposition_def split: sum.splits if_splits)
  next
    case True
    then obtain a where a: "x = Inr a" "app_State a = StateManualReview" by blast
    obtain s1 e1 where sd: "SetDisposition i by d (s, e0) = (s1, e1)" by fastforce
    obtain upd r2 e2 where u: "repo_UpdateState R i (app_Version a) (if d = ''CLEAR'' then StatePass else StateFail) by
      (''screening disposition: '' @ d) (r1, e1) = (upd, r2, e2)" by (rule prod_cases3)
    have out: "(res, r', s', e') = (case upd of Inl err \<Rightarrow> (Some err, r2, s1, e2)
     | Inr _ \<Rightarrow> (None, r2, s1,
         if audited then Record i ''screening_disposition'' by [''disposition'' \<mapsto> AString d] e2 else e2))"
      using assms d g a sd u unfolding Disposition_def by (auto split: sum.splits)
    then have "s' = s1" "r' = r2" "logs None e2 e'" "res = None \<longleftrightarrow> (\<exists>b. upd = Inr b)"
      "upd = Inl err \<Longrightarrow> res = Some err \<and> e' = e2" for err
      by (auto split: sum.splits)
    with that(3) d g a sd u show ?thesis by metis
  qed
qed

lemma Disposition_calls:
  assumes "Disposition R audited i d by (r, s, e) = (res, r', s', e')"
  shows "repo_calls R (r, e) (r', e')"
  using assms
proof (cases rule: Disposition_cases)
  case 1
  then show ?thesis by simp
next
  case (2 x)
  then show ?thesis by (blast intro: repo_calls_get)
next
  case (3 a r1 e0 e1 upd r2 e2)
  have "repo_calls R (r, e) (r1, e0)" using 3(2) by (rule repo_calls_get)
  also have "repo_calls R (r1, e0) (r1, e1)" using SetDisposition_law [OF 3(4)] by (intro repo_calls_quiet) simp
  also have "repo_calls R (r1, e1) (r2, e2)" using 3(5) by (rule repo_calls_update) simp
  also have "repo_calls R (r2, e2) (r2, e')" using 3(7) by (rule repo_calls_quiet)
  finally show ?thesis by (simp only: 3(6))
qed

context application_repo
begin

lemma Disposition_ok:
  assumes "good r" and "Disposition R audited i d by (r, s, e) = (None, r', s', e')"
  obtains a t where "view_of r i = Some a" and "app_State a = StateManualReview"
    and "d = ''CLEAR'' \<or> d = ''BLOCK''"
    and "view_of r' = (view_of r)(i \<mapsto> transition_app t (if d = ''CLEAR'' then StatePass else StateFail) a)"
    and "app_steps (view_of r, e) (view_of r', e')" and "good r'"
    and "\<forall>h \<in> set (index_list (hits s') i). san_ReviewedBy h = by \<and> san_Disposition h = d"
  using assms(2)
proof (cases rule: Disposition_cases)
  case (3 a r1 e0 e1 upd r2 e2)
  define to where "to = (if d = ''CLEAR'' then StatePass else StateFail)"
  obtain b where b: "upd = Inr b" using 3 by auto
  have g: "good r1" "view_of r1 = view_of r" "e0 = e" "view_of r i = Some a"
    using get_law [OF assms(1) 3(2)] by simp_all
  have "to \<noteq> StateStarted" by (simp add: to_def)
  with update_steps [OF g(1) 3(5)] have steps: "good r2" "app_steps (view_of r, e1) (view_of r2, e2)"
    unfolding to_def g(2) by auto
  have "app_steps (view_of r, e) (view_of r, e1)"
    using SetDisposition_law [OF 3(4)] g(3) by (intro app_steps_observe) simp
  also note steps(2)
  also have "app_steps (view_of r2, e2) (view_of r2, e')" using 3(7) by (rule app_steps_observe)
  finally have run: "app_steps (view_of r, e) (view_of r', e')" by (simp only: 3(6))
  obtain t where "view_of r2 = (view_of r)(i \<mapsto> transition_app t to a)"
    using update_ok [OF g(1) 3(5) [unfolded b]] g(2,4) unfolding to_def by auto
  moreover have "\<forall>h \<in> set (index_list (hits s') i). san_ReviewedBy h = by \<and> san_Disposition h = d"
    using SetDisposition_law [OF 3(4)] by (auto simp: review_def)
  ultimately show ?thesis
    using that [OF g(4) 3(3,1)] run steps(1) unfolding 3(6) to_def by blast
qed simp_all

text \<open>A failed disposition changes no application.\<close>

lemma Disposition_err:
  assumes "good r" and "Disposition R audited i d by (r, s, e) = (Some err, r', s', e')"
  shows "good r' \<and> view_of r' = view_of r \<and> logs None e e'"
  using assms(2)
proof (cases rule: Disposition_cases)
  case 1
  with assms(1) show ?thesis by simp
next
  case (2 x)
  from get_law [OF assms(1) 2(2)] show ?thesis by simp
next
  case (3 a r1 e0 e1 upd r2 e2)
  then obtain err' where u: "upd = Inl err'" by (cases upd) auto
  have g: "good r1" "view_of r1 = view_of r" "e0 = e" using get_law [OF assms(1) 3(2)] by simp_all
  from update_err [OF g(1) 3(5) [unfolded u]] SetDisposition_law [OF 3(4)] 3(6) 3(8) [OF u] g(2,3)
  show ?thesis by (auto intro: logs_trans_quiet [OF logs_tick])
qed

end

context reliable_repo
begin

text \<open>An analyst's decision on an application in review always goes through.\<close>

lemma Disposition_decides:
  assumes "good r" and "view_of r i = Some a" and "app_State a = StateManualReview"
    and "d = ''CLEAR'' \<or> d = ''BLOCK''"
  shows "fst (Disposition R audited i d by (r, s, e)) = None"
proof -
  obtain s1 e1 where sd: "SetDisposition i by d (s, e) = (s1, e1)" by force
  define to where "to = (if d = ''CLEAR'' then StatePass else StateFail)"
  have can: "CanTransition (app_State a) to" using assms(3) by (simp add: to_def)
  obtain r1 where g: "repo_Get R i (r, e) = (Inr a, r1, e)" using get_complete [OF assms(1,2)] by blast
  then have "good r1" "view_of r1 i = Some a" using get_law [OF assms(1) g] assms(2) by simp_all
  then obtain a' s' where
    "repo_UpdateState R i (app_Version a) to by (''screening disposition: '' @ d) (r1, e1) = (Inr a', s')"
    using update_accepts can by blast
  with assms g sd show ?thesis
    by (cases s') (auto simp: Disposition_def to_def)
qed

end

section \<open>Properties\<close>

text \<open>
  C32. Screening finds a listed name in any mixture of cases and inside any surrounding text, as
  long as the ends of the name as written are no spaces; and the hits are, in list order, exactly
  the listed names that occur.
\<close>

theorem screening_detects:
  assumes "n \<in> set (listed c)" and "ToUpper w = ToUpper n" and "w \<noteq> ''''"
    and "\<not> is_space (hd w)" and "\<not> is_space (last w)"
  shows "\<exists>hs. mem_Screen c None (a @ w @ b) e = (Inr hs, e) \<and> n \<in> set (map sh_MatchedName hs) \<and>
    map sh_MatchedName hs =
      filter (\<lambda>m. Contains (ToUpper (TrimSpace (a @ w @ b))) (ToUpper m)) (listed c)"
proof -
  have "map sh_MatchedName (screen_loop hay ns) = filter (\<lambda>m. Contains hay (ToUpper m)) ns" for hay ns
    by (induction ns) auto
  then show ?thesis
    using screen_loop_detects [OF assms] by (simp add: mem_Screen_def)
qed

theorem screening_detects_witness:
  "\<exists>hs. mem_Screen NewInMemoryScreeningClient None ''  Mr. Evil Doer jr '' () = (Inr hs, ()) \<and>
     ''EVIL DOER'' \<in> set (map sh_MatchedName hs)"
proof -
  have h: "''EVIL DOER'' \<in> set (listed NewInMemoryScreeningClient)" "ToUpper ''Evil Doer'' = ToUpper ''EVIL DOER''"
    "''Evil Doer'' \<noteq> ''''" "\<not> is_space (hd ''Evil Doer'')" "\<not> is_space (last ''Evil Doer'')"
    by code_simp+
  from screening_detects [OF h, of "''  Mr. ''" "'' jr ''" "()"] show ?thesis by auto
qed

end
