(* ===== verification/Retry.thy ===== *)
theory Retry
  imports Screening
begin

text \<open>
  \<open>internal/retry.go\<close> and \<open>internal/vendor_http.go\<close>: retrying an HTTP round trip with
  exponential back-off and full jitter, and the HTTP vendor client built on it. The network
  is a parameter: \<open>internet n rq\<close> is what the \<open>n\<close>-th request of the process gets back; \<open>sent\<close>
  records the requests as they went out.
\<close>

section \<open>HTTP\<close>

record HttpRequest =
  rq_Method :: string
  rq_URL :: string
  rq_Header :: "(string \<times> string) list"
  rq_Body :: string

text \<open>\<open>rs_Body\<close> is what reading the body gives, \<open>rs_Closed\<close> whether the body has been closed.\<close>

record HttpResponse =
  rs_StatusCode :: int
  rs_Body :: "go_error + string"
  rs_Closed :: bool

record NetEnv = PolicyEnv +
  internet :: "nat \<Rightarrow> HttpRequest \<Rightarrow> go_error + HttpResponse"
  sent :: "HttpRequest list"

definition http_Do :: "HttpRequest \<Rightarrow> 'e NetEnv_scheme \<Rightarrow> (go_error + HttpResponse) \<times> 'e NetEnv_scheme" where
  "http_Do rq e = (internet e (length (sent e)) rq, e\<lparr>sent := sent e @ [rq]\<rparr>)"

lemma logs_http_Do: "http_Do rq e = (res, e') \<Longrightarrow> logs None e e'"
  by (auto simp: http_Do_def intro!: logs_frame)

section \<open>Retrying\<close>

record retryConfig =
  maxAttempts :: int
  baseDelay :: duration
  maxDelay :: duration

definition defaultRetryConfig :: "(string \<Rightarrow> duration option) \<Rightarrow> environ \<Rightarrow> retryConfig" where
  "defaultRetryConfig parse env =
     \<lparr>maxAttempts = envIntDefault env ''VENDOR_MAX_ATTEMPTS'' 5,
      baseDelay = envDurationDefault parse env ''VENDOR_RETRY_BASE_DELAY'' 100000000,
      maxDelay = envDurationDefault parse env ''VENDOR_RETRY_MAX_DELAY'' (2 * second)\<rparr>"

definition retryableStatus :: "int \<Rightarrow> bool" where
  "retryableStatus status \<longleftrightarrow>
     (if status \<ge> 500 \<and> status \<le> 599 then True else status = 408 \<or> status = 429)"

text \<open>
  The upper bound of the wait after \<open>attempt\<close>: the shift and the product are those of
  \<open>time.Duration\<close>, 64 bits wide and signed.
\<close>

definition backoff_upper :: "retryConfig \<Rightarrow> int \<Rightarrow> duration" where
  "backoff_upper cfg attempt =
     (let upper = baseDelay cfg * push_bit (nat (attempt - 1)) 1
      in if maxDelay cfg <s upper \<or> upper \<le>s 0 then maxDelay cfg else upper)"

datatype retry_end = Returned "go_error + HttpResponse" | Panicked

text \<open>
  \<open>ctx_Err k\<close> is what \<open>ctx.Err()\<close> answers before attempt \<open>k\<close>, \<open>ctx_Done k\<close> the error of the
  context if it is cancelled during the wait after attempt \<open>k\<close>. \<open>rnd k\<close> is the random
  number drawn there, reduced as \<open>rand.Int64N\<close> does; \<open>rand.Int64N\<close> panics if its bound is not
  positive. The waits begun are returned as a list.
\<close>

function retry_loop ::
  "(int \<Rightarrow> go_error option) \<Rightarrow> (int \<Rightarrow> go_error option) \<Rightarrow> (int \<Rightarrow> nat) \<Rightarrow> retryConfig \<Rightarrow>
     (int \<Rightarrow> 's \<Rightarrow> (go_error + HttpResponse) \<times> 's) \<Rightarrow> int \<Rightarrow> 's \<Rightarrow> retry_end \<times> int list \<times> 's"
where
  "retry_loop ctx_Err ctx_Done rnd cfg fn attempt s =
     (case ctx_Err attempt of
        Some err \<Rightarrow> (Returned (Inl err), [], s)
      | None \<Rightarrow>
          (case fn attempt s of
             (res, s) \<Rightarrow>
               (let retry = (case res of Inl _ \<Rightarrow> True | Inr resp \<Rightarrow> retryableStatus (rs_StatusCode resp));
                    res = (case res of
                             Inl err \<Rightarrow> Inl err
                           | Inr resp \<Rightarrow>
                               Inr (if retryableStatus (rs_StatusCode resp) then resp\<lparr>rs_Closed := True\<rparr> else resp))
                in if \<not> retry then (Returned res, [], s)
                   else if attempt \<ge> maxAttempts cfg then (Returned res, [], s)
                   else
                     (let upper = backoff_upper cfg attempt
                      in if upper \<le>s 0 then (Panicked, [], s)
                         else
                           (let delay = int (rnd attempt) mod sint upper
                            in (case ctx_Done attempt of
                                  Some err \<Rightarrow> (Returned (Inl err), [delay], s)
                                | None \<Rightarrow>
                                    (case retry_loop ctx_Err ctx_Done rnd cfg fn (attempt + 1) s of
                                       (r, waits, s) \<Rightarrow> (r, delay # waits, s))))))))"
  by pat_completeness auto
termination
  by (relation "measure (\<lambda>(_, _, _, cfg, _, attempt, _). nat (maxAttempts cfg - attempt))") auto

declare retry_loop.simps [simp del]

definition doWithRetry ::
  "(int \<Rightarrow> go_error option) \<Rightarrow> (int \<Rightarrow> go_error option) \<Rightarrow> (int \<Rightarrow> nat) \<Rightarrow> retryConfig \<Rightarrow>
     (int \<Rightarrow> 's \<Rightarrow> (go_error + HttpResponse) \<times> 's) \<Rightarrow> 's \<Rightarrow> retry_end \<times> int list \<times> 's"
where
  "doWithRetry ctx_Err ctx_Done rnd cfg fn s =
     (let cfg = (if maxAttempts cfg < 1 then cfg\<lparr>maxAttempts := 1\<rparr> else cfg)
      in retry_loop ctx_Err ctx_Done rnd cfg fn 1 s)"

section \<open>The HTTP vendor client\<close>

record httpVendorClient =
  hv_name :: string
  hv_base :: string
  hv_apiKey :: string
  hv_timeout :: duration
  hv_retry :: retryConfig

definition newHTTPVendorClient ::
  "(string \<Rightarrow> duration option) \<Rightarrow> environ \<Rightarrow> string \<Rightarrow> string \<Rightarrow> string \<Rightarrow> duration \<Rightarrow> httpVendorClient" where
  "newHTTPVendorClient parse env name baseURL apiKey timeout =
     \<lparr>hv_name = name,
      hv_base = (if baseURL = '''' then env ''VENDOR_API_BASE'' else baseURL),
      hv_apiKey = (if apiKey = '''' then env ''VENDOR_API_KEY'' else apiKey),
      hv_timeout = (if timeout \<le>s 0 then envDurationDefault parse env ''VENDOR_CALL_TIMEOUT'' (30 * second)
                    else timeout),
      hv_retry = defaultRetryConfig parse env\<rparr>"

text \<open>
  One attempt of \<open>doRequest\<close>. All attempts share one \<open>bytes.Reader\<close>: \<open>rest\<close> is what is left of
  it, which becomes the body of the request, and \<open>reads n\<close> how much of it the transport reads
  while the \<open>n\<close>-th request of the process is sent. \<open>url_err\<close> is the error, if any, that
  \<open>http.NewRequestWithContext\<close> has for a URL.
\<close>

definition vendor_attempt ::
  "(string \<Rightarrow> go_error option) \<Rightarrow> (nat \<Rightarrow> nat) \<Rightarrow> httpVendorClient \<Rightarrow> string \<Rightarrow> string \<Rightarrow> bool \<Rightarrow> int \<Rightarrow>
     string \<times> 'e NetEnv_scheme \<Rightarrow> (go_error + HttpResponse) \<times> string \<times> 'e NetEnv_scheme" where
  "vendor_attempt url_err reads c verb path has_body attempt =
     (\<lambda>(rest, e).
       case url_err (hv_base c @ path) of
         Some err \<Rightarrow> (Inl err, rest, e)
       | None \<Rightarrow>
           (let rq = \<lparr>rq_Method = verb, rq_URL = hv_base c @ path,
                      rq_Header =
                        (if has_body then [(''Content-Type'', ''application/json'')] else []) @
                        (if hv_apiKey c \<noteq> '''' then [(''Authorization'', ''Token token='' @ hv_apiKey c)] else []),
                      rq_Body = rest\<rparr>;
                n = length (sent e);
                (res, e) = http_Do rq e
            in (res, drop (reads n) rest, e)))"

text \<open>\<open>body\<close> is \<open>None\<close> for a nil body, else what \<open>json.Marshal\<close> makes of it.\<close>

definition doRequest ::
  "(string \<Rightarrow> go_error option) \<Rightarrow> (nat \<Rightarrow> nat) \<Rightarrow> (int \<Rightarrow> go_error option) \<Rightarrow> (int \<Rightarrow> go_error option) \<Rightarrow>
     (int \<Rightarrow> nat) \<Rightarrow> httpVendorClient \<Rightarrow> string \<Rightarrow> string \<Rightarrow> (go_error + string) option \<Rightarrow>
     'e NetEnv_scheme \<Rightarrow> retry_end \<times> int list \<times> 'e NetEnv_scheme" where
  "doRequest url_err reads ctx_Err ctx_Done rnd c verb path body e =
     (case body of
        Some (Inl err) \<Rightarrow> (Returned (Inl err), [], e)
      | _ \<Rightarrow>
          (let b = (case body of Some (Inr b) \<Rightarrow> b | _ \<Rightarrow> '''');
               (res, waits, _, e) =
                 doWithRetry ctx_Err ctx_Done rnd (hv_retry c)
                   (vendor_attempt url_err reads c verb path (body \<noteq> None)) (b, e)
           in (res, waits, e)))"

section \<open>The waits\<close>

lemma sint_scaled:
  "sint (x * (2 :: 64 word) ^ n) = signed_take_bit 63 (sint x * 2 ^ n)"
proof -
  have "x * 2 ^ n = word_of_int (sint x * 2 ^ n)"
    by simp
  then show ?thesis by (simp only: signed_of_int) simp
qed

text \<open>A multiple of \<open>2 ^ n\<close>, wrapped around at 64 bits, is one still, for \<open>n\<close> up to 63.\<close>

lemma dvd_signed_take_bit:
  assumes "n \<le> 63"
  shows "(2 :: int) ^ n dvd signed_take_bit 63 (b * 2 ^ n)"
proof -
  have d: "(2 :: int) ^ n dvd 2 ^ 63" "(2 :: int) ^ n dvd 2 ^ 64"
    by (rule le_imp_power_dvd, use assms in linarith)+
  have "signed_take_bit 63 (b * 2 ^ n) = (b * 2 ^ n + 2 ^ 63) mod 2 ^ 64 - 2 ^ 63"
    by (simp add: signed_take_bit_eq_take_bit_shift take_bit_eq_mod)
  then show ?thesis
    by (simp only:) (intro dvd_diff dvd_mod dvd_add dvd_triv_right d)
qed

lemma backoff_upper_bounds:
  assumes "0 <s maxDelay cfg"
  shows "0 <s backoff_upper cfg k \<and> backoff_upper cfg k \<le>s maxDelay cfg"
  using assms by (auto simp: backoff_upper_def Let_def word_sle_eq word_sless_alt)

text \<open>
  C25. The wrap-around of the shift and the product is harmless for the delays the service is
  configured with: when \<open>baseDelay * maxDelay\<close> (in nanoseconds) is below \<open>2 ^ 63\<close>, the bound of
  the wait after attempt \<open>k\<close> is \<open>min maxDelay (baseDelay * 2 ^ (k - 1))\<close> for every \<open>k\<close>, however
  large.
\<close>

theorem backoff_upper_exact:
  assumes "0 < sint (baseDelay cfg)" and "0 < sint (maxDelay cfg)"
    and "sint (baseDelay cfg) * sint (maxDelay cfg) < 2 ^ 63"
  shows "sint (backoff_upper cfg k) =
    min (sint (maxDelay cfg)) (sint (baseDelay cfg) * 2 ^ nat (k - 1))"
proof -
  define n where "n = nat (k - 1)"
  define b where "b = sint (baseDelay cfg)"
  define M where "M = sint (maxDelay cfg)"
  define v where "v = signed_take_bit 63 (b * 2 ^ n)"
  have b: "0 < b" and M: "0 < M" and bM: "b * M < 2 ^ 63" using assms by (auto simp: b_def M_def)
  have upper: "sint (backoff_upper cfg k) = (if M < v \<or> v \<le> 0 then M else v)"
    by (auto simp: backoff_upper_def Let_def word_sle_eq word_sless_alt sint_scaled
        n_def b_def M_def v_def)
  show ?thesis
  proof (cases "2 ^ n \<le> M")
    case True
    have "b * 2 ^ n \<le> b * M" using True b by simp
    then have "b * 2 ^ n < 2 ^ 63" using bM by linarith
    moreover have pos: "0 < b * 2 ^ n" using b by simp
    ultimately have "v = b * 2 ^ n"
      unfolding v_def by (intro signed_take_bit_int_eq_self) simp_all
    then show ?thesis using upper pos by (auto simp: n_def b_def M_def)
  next
    case False
    have big: "M < b * 2 ^ n"
    proof -
      have "(2 :: int) ^ n \<le> b * 2 ^ n" using b by simp
      then show ?thesis using False by linarith
    qed
    have "M < v \<or> v \<le> 0"
    proof (cases "n \<le> 63")
      case True
      then have "2 ^ n dvd v" unfolding v_def by (rule dvd_signed_take_bit)
      then show ?thesis using False zdvd_imp_le [of "2 ^ n" v] by auto
    next
      case False
      then have "\<exists>m. n = 64 + m" by presburger
      then obtain m where "n = 64 + m" by blast
      then have "b * 2 ^ n = (b * 2 ^ m) * 2 ^ 64" by (simp add: power_add)
      moreover have "v = (b * 2 ^ n + 2 ^ 63) mod 2 ^ 64 - 2 ^ 63"
        by (simp add: v_def signed_take_bit_eq_take_bit_shift take_bit_eq_mod)
      ultimately have "v = ((b * 2 ^ m) * 2 ^ 64 + 2 ^ 63) mod 2 ^ 64 - 2 ^ 63" by (simp only:)
      also have "\<dots> = 0" unfolding mod_mult_self3 by simp
      finally show ?thesis by simp
    qed
    then show ?thesis using upper big by (auto simp: n_def b_def M_def)
  qed
qed

section \<open>The loop\<close>

text \<open>One unfolding of the loop, by what the attempt gave.\<close>

lemma retry_loop_cases:
  assumes "retry_loop ce cd rnd cfg fn k s = (r, waits, s')"
  obtains (cancelled) err where "ce k = Some err" "r = Returned (Inl err)" "waits = []" "s' = s"
  | (final) resp where "ce k = None" "fn k s = (Inr resp, s')"
      "\<not> retryableStatus (rs_StatusCode resp)" "r = Returned (Inr resp)" "waits = []"
  | (exhausted) res where "ce k = None" "fn k s = (res, s')" "maxAttempts cfg \<le> k" "waits = []"
      "case res of Inl err \<Rightarrow> r = Returned (Inl err)
       | Inr resp \<Rightarrow> retryableStatus (rs_StatusCode resp) \<and> r = Returned (Inr (resp\<lparr>rs_Closed := True\<rparr>))"
  | (panicked) res where "ce k = None" "fn k s = (res, s')" "k < maxAttempts cfg"
      "backoff_upper cfg k \<le>s 0" "r = Panicked" "waits = []"
  | (stopped) res err delay where "ce k = None" "fn k s = (res, s')" "k < maxAttempts cfg"
      "r = Returned (Inl err)" "waits = [delay]" "0 \<le> delay" "delay < sint (backoff_upper cfg k)"
  | (again) res s1 delay ws where "ce k = None" "fn k s = (res, s1)" "k < maxAttempts cfg"
      "case res of Inl _ \<Rightarrow> True | Inr resp \<Rightarrow> retryableStatus (rs_StatusCode resp)"
      "waits = delay # ws" "0 \<le> delay" "delay < sint (backoff_upper cfg k)"
      "retry_loop ce cd rnd cfg fn (k + 1) s1 = (r, ws, s')"
proof -
  consider err where "ce k = Some err" | res s1 where "ce k = None" "fn k s = (res, s1)"
    by (cases "ce k"; cases "fn k s") auto
  then show ?thesis
  proof cases
    case 1
    with assms cancelled show ?thesis by (simp add: retry_loop.simps)
  next
    case 2
    define retry where "retry \<longleftrightarrow> (case res of Inl _ \<Rightarrow> True | Inr resp \<Rightarrow> retryableStatus (rs_StatusCode resp))"
    consider "\<not> retry" | "retry" "maxAttempts cfg \<le> k"
      | "retry" "k < maxAttempts cfg" "backoff_upper cfg k \<le>s 0"
      | "retry" "k < maxAttempts cfg" "0 < sint (backoff_upper cfg k)"
      by (auto simp: word_sle_eq) linarith
    then show ?thesis
    proof cases
      case 1
      with 2 assms final show ?thesis
        by (auto simp: retry_loop.simps retry_def Let_def split: sum.splits)
    next
      case 2
      with \<open>ce k = None\<close> \<open>fn k s = (res, s1)\<close> assms exhausted [of res] show ?thesis
        by (auto simp: retry_loop.simps retry_def Let_def split: sum.splits)
    next
      case 3
      with 2 assms panicked [of res] show ?thesis
        by (auto simp: retry_loop.simps retry_def Let_def split: sum.splits)
    next
      case 4
      define delay where "delay = int (rnd k) mod sint (backoff_upper cfg k)"
      have delay: "0 \<le> delay" "delay < sint (backoff_upper cfg k)"
        using 4 by (simp_all add: delay_def)
      have pos: "\<not> backoff_upper cfg k \<le>s 0" using 4 by (simp add: word_sle_eq)
      have unfold: "retry_loop ce cd rnd cfg fn k s =
          (case cd k of
             Some err \<Rightarrow> (Returned (Inl err), [delay], s1)
           | None \<Rightarrow> (case retry_loop ce cd rnd cfg fn (k + 1) s1 of (r, ws, s) \<Rightarrow> (r, delay # ws, s)))"
        using 2 4 pos by (subst retry_loop.simps)
          (auto simp: retry_def Let_def delay_def split: sum.splits option.splits)
      show ?thesis
      proof (cases "cd k")
        case None
        then obtain ws where "retry_loop ce cd rnd cfg fn (k + 1) s1 = (r, ws, s')" "waits = delay # ws"
          using assms unfold by (auto split: prod.splits)
        with 2 4 delay again [of res s1 delay ws] show ?thesis by (simp add: retry_def)
      next
        case (Some err)
        then show ?thesis using assms unfold 2 4 delay stopped [of res err delay] by simp
      qed
    qed
  qed
qed

lemma retry_loop_induct [consumes 1, case_names step]:
  assumes "retry_loop ce cd rnd cfg fn k s = (r, waits, s')"
    and "\<And>k s r waits s'. (\<And>res s1 ws. fn k s = (res, s1) \<Longrightarrow> k < maxAttempts cfg \<Longrightarrow>
           retry_loop ce cd rnd cfg fn (k + 1) s1 = (r, ws, s') \<Longrightarrow> P (k + 1) s1 r ws s') \<Longrightarrow>
         retry_loop ce cd rnd cfg fn k s = (r, waits, s') \<Longrightarrow> P k s r waits s'"
  shows "P k s r waits s'"
  using assms(1)
proof (induction "nat (maxAttempts cfg - k)" arbitrary: k s r waits s' rule: less_induct)
  case less
  show ?case
  proof (rule assms(2) [OF _ less.prems])
    fix res s1 ws
    assume "k < maxAttempts cfg" and "retry_loop ce cd rnd cfg fn (k + 1) s1 = (r, ws, s')"
    then show "P (k + 1) s1 r ws s'" by (intro less.hyps) auto
  qed
qed

text \<open>What every attempt keeps, the loop keeps.\<close>

lemma retry_loop_invariant:
  assumes "retry_loop ce cd rnd cfg fn k s = (r, waits, s')" and "Q s"
    and "\<And>k s res s'. fn k s = (res, s') \<Longrightarrow> Q s \<Longrightarrow> Q s'"
  shows "Q s'"
proof -
  have "Q s \<longrightarrow> Q s'"
    using assms(1)
  proof (induction rule: retry_loop_induct)
    case (step k s r waits s')
    from step(2) show ?case
      by (cases rule: retry_loop_cases) (use assms(3) step(1) in blast)+
  qed
  with assms(2) show ?thesis by simp
qed

text \<open>At most \<open>maxAttempts\<close> attempts, whatever counts them.\<close>

lemma retry_loop_calls:
  assumes "retry_loop ce cd rnd cfg fn k s = (r, waits, s')" and "k \<le> maxAttempts cfg"
    and "\<And>k s. m (snd (fn k s)) = Suc (m s)"
  shows "m s' \<le> m s + nat (maxAttempts cfg - k + 1)"
proof -
  have count: "m s1 = Suc (m s)" if "fn k s = (res, s1)" for k s res s1
    using assms(3) [of k s] that by simp
  have "k \<le> maxAttempts cfg \<longrightarrow> m s' \<le> m s + nat (maxAttempts cfg - k + 1)"
    using assms(1)
  proof (induction rule: retry_loop_induct)
    case (step k s r waits s')
    from step(2) show ?case
    proof (cases rule: retry_loop_cases)
      case (again res s1 delay ws)
      with step(1) [OF again(2,3,8)] count [OF again(2)] show ?thesis by auto
    qed (auto dest: count)
  qed
  with assms(2) show ?thesis by simp
qed

text \<open>The \<open>j\<close>-th wait is a number from 0 up to, not including, the bound of that attempt.\<close>

lemma retry_loop_waits:
  assumes "retry_loop ce cd rnd cfg fn k s = (r, waits, s')"
  shows "int (length waits) \<le> max 0 (maxAttempts cfg - k) \<and>
    (\<forall>j < length waits. 0 \<le> waits ! j \<and> waits ! j < sint (backoff_upper cfg (k + int j)))"
  using assms
proof (induction rule: retry_loop_induct)
  case (step k s r waits s')
  from step(2) show ?case
  proof (cases rule: retry_loop_cases)
    case (again res s1 delay ws)
    from step(1) [OF again(2,3,8)]
    have IH: "int (length ws) \<le> max 0 (maxAttempts cfg - (k + 1))"
      "\<And>j. j < length ws \<Longrightarrow> 0 \<le> ws ! j \<and> ws ! j < sint (backoff_upper cfg (k + 1 + int j))"
      by auto
    have "0 \<le> waits ! j \<and> waits ! j < sint (backoff_upper cfg (k + int j))" if "j < length waits" for j
    proof (cases j)
      case 0
      with again show ?thesis by simp
    next
      case (Suc i)
      then have "k + int j = k + 1 + int i" and "waits ! j = ws ! i" using again(5) by simp_all
      moreover have "i < length ws" using Suc that again(5) by simp
      ultimately show ?thesis using IH(2) [of i] by presburger
    qed
    moreover have "int (length waits) \<le> max 0 (maxAttempts cfg - k)"
      using IH(1) again(3,5) by simp
    ultimately show ?thesis by blast
  qed auto
qed

text \<open>
  A response that is handed back was final, or the attempts are used up; in the second case its
  body has been closed. With a positive \<open>maxDelay\<close> the random generator never panics.
\<close>

lemma retry_loop_result:
  assumes "retry_loop ce cd rnd cfg fn k s = (r, waits, s')" and "k \<le> maxAttempts cfg"
  shows "(\<forall>resp. r = Returned (Inr resp) \<longrightarrow>
      \<not> retryableStatus (rs_StatusCode resp) \<or>
      rs_Closed resp \<and> int (length waits) = maxAttempts cfg - k) \<and>
    (0 <s maxDelay cfg \<longrightarrow> r \<noteq> Panicked)"
proof -
  have "k \<le> maxAttempts cfg \<longrightarrow> (\<forall>resp. r = Returned (Inr resp) \<longrightarrow>
      \<not> retryableStatus (rs_StatusCode resp) \<or>
      rs_Closed resp \<and> int (length waits) = maxAttempts cfg - k) \<and>
    (0 <s maxDelay cfg \<longrightarrow> r \<noteq> Panicked)"
    using assms(1)
  proof (induction rule: retry_loop_induct)
    case (step k s r waits s')
    from step(2) show ?case
    proof (cases rule: retry_loop_cases)
      case (exhausted res)
      then show ?thesis by (cases res) auto
    next
      case panicked
      with backoff_upper_bounds [of cfg k] show ?thesis
        by (auto simp: word_sle_eq word_sless_alt)
    next
      case (again res s1 delay ws)
      with step(1) [OF again(2,3,8)] show ?thesis by auto
    qed auto
  qed
  with assms(2) show ?thesis by simp
qed

section \<open>The vendor's requests\<close>

lemma doRequest_loop:
  assumes "doRequest ue reads ce cd rnd c verb path body e = (r, waits, e')"
  obtains (unmarshalable) err where "body = Some (Inl err)" "r = Returned (Inl err)" "waits = []" "e' = e"
  | (loop) b rest where "case body of None \<Rightarrow> b = '''' | Some x \<Rightarrow> x = Inr b"
      "retry_loop ce cd rnd ((hv_retry c)\<lparr>maxAttempts := max 1 (maxAttempts (hv_retry c))\<rparr>)
         (vendor_attempt ue reads c verb path (body \<noteq> None)) 1 (b, e) = (r, waits, rest, e')"
proof -
  have cfg: "(if maxAttempts x < 1 then x\<lparr>maxAttempts := 1\<rparr> else x) =
      x\<lparr>maxAttempts := max 1 (maxAttempts x)\<rparr>" for x :: retryConfig
    by simp
  show ?thesis
    using assms unmarshalable loop
    by (auto simp: doRequest_def doWithRetry_def cfg Let_def split: option.splits sum.splits prod.splits)
qed

lemma logs_vendor_attempt:
  "vendor_attempt ue reads c verb path hb k (rest, e) = (res, rest', e') \<Longrightarrow> logs None e e'"
  by (auto simp: vendor_attempt_def Let_def http_Do_def split: option.splits intro!: logs_frame)

lemma logs_doRequest:
  assumes "doRequest ue reads ce cd rnd c verb path body e = (r, waits, e')"
  shows "logs None e e'"
  using assms
proof (cases rule: doRequest_loop)
  case (loop b rest)
  have "logs None e (snd (rest, e'))"
    using loop(2)
  proof (rule retry_loop_invariant)
    fix k s res s'
    assume "vendor_attempt ue reads c verb path (body \<noteq> None) k s = (res, s')" "logs None e (snd s)"
    then show "logs None e (snd s')"
      by (cases s; cases s') (auto dest: logs_vendor_attempt intro: logs_trans)
  qed simp
  then show ?thesis by simp
qed simp

text \<open>
  What one attempt sends: the rest of the shared reader.
\<close>

lemma vendor_attempt_sent:
  "vendor_attempt ue reads c verb path hb k (rest, e) = (res, rest', e') \<Longrightarrow>
     (\<exists>err. ue (hv_base c @ path) = Some err \<and> rest' = rest \<and> e' = e) \<or>
     (\<exists>rq. sent e' = sent e @ [rq] \<and> rq_Body rq = rest \<and> rest' = drop (reads (length (sent e))) rest)"
  by (auto simp: vendor_attempt_def Let_def http_Do_def split: option.splits)

text \<open>
  C27. The attempts of one call share one reader: once the transport has read the whole body of the
  first request, every later attempt of the same call goes out with an empty body. (A retried
  \<open>POST\<close> of the vendor client therefore loses its payload.)
\<close>

theorem doRequest_bodies:
  assumes "doRequest ue reads ce cd rnd c verb path (Some (Inr b)) e = (r, waits, e')"
    and "length b \<le> reads (length (sent e))"
  shows "\<exists>rqs. sent e' = sent e @ rqs \<and> (rqs = [] \<or> rq_Body (hd rqs) = b) \<and>
    (\<forall>rq \<in> set (tl rqs). rq_Body rq = '''')"
  using assms(1)
proof (cases rule: doRequest_loop)
  case (loop b' rest)
  define Q where "Q = (\<lambda>(rs :: string, e1 :: 'a NetEnv_scheme). (rs = b \<and> sent e1 = sent e) \<or>
    (rs = '''' \<and> (\<exists>rq rqs. sent e1 = sent e @ rq # rqs \<and> rq_Body rq = b \<and> (\<forall>q \<in> set rqs. rq_Body q = ''''))))"
  have "Q (rest, e')"
    using loop(2)
  proof (rule retry_loop_invariant)
    show "Q (b', e)" using loop(1) by (simp add: Q_def)
  next
    fix k s res s'
    assume at: "vendor_attempt ue reads c verb path (Some (Inr b) \<noteq> None) k s = (res, s')" and q: "Q s"
    obtain rs e1 rs' e1' where s: "s = (rs, e1)" "s' = (rs', e1')" by (cases s; cases s')
    from vendor_attempt_sent [OF at [unfolded s]] show "Q s'"
    proof
      assume "\<exists>err. ue (hv_base c @ path) = Some err \<and> rs' = rs \<and> e1' = e1"
      with q s show ?thesis by (auto simp: Q_def)
    next
      assume "\<exists>rq. sent e1' = sent e1 @ [rq] \<and> rq_Body rq = rs \<and> rs' = drop (reads (length (sent e1))) rs"
      with q s assms(2) show ?thesis by (fastforce simp: Q_def)
    qed
  qed
  then show ?thesis by (fastforce simp: Q_def)
qed simp

section \<open>Properties\<close>

text \<open>
  C24. A retried call makes at most \<open>max 1 maxAttempts\<close> attempts, whatever counts them, and waits
  fewer times than that; every wait is at least 0 and below the bound computed for its attempt.
\<close>

theorem doWithRetry_bounded:
  assumes "doWithRetry ce cd rnd cfg fn s = (r, waits, s')"
    and "\<And>k s. m (snd (fn k s)) = Suc (m s)"
  shows "m s' \<le> m s + nat (max 1 (maxAttempts cfg)) \<and>
    int (length waits) < max 1 (maxAttempts cfg) \<and>
    (\<forall>j < length waits. 0 \<le> waits ! j \<and> waits ! j < sint (backoff_upper cfg (1 + int j)))"
proof -
  define cfg' where "cfg' = (if maxAttempts cfg < 1 then cfg\<lparr>maxAttempts := 1\<rparr> else cfg)"
  have max: "maxAttempts cfg' = max 1 (maxAttempts cfg)" by (simp add: cfg'_def)
  have upper: "backoff_upper cfg' k = backoff_upper cfg k" for k
    by (simp add: cfg'_def backoff_upper_def Let_def)
  have loop: "retry_loop ce cd rnd cfg' fn 1 s = (r, waits, s')"
    using assms(1) by (simp add: doWithRetry_def cfg'_def)
  have "1 \<le> maxAttempts cfg'" by (simp add: max)
  from retry_loop_calls [where m = m, OF loop this assms(2)] retry_loop_waits [OF loop] show ?thesis
    unfolding upper max by auto
qed

text \<open>
  C26. A response that is handed back either has a status that is not retried, or the attempts are
  used up; in the second case its body has already been closed, although \<open>doRequest\<close> promises an
  open one. With a positive \<open>maxDelay\<close>, which \<open>defaultRetryConfig\<close> always gives, the jitter's
  random generator is never called with a bound it panics on.
\<close>

theorem doWithRetry_outcome:
  assumes "doWithRetry ce cd rnd cfg fn s = (r, waits, s')"
  shows "(case r of
      Returned (Inr resp) \<Rightarrow>
        if retryableStatus (rs_StatusCode resp)
        then rs_Closed resp \<and> int (length waits) = max 1 (maxAttempts cfg) - 1 else True
    | Returned (Inl _) \<Rightarrow> True
    | Panicked \<Rightarrow> \<not> 0 <s maxDelay cfg)"
proof -
  define cfg' where "cfg' = (if maxAttempts cfg < 1 then cfg\<lparr>maxAttempts := 1\<rparr> else cfg)"
  have max: "maxAttempts cfg' = max 1 (maxAttempts cfg)" and delay: "maxDelay cfg' = maxDelay cfg"
    by (simp_all add: cfg'_def)
  have loop: "retry_loop ce cd rnd cfg' fn 1 s = (r, waits, s')"
    using assms by (simp add: doWithRetry_def cfg'_def)
  have "1 \<le> maxAttempts cfg'" by (simp add: max)
  from retry_loop_result [OF loop this] show ?thesis
    unfolding max delay by (auto split: retry_end.splits sum.splits)
qed

definition demo_cfg :: retryConfig where
  "demo_cfg = \<lparr>maxAttempts = 3, baseDelay = 100000000, maxDelay = 2 * second\<rparr>"

definition demo_fn :: "int \<Rightarrow> nat \<Rightarrow> (go_error + HttpResponse) \<times> nat" where
  "demo_fn k n = (Inr \<lparr>rs_StatusCode = 503, rs_Body = Inr '''', rs_Closed = False\<rparr>, Suc n)"

lemma demo_retry:
  "doWithRetry (\<lambda>_. None) (\<lambda>_. None) (\<lambda>_. 150000000) demo_cfg demo_fn 0 =
     (Returned (Inr \<lparr>rs_StatusCode = 503, rs_Body = Inr '''', rs_Closed = True\<rparr>),
      [50000000, 150000000], 3)"
proof -
  have u: "backoff_upper demo_cfg 1 = 100000000" "backoff_upper demo_cfg 2 = 200000000"
    by (simp_all add: backoff_upper_def demo_cfg_def second_def Let_def word_sless_alt word_sle_eq)
  show ?thesis
    by (simp add: doWithRetry_def retry_loop.simps demo_fn_def u demo_cfg_def [THEN arg_cong [of _ _ maxAttempts]]
        retryableStatus_def word_sle_eq)
qed

theorem doWithRetry_bounded_witness:
  "\<exists>r waits n. doWithRetry (\<lambda>_. None) (\<lambda>_. None) (\<lambda>_. 150000000) demo_cfg demo_fn 0 = (r, waits, n) \<and>
     n \<le> 3 \<and> length waits = 2"
proof -
  have "snd (demo_fn k n) = Suc n" for k n by (simp add: demo_fn_def)
  then have "(3 :: nat) \<le> 0 + nat (max 1 (maxAttempts demo_cfg))"
    using doWithRetry_bounded [where m = "\<lambda>n. n", OF demo_retry] by blast
  then show ?thesis unfolding demo_retry by simp
qed

theorem doWithRetry_outcome_witness:
  "case doWithRetry (\<lambda>_. None) (\<lambda>_. None) (\<lambda>_. 150000000) demo_cfg demo_fn 0 of
     (Returned (Inr resp), waits, n) \<Rightarrow> rs_Closed resp \<and> length waits = 2
   | _ \<Rightarrow> False"
  using doWithRetry_outcome [OF demo_retry] unfolding demo_retry
  by (simp add: demo_cfg_def retryableStatus_def)

theorem backoff_upper_exact_witness:
  "sint (backoff_upper demo_cfg 4) = 800000000 \<and> sint (backoff_upper demo_cfg 1000) = 2000000000"
proof -
  have h: "0 < sint (baseDelay demo_cfg)" "0 < sint (maxDelay demo_cfg)"
    "sint (baseDelay demo_cfg) * sint (maxDelay demo_cfg) < 2 ^ 63"
    by (simp_all add: demo_cfg_def second_def)
  have "(20 :: int) \<le> 2 ^ 999"
    using power_increasing [of 5 999 "2 :: int"] by simp
  then have "min 2000000000 (100000000 * 2 ^ 999) = (2000000000 :: int)" by simp
  then show ?thesis
    using backoff_upper_exact [OF h, of 4] backoff_upper_exact [OF h, of 1000]
    by (simp add: demo_cfg_def second_def)
qed

definition demo_net :: NetEnv where
  "demo_net =
     \<lparr>clock = (\<lambda>n. 62135596800000000000 + int n), ticks = 0, uuids = (\<lambda>n. replicate (Suc n) (CHR ''x'')),
      issued = 0, globalMetrics = newMetrics,
      codec = \<lparr>json_event = (\<lambda>_. None), json_envelope = (\<lambda>_. None), sha256_hex = (\<lambda>_. ''0123456789abcdef''),
               rfc3339nano = (\<lambda>_. '''')\<rparr>,
      audit_events = [], kafka_sink = None,
      endpoint = '''', queueCap = 10, queue = [], engine = (\<lambda>_ _. Status 200), posts = 0, accepted = [],
      dropped = [], abandoned = [],
      internet = (\<lambda>n _. Inr \<lparr>rs_StatusCode = (if n = 0 then 503 else 200), rs_Body = Inr '''', rs_Closed = False\<rparr>),
      sent = []\<rparr>"

definition demo_client :: httpVendorClient where
  "demo_client = \<lparr>hv_name = ''v'', hv_base = ''http://v'', hv_apiKey = '''', hv_timeout = 30 * second,
     hv_retry = demo_cfg\<rparr>"

theorem doRequest_bodies_witness:
  "\<exists>r waits e'. doRequest (\<lambda>_. None) (\<lambda>_. 100) (\<lambda>_. None) (\<lambda>_. None) (\<lambda>_. 0) demo_client ''POST'' ''/x''
      (Some (Inr ''{}'')) demo_net = (r, waits, e') \<and>
     map rq_Body (sent e') = [''{}'', '''']"
proof -
  obtain r waits e' where d: "doRequest (\<lambda>_. None) (\<lambda>_. 100) (\<lambda>_. None) (\<lambda>_. None) (\<lambda>_. 0) demo_client
      ''POST'' ''/x'' (Some (Inr ''{}'')) demo_net = (r, waits, e')"
    by (metis prod_cases3)
  have u: "backoff_upper demo_cfg 1 = 100000000"
    by (simp add: backoff_upper_def demo_cfg_def second_def Let_def word_sless_alt word_sle_eq)
  have two: "length (sent e') = 2"
    using d by (simp add: doRequest_def doWithRetry_def retry_loop.simps vendor_attempt_def http_Do_def
        demo_net_def demo_client_def u demo_cfg_def [THEN arg_cong [of _ _ maxAttempts]]
        retryableStatus_def word_sle_eq) auto
  obtain rqs where rqs: "sent e' = rqs" "rqs = [] \<or> rq_Body (hd rqs) = ''{}''" "\<forall>rq \<in> set (tl rqs). rq_Body rq = ''''"
    using doRequest_bodies [OF d] by (auto simp: demo_net_def)
  from two rqs obtain a b where "rqs = [a, b]" by (auto simp: length_Suc_conv numeral_eq_Suc)
  with rqs d show ?thesis by auto
qed

end
