(* ===== verification/Json.thy ===== *)
theory Json
  imports Retry
begin

text \<open>
  What the service uses of \<open>encoding/json\<close>: the value a text parses to, and the decoding of an
  object into a Go struct. The text level (the parser, the printer) is a parameter, gathered with
  the other library functions the clients call in \<open>Lib\<close>. Decoding follows the package's rules:
  keys match a field name without regard to (ASCII) case, unknown keys are skipped, \<open>null\<close>
  leaves a field alone, a later key overwrites an earlier one, and a value of the wrong type is an
  error that is reported at the end. The text of that error is abbreviated.
\<close>

datatype json =
    JNull
  | JBool bool
  | JNum float64
  | JString string
  | JArray "json list"
  | JObject "(string \<times> json) list"

text \<open>
  \<open>json_parse\<close> is the parser of \<open>json.Unmarshal\<close>, \<open>json_first\<close> that of
  \<open>json.NewDecoder(r).Decode\<close>, which stops after the first value; \<open>json_print\<close> is
  \<open>json.Marshal\<close>; \<open>multipart\<close> builds the form of \<open>vendor_onfido.go\<close> (body and content type);
  \<open>url_err\<close> is the error \<open>http.NewRequestWithContext\<close> has for a URL; \<open>hmac_hex\<close> is the
  hexadecimal HMAC-SHA256 of a message under a key.
\<close>

record Lib =
  json_parse :: "string \<Rightarrow> go_error + json"
  json_first :: "string \<Rightarrow> go_error + json"
  json_print :: "json \<Rightarrow> string"
  multipart :: "string \<Rightarrow> byte list \<Rightarrow> string \<times> string"
  url_err :: "string \<Rightarrow> go_error option"
  hmac_hex :: "string \<Rightarrow> string \<Rightarrow> string"

definition key_match :: "string \<Rightarrow> string \<Rightarrow> bool" where
  "key_match field key \<longleftrightarrow> ToLower field = ToLower key"

text \<open>
  A struct of strings, as the map from its JSON names to its values. The flag says whether every
  value had the right type.
\<close>

type_synonym strings = "string \<Rightarrow> string"

definition no_strings :: strings where
  "no_strings = (\<lambda>_. '''')"

definition store_string :: "string list \<Rightarrow> string \<Rightarrow> json \<Rightarrow> strings \<times> bool \<Rightarrow> strings \<times> bool" where
  "store_string names key v =
     (\<lambda>(m, ok).
       case find (\<lambda>f. key_match f key) names of
         None \<Rightarrow> (m, ok)
       | Some f \<Rightarrow>
           (case v of
              JString s \<Rightarrow> (m(f := s), ok)
            | JNull \<Rightarrow> (m, ok)
            | _ \<Rightarrow> (m, False)))"

fun decode_strings :: "string list \<Rightarrow> json \<Rightarrow> strings \<times> bool \<Rightarrow> strings \<times> bool" where
  "decode_strings names (JObject kvs) acc = fold (\<lambda>(k, v). store_string names k v) kvs acc"
| "decode_strings names JNull acc = acc"
| "decode_strings names _ (m, ok) = (m, False)"

definition unmarshal_error :: go_error where
  "unmarshal_error = Plain ''json: cannot unmarshal''"

definition checked :: "'a \<times> bool \<Rightarrow> go_error + 'a" where
  "checked = (\<lambda>(x, ok). if ok then Inr x else Inl unmarshal_error)"

definition unmarshal_strings :: "string list \<Rightarrow> json \<Rightarrow> go_error + strings" where
  "unmarshal_strings names j = checked (decode_strings names j (no_strings, True))"

text \<open>A struct with one field that is itself a struct of strings, as Onfido's webhook body.\<close>

fun decode_nested :: "string \<Rightarrow> string list \<Rightarrow> json \<Rightarrow> strings \<times> bool \<Rightarrow> strings \<times> bool" where
  "decode_nested outer names (JObject kvs) acc =
     fold (\<lambda>(k, v) acc. if key_match outer k then decode_strings names v acc else acc) kvs acc"
| "decode_nested outer names JNull acc = acc"
| "decode_nested outer names _ (m, ok) = (m, False)"

text \<open>A struct with one field that is a list; \<open>elem\<close> decodes an element.\<close>

definition store_list ::
  "(json \<Rightarrow> 'a \<times> bool) \<Rightarrow> string \<Rightarrow> string \<Rightarrow> json \<Rightarrow> 'a list \<times> bool \<Rightarrow> 'a list \<times> bool" where
  "store_list elem field key v =
     (\<lambda>(xs, ok).
       if key_match field key
       then (case v of
               JArray js \<Rightarrow> (map (fst \<circ> elem) js, ok \<and> list_all (snd \<circ> elem) js)
             | JNull \<Rightarrow> ([], ok)
             | _ \<Rightarrow> (xs, False))
       else (xs, ok))"

fun decode_list :: "(json \<Rightarrow> 'a \<times> bool) \<Rightarrow> string \<Rightarrow> json \<Rightarrow> 'a list \<times> bool" where
  "decode_list elem field (JObject kvs) = fold (\<lambda>(k, v). store_list elem field k v) kvs ([], True)"
| "decode_list elem field JNull = ([], True)"
| "decode_list elem field _ = ([], False)"

section \<open>What decoding gives\<close>

lemma store_string_other:
  "f \<noteq> g \<Longrightarrow> find (\<lambda>h. key_match h key) names = Some g \<Longrightarrow>
     fst (store_string names key v (m, ok)) f = m f"
  by (auto simp: store_string_def split: json.splits)

text \<open>Once a value of the wrong type has been met, the whole decoding fails.\<close>

lemma decode_strings_error:
  "\<not> snd acc \<Longrightarrow> \<not> snd (decode_strings names j acc)"
proof (cases j)
  case (JObject kvs)
  have "\<not> snd acc \<Longrightarrow> \<not> snd (fold (\<lambda>(k, v). store_string names k v) kvs acc)"
    by (induction kvs arbitrary: acc)
       (auto simp: store_string_def split: option.splits json.splits)
  then show "\<not> snd acc \<Longrightarrow> ?thesis" using JObject by simp
qed (cases acc; simp)+

lemma unmarshal_strings_cases:
  "unmarshal_strings names j = Inr m \<Longrightarrow> j = JNull \<or> (\<exists>kvs. j = JObject kvs)"
  by (cases j) (simp_all add: unmarshal_strings_def checked_def)

end
