(* ===== verification/Vendor.thy ===== *)
theory Vendor
  imports Json
begin

text \<open>
  The external parties of the service: the interface \<open>VendorClient\<close> and the choice of a client
  (\<open>internal/vendor.go\<close>), the stub, the Onfido client (\<open>internal/vendor_onfido.go\<close>) and the
  HTTP sanctions client (\<open>internal/sanctions_http.go\<close>). Requests go through \<open>http_Do\<close>; the
  tracing spans have no effect on the state.
\<close>

section \<open>The interface\<close>

record VendorDocument =
  vd_Type :: string
  vd_Content :: "byte list"

record VendorApplicant =
  va_ApplicationID :: string
  va_UserID :: string
  va_FullName :: string

record VendorReport =
  vr_ApplicationID :: string
  vr_Outcome :: string
  vr_LivenessPassed :: bool
  vr_SanctionsHits :: goint
  vr_Reason :: string

record VendorWebhookEvent =
  we_EventID :: string
  we_Vendor :: string
  we_ApplicationID :: string
  we_Outcome :: string
  we_LivenessPassed :: bool
  we_SanctionsHits :: goint
  we_Reason :: string

record 'e VendorClient =
  vc_CreateApplicant :: "ctx \<Rightarrow> VendorApplicant \<Rightarrow> 'e \<Rightarrow> (go_error + string) \<times> 'e"
  vc_UploadDocument :: "ctx \<Rightarrow> string \<Rightarrow> VendorDocument \<Rightarrow> 'e \<Rightarrow> (go_error + string) \<times> 'e"
  vc_StartLiveness :: "ctx \<Rightarrow> string \<Rightarrow> 'e \<Rightarrow> (go_error + string) \<times> 'e"
  vc_GetReport :: "ctx \<Rightarrow> string \<Rightarrow> 'e \<Rightarrow> (go_error + VendorReport) \<times> 'e"
  vc_ParseWebhook :: "ctx \<Rightarrow> string \<Rightarrow> string \<Rightarrow> 'e \<Rightarrow> (go_error + VendorWebhookEvent) \<times> 'e"
  vc_Name :: string

section \<open>The stub\<close>

text \<open>
  \<open>hex.EncodeToString(h[:8])\<close> is the first sixteen digits of the hexadecimal digest.
\<close>

definition short_hash :: "'e AuditEnv_scheme \<Rightarrow> string \<Rightarrow> string" where
  "short_hash e s = take 16 (sha256_hex (codec e) s)"

definition stub_CreateApplicant ::
  "ctx \<Rightarrow> VendorApplicant \<Rightarrow> 'e AuditEnv_scheme \<Rightarrow> (go_error + string) \<times> 'e AuditEnv_scheme" where
  "stub_CreateApplicant ctx app e =
     (case ctx of
        Some err \<Rightarrow> (Inl err, e)
      | None \<Rightarrow> (Inr (''aplit_'' @ short_hash e (va_ApplicationID app)), e))"

definition stub_UploadDocument ::
  "ctx \<Rightarrow> string \<Rightarrow> VendorDocument \<Rightarrow> 'e AuditEnv_scheme \<Rightarrow> (go_error + string) \<times> 'e AuditEnv_scheme" where
  "stub_UploadDocument ctx vendorApplicantID doc e =
     (case ctx of
        Some err \<Rightarrow> (Inl err, e)
      | None \<Rightarrow> (Inr (''doc_'' @ short_hash e (vendorApplicantID @ vd_Type doc)), e))"

definition stub_StartLiveness ::
  "ctx \<Rightarrow> string \<Rightarrow> 'e AuditEnv_scheme \<Rightarrow> (go_error + string) \<times> 'e AuditEnv_scheme" where
  "stub_StartLiveness ctx vendorApplicantID e =
     (case ctx of
        Some err \<Rightarrow> (Inl err, e)
      | None \<Rightarrow>
          (let (t, e) = time_Now e
           in (Inr (''live_'' @ short_hash e (vendorApplicantID @ rfc3339nano (codec e) t)), e)))"

definition stub_GetReport ::
  "ctx \<Rightarrow> string \<Rightarrow> 'e AuditEnv_scheme \<Rightarrow> (go_error + VendorReport) \<times> 'e AuditEnv_scheme" where
  "stub_GetReport ctx vendorApplicantID e =
     (case ctx of
        Some err \<Rightarrow> (Inl err, e)
      | None \<Rightarrow>
          (Inr \<lparr>vr_ApplicationID = vendorApplicantID, vr_Outcome = ''CLEAR'', vr_LivenessPassed = True,
                vr_SanctionsHits = 0, vr_Reason = ''stub: CLEAR''\<rparr>, e))"

definition stub_ParseWebhook ::
  "Lib \<Rightarrow> ctx \<Rightarrow> string \<Rightarrow> string \<Rightarrow> 'e AuditEnv_scheme \<Rightarrow>
     (go_error + VendorWebhookEvent) \<times> 'e AuditEnv_scheme" where
  "stub_ParseWebhook lib ctx vendor raw e =
     (case ctx of
        Some err \<Rightarrow> (Inl err, e)
      | None \<Rightarrow>
          (let evt = \<lparr>we_EventID = '''', we_Vendor = vendor, we_ApplicationID = '''', we_Outcome = ''CLEAR'',
                      we_LivenessPassed = True, we_SanctionsHits = 0, we_Reason = ''''\<rparr>;
               evt =
                 (case json_parse lib raw of
                    Inl _ \<Rightarrow> evt
                  | Inr j \<Rightarrow>
                      (case unmarshal_strings [''application_id'', ''outcome''] j of
                         Inl _ \<Rightarrow> evt
                       | Inr payload \<Rightarrow>
                           (let evt = evt\<lparr>we_ApplicationID := payload ''application_id''\<rparr>
                            in if payload ''outcome'' \<noteq> ''''
                               then evt\<lparr>we_Outcome := payload ''outcome''\<rparr> else evt)));
               evt = evt\<lparr>we_EventID := ''stub-'' @ short_hash e raw\<rparr>
           in (Inr evt, e)))"

definition StubVendorClient :: "Lib \<Rightarrow> ('e AuditEnv_scheme) VendorClient" where
  "StubVendorClient lib =
     \<lparr>vc_CreateApplicant = stub_CreateApplicant, vc_UploadDocument = stub_UploadDocument,
      vc_StartLiveness = stub_StartLiveness, vc_GetReport = stub_GetReport,
      vc_ParseWebhook = stub_ParseWebhook lib, vc_Name = ''stub''\<rparr>"

section \<open>Onfido\<close>

record OnfidoVendorClient =
  on_base :: string
  on_token :: string
  on_timeout :: duration

definition NewOnfidoVendorClient ::
  "(string \<Rightarrow> duration option) \<Rightarrow> environ \<Rightarrow> string \<Rightarrow> string \<Rightarrow> duration \<Rightarrow> OnfidoVendorClient" where
  "NewOnfidoVendorClient parse env baseURL token timeout =
     (let baseURL = (if baseURL = '''' then env ''KYC_VENDOR_URL'' else baseURL);
          token = (if token = '''' then env ''ONFIDO_API_TOKEN'' else token);
          token = (if token = '''' then env ''KYC_VENDOR_API_KEY'' else token);
          timeout = (if timeout \<le>s 0 then envDurationDefault parse env ''VENDOR_CALL_TIMEOUT'' (30 * second)
                     else timeout)
      in \<lparr>on_base = TrimRightP (\<lambda>c. c = CHR ''/'') baseURL, on_token = token, on_timeout = timeout\<rparr>)"

definition splitFullName :: "string \<Rightarrow> string \<times> string" where
  "splitFullName full =
     (let parts = Fields (TrimSpace full) in
      if length parts = 0 then ('''', '''')
      else if length parts = 1 then (parts ! 0, '''')
      else (Join '' '' (take (length parts - 1) parts), parts ! (length parts - 1)))"

definition onfidoDocType :: "string \<Rightarrow> string" where
  "onfidoDocType t =
     (if t = ''ID_FRONT'' then ''driving_licence''
      else if t = ''ID_BACK'' then ''driving_licence''
      else if t = ''SELFIE'' then ''selfie''
      else if t = ''POA'' then ''utility_bill''
      else ToLower t)"

definition mapOnfidoResult :: "string \<Rightarrow> string \<Rightarrow> string \<times> bool \<times> string" where
  "mapOnfidoResult result subResult =
     (let r = ToUpper result in
      if r = ''CLEAR'' then (''CLEAR'', True, ''clear'')
      else if r = ''CONSIDER'' \<or> r = ''UNIDENTIFIED'' \<or> r = ''RETRY''
      then (''CONSIDER'', True, ''consider:'' @ subResult)
      else if r = ''REJECTED'' \<or> r = ''FAIL'' then (''FAIL'', False, ''rejected:'' @ subResult)
      else if result = '''' then (''CLEAR'', True, ''no-result'')
      else (''CONSIDER'', True, ''unknown:'' @ result))"

text \<open>
  What \<open>doJSON\<close> and \<open>doMultipart\<close> make of the answer: the body of a response below 400. A body
  that cannot be read appears as empty in the error text, since \<open>io.ReadAll\<close>'s error is
  discarded there.
\<close>

definition onfido_answer ::
  "string \<Rightarrow> string \<Rightarrow> go_error + HttpResponse \<Rightarrow> go_error + (go_error + string)" where
  "onfido_answer verb path res =
     (case res of
        Inl err \<Rightarrow> Inl err
      | Inr resp \<Rightarrow>
          if rs_StatusCode resp \<ge> 400
          then Inl (Plain (''onfido '' @ verb @ '' '' @ path @ '': status '' @
                 FormatInt (rs_StatusCode resp) @ '': '' @
                 (case rs_Body resp of Inl _ \<Rightarrow> '''' | Inr raw \<Rightarrow> raw)))
          else Inr (rs_Body resp))"

definition doJSON ::
  "Lib \<Rightarrow> OnfidoVendorClient \<Rightarrow> string \<Rightarrow> string \<Rightarrow> json option \<Rightarrow> 'e NetEnv_scheme \<Rightarrow>
     (go_error + (go_error + string)) \<times> 'e NetEnv_scheme" where
  "doJSON lib c verb path body e =
     (case url_err lib (on_base c @ path) of
        Some err \<Rightarrow> (Inl err, e)
      | None \<Rightarrow>
          (let rq = \<lparr>rq_Method = verb, rq_URL = on_base c @ path,
                     rq_Header =
                       (if body \<noteq> None then [(''Content-Type'', ''application/json'')] else []) @
                       [(''Authorization'', ''Bearer '' @ on_token c)],
                     rq_Body = (case body of None \<Rightarrow> '''' | Some j \<Rightarrow> json_print lib j)\<rparr>;
               (res, e) = http_Do rq e
           in (onfido_answer verb path res, e)))"

definition doMultipart ::
  "Lib \<Rightarrow> OnfidoVendorClient \<Rightarrow> string \<Rightarrow> string \<Rightarrow> string \<Rightarrow> string \<Rightarrow> 'e NetEnv_scheme \<Rightarrow>
     (go_error + (go_error + string)) \<times> 'e NetEnv_scheme" where
  "doMultipart lib c verb path body contentType e =
     (case url_err lib (on_base c @ path) of
        Some err \<Rightarrow> (Inl err, e)
      | None \<Rightarrow>
          (let rq = \<lparr>rq_Method = verb, rq_URL = on_base c @ path,
                     rq_Header = [(''Content-Type'', contentType), (''Authorization'', ''Bearer '' @ on_token c)],
                     rq_Body = body\<rparr>;
               (res, e) = http_Do rq e
           in (onfido_answer verb path res, e)))"

text \<open>\<open>decodeJSONReader\<close> into a struct of strings: reading may fail, then parsing, then types.\<close>

definition decodeJSONReader :: "Lib \<Rightarrow> string list \<Rightarrow> go_error + string \<Rightarrow> go_error + strings" where
  "decodeJSONReader lib names body =
     (case body of
        Inl err \<Rightarrow> Inl err
      | Inr raw \<Rightarrow> (case json_first lib raw of Inl err \<Rightarrow> Inl err | Inr j \<Rightarrow> unmarshal_strings names j))"

text \<open>The shared end of the three calls that return an identifier.\<close>

definition onfido_id :: "Lib \<Rightarrow> string \<Rightarrow> string list \<Rightarrow> go_error + (go_error + string) \<Rightarrow> go_error + string" where
  "onfido_id lib what names answer =
     (case answer of
        Inl err \<Rightarrow> Inl err
      | Inr body \<Rightarrow>
          (case decodeJSONReader lib names body of
             Inl err \<Rightarrow> Inl (Plain (''onfido '' @ what @ '': '' @ error_text err))
           | Inr resp \<Rightarrow>
               if resp ''id'' = '''' then Inl (Plain (''onfido '' @ what @ '': empty id''))
               else Inr (resp ''id'')))"

definition onfido_CreateApplicant ::
  "Lib \<Rightarrow> environ \<Rightarrow> OnfidoVendorClient \<Rightarrow> ctx \<Rightarrow> VendorApplicant \<Rightarrow> 'e NetEnv_scheme \<Rightarrow>
     (go_error + string) \<times> 'e NetEnv_scheme" where
  "onfido_CreateApplicant lib env c ctx app e =
     (case ctx of
        Some err \<Rightarrow> (Inl err, e)
      | None \<Rightarrow>
          (let (first, last) = splitFullName (va_FullName app);
               payload = JObject [(''email'', JString (env ''APPLICANT_EMAIL'')),
                                  (''first_name'', JString first), (''last_name'', JString last)];
               (answer, e) = doJSON lib c ''POST'' ''/v3.6/applicants'' (Some payload) e
           in (onfido_id lib ''create applicant'' [''id''] answer, e)))"

definition onfido_UploadDocument ::
  "Lib \<Rightarrow> OnfidoVendorClient \<Rightarrow> ctx \<Rightarrow> string \<Rightarrow> VendorDocument \<Rightarrow> 'e NetEnv_scheme \<Rightarrow>
     (go_error + string) \<times> 'e NetEnv_scheme" where
  "onfido_UploadDocument lib c ctx applicantID doc e =
     (case ctx of
        Some err \<Rightarrow> (Inl err, e)
      | None \<Rightarrow>
          (let (body, contentType) = multipart lib (onfidoDocType (vd_Type doc)) (vd_Content doc);
               (answer, e) = doMultipart lib c ''POST''
                 (''/v3.6/applicants/'' @ applicantID @ ''/documents'') body contentType e
           in (onfido_id lib ''upload document'' [''id''] answer, e)))"

definition onfido_StartLiveness ::
  "Lib \<Rightarrow> OnfidoVendorClient \<Rightarrow> ctx \<Rightarrow> string \<Rightarrow> 'e NetEnv_scheme \<Rightarrow>
     (go_error + string) \<times> 'e NetEnv_scheme" where
  "onfido_StartLiveness lib c ctx applicantID e =
     (case ctx of
        Some err \<Rightarrow> (Inl err, e)
      | None \<Rightarrow>
          (let (answer, e) = doJSON lib c ''POST''
                 (''/v3.6/applicants/'' @ applicantID @ ''/liveness_checks'')
                 (Some (JObject [(''applicant_id'', JString applicantID)])) e
           in (onfido_id lib ''start liveness'' [''id'', ''result''] answer, e)))"

definition onfido_checks :: "Lib \<Rightarrow> go_error + string \<Rightarrow> go_error + strings list" where
  "onfido_checks lib body =
     (case body of
        Inl err \<Rightarrow> Inl err
      | Inr raw \<Rightarrow>
          (case json_first lib raw of
             Inl err \<Rightarrow> Inl err
           | Inr j \<Rightarrow>
               checked (decode_list
                 (\<lambda>v. decode_strings [''id'', ''result'', ''report_ids'', ''sub_result''] v (no_strings, True))
                 ''data'' j)))"

definition onfido_GetReport ::
  "Lib \<Rightarrow> OnfidoVendorClient \<Rightarrow> ctx \<Rightarrow> string \<Rightarrow> 'e NetEnv_scheme \<Rightarrow>
     (go_error + VendorReport) \<times> 'e NetEnv_scheme" where
  "onfido_GetReport lib c ctx applicantID e =
     (case ctx of
        Some err \<Rightarrow> (Inl err, e)
      | None \<Rightarrow>
          (case doJSON lib c ''GET'' (''/v3.6/applicants/'' @ applicantID @ ''/checks'') None e of
             (Inl err, e) \<Rightarrow> (Inl err, e)
           | (Inr body, e) \<Rightarrow>
               (case onfido_checks lib body of
                  Inl err \<Rightarrow> (Inl (Plain (''onfido get report: '' @ error_text err)), e)
                | Inr data \<Rightarrow>
                    (let (outcome, liveness, reason) =
                           (if length data > 0
                            then (let chk = data ! (length data - 1)
                                  in mapOnfidoResult (chk ''result'') (chk ''sub_result''))
                            else (''CLEAR'', True, ''no checks''))
                     in (Inr \<lparr>vr_ApplicationID = applicantID, vr_Outcome = outcome,
                              vr_LivenessPassed = liveness, vr_SanctionsHits = 0, vr_Reason = reason\<rparr>, e)))))"

definition onfido_payload_fields :: "string list" where
  "onfido_payload_fields = [''action'', ''object'', ''resource'', ''status'', ''completed_at'', ''applicant_id'']"

definition onfido_ParseWebhook ::
  "Lib \<Rightarrow> ctx \<Rightarrow> string \<Rightarrow> string \<Rightarrow> 'e \<Rightarrow> (go_error + VendorWebhookEvent) \<times> 'e" where
  "onfido_ParseWebhook lib ctx vendor raw e =
     (case ctx of
        Some err \<Rightarrow> (Inl err, e)
      | None \<Rightarrow>
          (case (case json_parse lib raw of
                   Inl err \<Rightarrow> Inl err
                 | Inr j \<Rightarrow> checked (decode_nested ''payload'' onfido_payload_fields j (no_strings, True))) of
             Inl err \<Rightarrow> (Inl (Plain (''onfido parse webhook: '' @ error_text err)), e)
           | Inr p \<Rightarrow>
               (let (outcome, liveness, _) = mapOnfidoResult (p ''status'') '''';
                    evt = \<lparr>we_EventID = p ''resource'', we_Vendor = vendor,
                           we_ApplicationID = p ''applicant_id'', we_Outcome = outcome,
                           we_LivenessPassed = liveness, we_SanctionsHits = 0,
                           we_Reason = p ''action'' @ '':'' @ p ''resource''\<rparr>;
                    evt = (if we_EventID evt = '''' then evt\<lparr>we_EventID := ''onfido-'' @ p ''action''\<rparr> else evt)
                in (Inr evt, e))))"

definition OnfidoClient :: "Lib \<Rightarrow> environ \<Rightarrow> OnfidoVendorClient \<Rightarrow> ('e NetEnv_scheme) VendorClient" where
  "OnfidoClient lib env c =
     \<lparr>vc_CreateApplicant = onfido_CreateApplicant lib env c, vc_UploadDocument = onfido_UploadDocument lib c,
      vc_StartLiveness = onfido_StartLiveness lib c, vc_GetReport = onfido_GetReport lib c,
      vc_ParseWebhook = onfido_ParseWebhook lib, vc_Name = ''onfido''\<rparr>"

section \<open>Choosing the vendor\<close>

datatype vendor_choice = UseStub | UseOnfido string string

definition NewVendorClientWithMode :: "environ \<Rightarrow> bool \<Rightarrow> go_error + vendor_choice" where
  "NewVendorClientWithMode env dev =
     (let provider = (if env ''VENDOR_PROVIDER'' = '''' then ''stub'' else env ''VENDOR_PROVIDER'') in
      if provider = ''onfido'' then
        (let base = (if env ''KYC_VENDOR_URL'' = '''' then env ''LIVENESS_VENDOR_URL'' else env ''KYC_VENDOR_URL'');
             token = (if env ''ONFIDO_API_TOKEN'' = '''' then env ''KYC_VENDOR_API_KEY'' else env ''ONFIDO_API_TOKEN'')
         in if base = '''' \<or> token = '''' then
              (if dev then Inr UseStub
               else Inl (Plain (''onfido provider requires KYC_VENDOR_URL and ONFIDO_API_TOKEN (or KYC_VENDOR_API_KEY) '' @
                      [CHR 0xE2, CHR 0x80, CHR 0x94] @ '' set DEV_MODE=1 for local dev'')))
            else Inr (UseOnfido base token))
      else if provider = ''stub'' \<or> provider = '''' then
        (if \<not> dev then
           (if env ''KYC_VENDOR_URL'' = '''' \<and> env ''LIVENESS_VENDOR_URL'' = ''''
            then Inl (Plain (''KYC_VENDOR_URL (or LIVENESS_VENDOR_URL) required in production mode; set '' @
                   ''VENDOR_PROVIDER=onfido with ONFIDO_API_TOKEN, or set DEV_MODE=1 for local dev''))
            else Inr UseStub)
         else Inr UseStub)
      else Inl (Plain (''unknown vendor provider: '' @ provider)))"

definition NewVendorClient :: "environ \<Rightarrow> go_error + vendor_choice" where
  "NewVendorClient env = NewVendorClientWithMode env (env ''DEV_MODE'' = ''1'')"

definition vendor_client ::
  "Lib \<Rightarrow> (string \<Rightarrow> duration option) \<Rightarrow> environ \<Rightarrow> vendor_choice \<Rightarrow> ('e NetEnv_scheme) VendorClient" where
  "vendor_client lib parse env choice =
     (case choice of
        UseStub \<Rightarrow> StubVendorClient lib
      | UseOnfido base token \<Rightarrow> OnfidoClient lib env (NewOnfidoVendorClient parse env base token 0))"

section \<open>The sanctions list service\<close>

text \<open>\<open>url.QueryEscape\<close>, byte by byte.\<close>

definition is_unreserved :: "char \<Rightarrow> bool" where
  "is_unreserved c \<longleftrightarrow>
     (let n = (of_char c :: nat)
      in 48 \<le> n \<and> n \<le> 57 \<or> 65 \<le> n \<and> n \<le> 90 \<or> 97 \<le> n \<and> n \<le> 122 \<or>
         c = CHR ''-'' \<or> c = CHR ''_'' \<or> c = CHR ''.'' \<or> c = CHR ''~'')"

definition hex_digit :: "nat \<Rightarrow> char" where
  "hex_digit d = (if d < 10 then char_of (48 + d) else char_of (55 + d))"

definition QueryEscape :: "string \<Rightarrow> string" where
  "QueryEscape s =
     concat (map (\<lambda>c. if is_unreserved c then [c] else if c = CHR '' '' then ''+''
                      else [CHR ''%'', hex_digit ((of_char c :: nat) div 16), hex_digit ((of_char c :: nat) mod 16)]) s)"

record HTTPSanctionsClient =
  sc_base :: string
  sc_apiKey :: string
  sc_timeout :: duration

definition NewHTTPSanctionsClient ::
  "(string \<Rightarrow> duration option) \<Rightarrow> environ \<Rightarrow> string \<Rightarrow> string \<Rightarrow> duration \<Rightarrow> HTTPSanctionsClient" where
  "NewHTTPSanctionsClient parse env baseURL apiKey timeout =
     \<lparr>sc_base = TrimRightP (\<lambda>c. c = CHR ''/'')
        (if baseURL = '''' then env ''SANCTIONS_LIST_URL'' else baseURL),
      sc_apiKey = (if apiKey = '''' then env ''KYC_VENDOR_API_KEY'' else apiKey),
      sc_timeout = (if timeout \<le>s 0 then envDurationDefault parse env ''VENDOR_CALL_TIMEOUT'' (30 * second)
                    else timeout)\<rparr>"

text \<open>Decoding one hit: two strings and a number.\<close>

definition store_score :: "string \<Rightarrow> json \<Rightarrow> float64 \<times> bool \<Rightarrow> float64 \<times> bool" where
  "store_score key v =
     (\<lambda>(x, ok).
       if key_match ''score'' key
       then (case v of JNum y \<Rightarrow> (y, ok) | JNull \<Rightarrow> (x, ok) | _ \<Rightarrow> (x, False))
       else (x, ok))"

definition decode_hit :: "json \<Rightarrow> ScreeningHit \<times> bool" where
  "decode_hit j =
     (let (m, ok) = decode_strings [''list'', ''matched_name''] j (no_strings, True);
          (score, ok') = (case j of JObject kvs \<Rightarrow> fold (\<lambda>(k, v). store_score k v) kvs (0, True) | _ \<Rightarrow> (0, True))
      in (\<lparr>sh_List = m ''list'', sh_MatchedName = m ''matched_name'', sh_Score = score\<rparr>, ok \<and> ok'))"

definition http_Screen :: "Lib \<Rightarrow> HTTPSanctionsClient \<Rightarrow> ('e NetEnv_scheme) ScreeningClient" where
  "http_Screen lib c ctx fullName e =
     (case ctx of
        Some err \<Rightarrow> (Inl err, e)
      | None \<Rightarrow>
          (let u = sc_base c @ ''/search?name='' @ QueryEscape fullName in
           case url_err lib u of
             Some err \<Rightarrow> (Inl err, e)
           | None \<Rightarrow>
               (let rq = \<lparr>rq_Method = ''GET'', rq_URL = u,
                          rq_Header = (if sc_apiKey c \<noteq> '''' then [(''Authorization'', ''Bearer '' @ sc_apiKey c)] else []),
                          rq_Body = ''''\<rparr>
                in (case http_Do rq e of
                      (Inl err, e) \<Rightarrow> (Inl err, e)
                    | (Inr resp, e) \<Rightarrow>
                        (case rs_Body resp of
                           Inl err \<Rightarrow> (Inl (Plain (''sanctions read body: '' @ error_text err)), e)
                         | Inr raw \<Rightarrow>
                             if rs_StatusCode resp \<ge> 400
                             then (Inl (Plain (''sanctions search: status '' @ FormatInt (rs_StatusCode resp) @ '': '' @ raw)), e)
                             else (case (case json_parse lib raw of
                                           Inl err \<Rightarrow> Inl err
                                         | Inr j \<Rightarrow> checked (decode_list decode_hit ''hits'' j)) of
                                     Inl err \<Rightarrow> (Inl (Plain (''sanctions decode: '' @ error_text err)), e)
                                   | Inr hs \<Rightarrow> (Inr hs, e)))))))"

text \<open>\<open>NewScreeningClientForMode\<close>; \<open>newServices\<close> makes its own choice, in \<open>Server\<close>.\<close>

definition NewScreeningClientForMode ::
  "Lib \<Rightarrow> (string \<Rightarrow> duration option) \<Rightarrow> environ \<Rightarrow> bool \<Rightarrow> ('e NetEnv_scheme) ScreeningClient" where
  "NewScreeningClientForMode lib parse env dev =
     (if env ''SANCTIONS_LIST_URL'' \<noteq> ''''
      then http_Screen lib (NewHTTPSanctionsClient parse env (env ''SANCTIONS_LIST_URL'') '''' 0)
      else if dev then mem_Screen NewInMemoryScreeningClient
      else mem_Screen NewInMemoryScreeningClient)"

section \<open>The contract of the external parties\<close>

text \<open>Whatever a vendor call does, it records no transition and leaves the log as it is or longer.\<close>

locale vendor_contract =
  fixes V :: "('x AuditEnv_scheme) VendorClient"
  assumes vc_create_logs: "vc_CreateApplicant V ctx app e = (r1, e') \<Longrightarrow> logs None e e'"
    and vc_upload_logs: "vc_UploadDocument V ctx i doc e = (r1, e') \<Longrightarrow> logs None e e'"
    and vc_liveness_logs: "vc_StartLiveness V ctx i e = (r1, e') \<Longrightarrow> logs None e e'"
    and vc_report_logs: "vc_GetReport V ctx i e = (r2, e') \<Longrightarrow> logs None e e'"
    and vc_webhook_logs: "vc_ParseWebhook V ctx v raw e = (r3, e') \<Longrightarrow> logs None e e'"

interpretation stub_vendor: vendor_contract "StubVendorClient lib" for lib
  by unfold_locales
     (auto simp: StubVendorClient_def stub_CreateApplicant_def stub_UploadDocument_def
       stub_StartLiveness_def stub_GetReport_def stub_ParseWebhook_def time_Now_def Let_def
       split: option.splits)

lemma logs_doJSON: "doJSON lib c verb path body e = (r, e') \<Longrightarrow> logs None e e'"
  by (auto simp: doJSON_def Let_def split: option.splits prod.splits dest: logs_http_Do)

lemma logs_doMultipart: "doMultipart lib c verb path body ct e = (r, e') \<Longrightarrow> logs None e e'"
  by (auto simp: doMultipart_def Let_def split: option.splits prod.splits dest: logs_http_Do)

interpretation onfido_vendor: vendor_contract "OnfidoClient lib env c" for lib env c
  by unfold_locales
     (auto simp: OnfidoClient_def onfido_CreateApplicant_def onfido_UploadDocument_def
       onfido_StartLiveness_def onfido_GetReport_def onfido_ParseWebhook_def Let_def
       split: option.splits prod.splits sum.splits if_splits dest: logs_doJSON logs_doMultipart)

interpretation http_screen: screening_client "http_Screen lib c" for lib c
  by unfold_locales
     (auto simp: http_Screen_def Let_def split: option.splits prod.splits sum.splits if_splits
       dest: logs_http_Do)

section \<open>Facts about the Onfido adapter\<close>

lemma ToUpper_empty: "ToUpper [] = []"
  by (simp add: ToUpper_def)

text \<open>
  The Onfido adapter gives one of three outcomes, for any result text: \<open>FAIL\<close> exactly for
  \<open>REJECTED\<close> and \<open>FAIL\<close> (in any case), which is also exactly when liveness has not passed, and
  \<open>CLEAR\<close> exactly for \<open>CLEAR\<close> or a missing result; all others are \<open>CONSIDER\<close>.
\<close>

theorem mapOnfidoResult_cases:
  "mapOnfidoResult result sub = (outcome, liveness, reason) \<Longrightarrow>
     outcome \<in> {''CLEAR'', ''CONSIDER'', ''FAIL''} \<and> (liveness \<longleftrightarrow> outcome \<noteq> ''FAIL'') \<and>
     (outcome = ''FAIL'' \<longleftrightarrow> ToUpper result \<in> {''REJECTED'', ''FAIL''}) \<and>
     (outcome = ''CLEAR'' \<longleftrightarrow> ToUpper result = ''CLEAR'' \<or> result = '''')"
proof -
  assume m: "mapOnfidoResult result sub = (outcome, liveness, reason)"
  have "case mapOnfidoResult result sub of (outcome, liveness, reason) \<Rightarrow>
     outcome \<in> {''CLEAR'', ''CONSIDER'', ''FAIL''} \<and> (liveness \<longleftrightarrow> outcome \<noteq> ''FAIL'') \<and>
     (outcome = ''FAIL'' \<longleftrightarrow> ToUpper result \<in> {''REJECTED'', ''FAIL''}) \<and>
     (outcome = ''CLEAR'' \<longleftrightarrow> ToUpper result = ''CLEAR'' \<or> result = '''')"
    unfolding mapOnfidoResult_def Let_def by (simp add: ToUpper_empty split: if_split)
  then show ?thesis unfolding m by (simp only: prod.case)
qed

text \<open>Names: words that are not empty and have no space in them survive joining and splitting.\<close>

definition word :: "string \<Rightarrow> bool" where
  "word w \<longleftrightarrow> w \<noteq> [] \<and> (\<forall>c \<in> set w. \<not> is_space c)"

lemma Fields_words: "w \<in> set (Fields s) \<Longrightarrow> word w"
proof (induction s rule: Fields.induct)
  case (2 c s)
  show ?case
  proof (cases "is_space c")
    case True
    with 2 show ?thesis by simp
  next
    case False
    then have "w = c # takeWhile (\<lambda>d. \<not> is_space d) s \<or> w \<in> set (Fields (dropWhile (\<lambda>d. \<not> is_space d) s))"
      using "2.prems" by simp
    then show ?thesis
    proof
      assume "w = c # takeWhile (\<lambda>d. \<not> is_space d) s"
      with False show ?thesis by (auto simp: word_def dest: set_takeWhileD)
    next
      assume "w \<in> set (Fields (dropWhile (\<lambda>d. \<not> is_space d) s))"
      with "2.IH"(2) False show ?thesis by blast
    qed
  qed
qed simp

lemma Fields_append_word:
  assumes "word w" and "b = [] \<or> is_space (hd b)"
  shows "Fields (w @ b) = w # Fields b"
proof -
  obtain c v where w: "w = c # v" using assms(1) by (cases w) (auto simp: word_def)
  have "takeWhile (\<lambda>d. \<not> is_space d) (v @ b) = v" "dropWhile (\<lambda>d. \<not> is_space d) (v @ b) = b"
    using assms w by (cases b; force simp: word_def takeWhile_append2 dropWhile_append2)+
  then show ?thesis using assms(1) w by (simp add: word_def)
qed

lemma Fields_space: "Fields (CHR '' '' # s) = Fields s"
  by (simp add: is_space_def)

lemma Fields_Join: "list_all word ws \<Longrightarrow> Fields (Join '' '' ws) = ws"
proof (induction "'' ''" ws rule: Join.induct)
  case (2 w)
  then show ?case using Fields_append_word [of w "[]"] by simp
next
  case (3 w v ws)
  have "Fields (w @ '' '' @ Join '' '' (v # ws)) = w # Fields ('' '' @ Join '' '' (v # ws))"
    using 3 by (intro Fields_append_word) (auto simp: is_space_def)
  also have "Fields ('' '' @ Join '' '' (v # ws)) = Fields (Join '' '' (v # ws))"
    using Fields_space by simp
  finally show ?case using 3 by simp
qed simp

lemma Join_snoc: "ws \<noteq> [] \<Longrightarrow> Join sep (ws @ [w]) = Join sep ws @ sep @ w"
proof (induction ws)
  case (Cons v ws)
  then show ?case by (cases ws) auto
qed simp

text \<open>
  Splitting a name loses nothing but spacing: when a full name has a last name, the first and
  the last name joined by a space have the same words, in the same order, as the full name, and the
  last name is a single word.
\<close>

theorem splitFullName_join:
  assumes "splitFullName full = (given, family)" and "family \<noteq> ''''"
  shows "Fields (given @ '' '' @ family) = Fields (TrimSpace full) \<and> word family"
proof -
  define parts where "parts = Fields (TrimSpace full)"
  have len: "2 \<le> length parts"
  proof (rule ccontr)
    assume "\<not> 2 \<le> length parts"
    then consider "length parts = 0" | "length parts = 1" by linarith
    then show False
    proof cases
      case 1
      with assms show False by (simp add: splitFullName_def parts_def [symmetric])
    next
      case 2
      then obtain x where "parts = [x]" by (auto simp: length_Suc_conv)
      with assms show False by (simp add: splitFullName_def parts_def [symmetric])
    qed
  qed
  then obtain ws w where ws: "parts = ws @ [w]" "1 \<le> length ws"
    by (cases parts rule: rev_cases) auto
  then have "ws \<noteq> []" by auto
  have split: "given = Join '' '' ws" "family = w"
    using assms(1) ws \<open>ws \<noteq> []\<close> by (auto simp: splitFullName_def parts_def [symmetric] Let_def)
  have words: "list_all word parts"
    unfolding parts_def list_all_iff by (auto dest: Fields_words)
  then have "Fields (Join '' '' parts) = parts" by (rule Fields_Join)
  moreover have "Join '' '' parts = given @ '' '' @ family"
    using ws split \<open>ws \<noteq> []\<close> by (simp add: Join_snoc)
  ultimately show ?thesis using words ws split by (simp add: parts_def)
qed

section \<open>Facts about the choice of clients\<close>

lemma NewVendorClientWithMode_stub:
  "NewVendorClientWithMode env False = Inr UseStub \<Longrightarrow>
     env ''KYC_VENDOR_URL'' \<noteq> '''' \<or> env ''LIVENESS_VENDOR_URL'' \<noteq> ''''"
  by (auto simp: NewVendorClientWithMode_def Let_def split: if_splits)

section \<open>Examples\<close>

theorem mapOnfidoResult_cases_witness:
  "mapOnfidoResult ''rejected'' ''selfie'' = (''FAIL'', False, ''rejected:selfie'') \<and>
   ToUpper ''rejected'' \<in> {''REJECTED'', ''FAIL''}"
proof -
  have m: "mapOnfidoResult ''rejected'' ''selfie'' = (''FAIL'', False, ''rejected:selfie'')"
    by code_simp
  with mapOnfidoResult_cases [OF m] show ?thesis by simp
qed

theorem splitFullName_join_witness:
  "\<exists>g f. splitFullName '' Ann  Mary Lee'' = (g, f) \<and> f = ''Lee'' \<and> Fields (g @ '' '' @ f) = [''Ann'', ''Mary'', ''Lee'']"
proof -
  have s: "splitFullName '' Ann  Mary Lee'' = (''Ann Mary'', ''Lee'')" and
    t: "Fields (TrimSpace '' Ann  Mary Lee'') = [''Ann'', ''Mary'', ''Lee'']"
    by (simp_all add: splitFullName_def TrimSpace_def TrimRightP_def is_space_def)
  have "Fields (''Ann Mary'' @ '' '' @ ''Lee'') = [''Ann'', ''Mary'', ''Lee'']"
    using splitFullName_join [OF s] t by simp
  with s show ?thesis by blast
qed

end
