(* ===== verification/Webhooks.thy ===== *)
theory Webhooks
  imports Vendor
begin

text \<open>
  \<open>internal/webhooks.go\<close>: the store of event identifiers, the verification of a webhook's
  signature and time stamp, and the service that applies a verified event to the state machine.
  HMAC-SHA256 is the parameter \<open>hmac_hex\<close>; the JSON parser is reached through the vendor client.
\<close>

section \<open>The store of event identifiers\<close>

record WebhookStore =
  seen :: "string \<rightharpoonup> unit"

definition NewWebhookStore :: WebhookStore where
  "NewWebhookStore = \<lparr>seen = Map.empty\<rparr>"

definition Seen :: "string \<Rightarrow> WebhookStore \<Rightarrow> bool \<times> WebhookStore" where
  "Seen eventID w =
     (if eventID = '''' then (False, w)
      else if seen w eventID \<noteq> None then (True, w)
      else (False, w\<lparr>seen := (seen w)(eventID \<mapsto> ())\<rparr>))"

section \<open>Verification\<close>

definition errBadSignature :: go_error where
  "errBadSignature = Plain ''invalid webhook signature''"

definition errStaleTs :: go_error where
  "errStaleTs = Plain ''stale webhook timestamp''"

definition errMissingTs :: go_error where
  "errMissingTs = Plain ''missing webhook timestamp''"

definition errMissingSig :: go_error where
  "errMissingSig = Plain ''missing webhook signature''"

text \<open>The loop over the comma-separated parts of a \<open>t=...,v1=...\<close> header.\<close>

fun sig_parts :: "string list \<Rightarrow> string \<Rightarrow> string \<Rightarrow> string \<times> string" where
  "sig_parts [] ts sigPart = (ts, sigPart)"
| "sig_parts (kv # kvs) ts sigPart =
     (case SplitN2 (CHR ''='') kv of
        [k, v] \<Rightarrow>
          if k = ''t'' then sig_parts kvs v sigPart
          else if k = ''v1'' then sig_parts kvs ts v
          else sig_parts kvs ts sigPart
      | _ \<Rightarrow> sig_parts kvs ts sigPart)"

definition webhook_parts :: "string \<Rightarrow> string \<Rightarrow> string \<times> string" where
  "webhook_parts sigHeader tsHeader =
     (if Contains sigHeader '','' \<and> Contains sigHeader ''t=''
      then sig_parts (Split (CHR '','') sigHeader) tsHeader ''''
      else (tsHeader,
            if length sigHeader > 3 \<and> take 3 sigHeader = ''v1='' then drop 3 sigHeader else sigHeader))"

text \<open>\<open>abs\<close> on \<open>int64\<close>: the negation wraps.\<close>

definition abs64 :: "goint \<Rightarrow> goint" where
  "abs64 x = (if x <s 0 then - x else x)"

text \<open>\<open>Time.Unix\<close>: seconds since 1970, as an \<open>int64\<close>.\<close>

definition Unix :: "time \<Rightarrow> goint" where
  "Unix t = word_of_int (t div 1000000000 - 62135596800)"

text \<open>
  \<open>int64(tolerance.Seconds())\<close>, exact for whole seconds; the service's tolerance is 300 s.
\<close>

definition Seconds :: "duration \<Rightarrow> goint" where
  "Seconds d = word_of_int (if 0 \<le> sint d then sint d div 1000000000 else - (- sint d div 1000000000))"

definition signed_message :: "int \<Rightarrow> string \<Rightarrow> string" where
  "signed_message ts raw = FormatInt ts @ ''.'' @ raw"

definition VerifyWebhook ::
  "Lib \<Rightarrow> string \<Rightarrow> string \<Rightarrow> string \<Rightarrow> string \<Rightarrow> duration \<Rightarrow> 'e World_scheme \<Rightarrow>
     go_error option \<times> 'e World_scheme" where
  "VerifyWebhook lib raw sigHeader tsHeader secret tolerance e =
     (let secret = (if secret = '''' then ''dev-webhook-secret'' else secret) in
      if sigHeader = '''' then (Some errMissingSig, e)
      else
        (let (ts, sig) = webhook_parts sigHeader tsHeader in
         if ts = '''' then (Some errMissingTs, e)
         else if sig = '''' then (Some errMissingSig, e)
         else (case ParseInt 64 (TrimSpace ts) of
                 None \<Rightarrow> (Some errStaleTs, e)
               | Some tsInt \<Rightarrow>
                   (let (t, e) = time_Now e in
                    if Seconds tolerance <s abs64 (Unix t - word_of_int tsInt) then (Some errStaleTs, e)
                    else
                      (let expected = hmac_hex lib secret (signed_message tsInt raw) in
                       if expected \<noteq> TrimSpace sig then (Some errBadSignature, e) else (None, e))))))"

section \<open>The service\<close>

definition reconcileOutcomeToState :: "string \<Rightarrow> State \<Rightarrow> State" where
  "reconcileOutcomeToState outcome current =
     (if outcome = ''CLEAR'' \<or> outcome = ''PASS'' \<or> outcome = ''APPROVED'' then
        (if CanTransition current StatePass then StatePass
         else if CanTransition current StateVendorDecision then StateVendorDecision
         else '''')
      else if outcome = ''FAIL'' \<or> outcome = ''REJECTED'' then
        (if CanTransition current StateFail then StateFail else '''')
      else if outcome = ''CONSIDER'' \<or> outcome = ''REVIEW'' \<or> outcome = ''MANUAL_REVIEW''
      then StateManualReview
      else if outcome = ''LIVENESS_PASS'' then
        (if CanTransition current StateLivenessPassed then StateLivenessPassed else '''')
      else '''')"

record IngestResult =
  Accepted :: bool
  Duplicate :: bool
  EventID :: string
  Reason :: string

record WebhookService =
  ws_audited :: bool
  ws_secret :: string
  ws_tolerance :: duration

definition NewWebhookService :: "environ \<Rightarrow> bool \<Rightarrow> WebhookService" where
  "NewWebhookService env audited =
     \<lparr>ws_audited = audited,
      ws_secret = (if env ''WEBHOOK_SECRET'' = '''' then ''dev-webhook-secret'' else env ''WEBHOOK_SECRET''),
      ws_tolerance = 300 * second\<rparr>"

definition record_if ::
  "bool \<Rightarrow> string \<Rightarrow> string \<Rightarrow> string \<Rightarrow> payload \<Rightarrow> 'e AuditEnv_scheme \<Rightarrow> 'e AuditEnv_scheme" where
  "record_if audited aggregate action actor payload e =
     (if audited then Record aggregate action actor payload e else e)"

text \<open>The part of \<open>Ingest\<close> that applies a parsed event to the application it names.\<close>

definition reconcile ::
  "('r, 'e AuditEnv_scheme) ApplicationRepo \<Rightarrow> bool \<Rightarrow> string \<Rightarrow> string \<Rightarrow> VendorWebhookEvent \<Rightarrow>
     'r \<times> 'e AuditEnv_scheme \<Rightarrow> 'r \<times> 'e AuditEnv_scheme" where
  "reconcile R audited vendor eid evt =
     (\<lambda>(r, e).
       if we_ApplicationID evt = '''' then (r, e)
       else (case repo_Get R (we_ApplicationID evt) (r, e) of
               (Inl _, r, e) \<Rightarrow> (r, e)
             | (Inr app, r, e) \<Rightarrow>
                 (let to = reconcileOutcomeToState (we_Outcome evt) (app_State app) in
                  if to \<noteq> '''' \<and> CanTransition (app_State app) to
                  then (case repo_UpdateState R (app_ID app) (app_Version app) to
                               (''webhook:'' @ vendor) (''webhook event '' @ eid) (r, e) of
                          (Inl _, r, e) \<Rightarrow> (r, e)
                        | (Inr _, r, e) \<Rightarrow>
                            (r, record_if audited (app_ID app) ''webhook_advance'' vendor
                                  [''event_id'' \<mapsto> AString eid, ''from'' \<mapsto> AString (app_State app),
                                   ''to'' \<mapsto> AString to] e))
                  else (r, e))))"

definition Ingest ::
  "Lib \<Rightarrow> ('r, 'e AuditEnv_scheme) ApplicationRepo \<Rightarrow> ('e AuditEnv_scheme) VendorClient \<Rightarrow> WebhookService \<Rightarrow>
     ctx \<Rightarrow> string \<Rightarrow> string \<Rightarrow> string \<Rightarrow> string \<Rightarrow> string \<Rightarrow>
     'r \<times> WebhookStore \<times> 'e AuditEnv_scheme \<Rightarrow> IngestResult \<times> 'r \<times> WebhookStore \<times> 'e AuditEnv_scheme"
where
  "Ingest lib R V s ctx vendor raw sigHeader tsHeader eventID =
     (\<lambda>(r, w, e).
       case VerifyWebhook lib raw sigHeader tsHeader (ws_secret s) (ws_tolerance s) e of
         (Some err, e) \<Rightarrow>
           (\<lparr>Accepted = False, Duplicate = False, EventID = '''', Reason = error_text err\<rparr>, r, w,
            record_if (ws_audited s) vendor ''webhook_reject'' ''system''
              [''reason'' \<mapsto> AString (error_text err)] e)
       | (None, e) \<Rightarrow>
           (let eid = (if eventID = '''' then ''no-id'' else eventID);
                (dup, w) = Seen eid w
            in if dup
               then (\<lparr>Accepted = False, Duplicate = True, EventID = eid, Reason = ''duplicate''\<rparr>, r, w,
                     record_if (ws_audited s) vendor ''webhook_duplicate'' ''system''
                       [''event_id'' \<mapsto> AString eid] e)
               else (case vc_ParseWebhook V ctx vendor raw e of
                       (Inl err, e) \<Rightarrow>
                         (\<lparr>Accepted = False, Duplicate = False, EventID = '''',
                           Reason = ''parse: '' @ error_text err\<rparr>, r, w,
                          record_if (ws_audited s) vendor ''webhook_reject'' ''system''
                            [''reason'' \<mapsto> AString (''parse: '' @ error_text err)] e)
                     | (Inr evt, e) \<Rightarrow>
                         (let (r, e) = reconcile R (ws_audited s) vendor eid evt (r, e)
                          in (\<lparr>Accepted = True, Duplicate = False, EventID = eid, Reason = ''''\<rparr>, r, w,
                              record_if (ws_audited s) vendor ''webhook_accept'' ''system''
                                [''event_id'' \<mapsto> AString eid] e)))))"

section \<open>Facts about verification\<close>

text \<open>Exactly when a webhook is accepted.\<close>

lemma VerifyWebhook_None:
  "VerifyWebhook lib raw sigHeader tsHeader secret tolerance e = (None, e') \<longleftrightarrow>
     sigHeader \<noteq> '''' \<and> e' = e\<lparr>ticks := Suc (ticks e)\<rparr> \<and>
     (\<exists>ts sig tsInt. webhook_parts sigHeader tsHeader = (ts, sig) \<and> ts \<noteq> '''' \<and> sig \<noteq> '''' \<and>
        ParseInt 64 (TrimSpace ts) = Some tsInt \<and>
        \<not> Seconds tolerance <s abs64 (Unix (clock e (ticks e)) - word_of_int tsInt) \<and>
        TrimSpace sig = hmac_hex lib (if secret = '''' then ''dev-webhook-secret'' else secret)
                          (signed_message tsInt raw))"
  by (auto simp: VerifyWebhook_def Let_def time_Now_def split: prod.splits option.splits)

lemma VerifyWebhook_env:
  "VerifyWebhook lib raw sigHeader tsHeader secret tolerance e = (res, e') \<Longrightarrow>
     e' = e \<or> e' = e\<lparr>ticks := Suc (ticks e)\<rparr>"
  by (auto simp: VerifyWebhook_def Let_def time_Now_def split: prod.splits option.splits if_splits)

text \<open>The signed message determines the time stamp and the body.\<close>

lemma signed_message_inj:
  "signed_message ts raw = signed_message ts' raw' \<Longrightarrow> ts = ts' \<and> raw = raw'"
  using append_sep_inj [of "CHR ''.''" "FormatInt ts" "FormatInt ts'" raw raw'] FormatInt_no_dot
  by (auto simp: signed_message_def dest: FormatInt_inj)

lemma Seconds_300: "Seconds (300 * second) = 300"
  by (simp add: Seconds_def second_def)

text \<open>
  Freshness as the service means it, on the integers: \<open>abs64\<close> agrees with it except when the
  difference is exactly \<open>- 2 ^ 63\<close>, whose negation wraps to itself.
\<close>

lemma abs64_sint: "sint x \<noteq> - (2 ^ 63) \<Longrightarrow> sint (abs64 x) = \<bar>sint x\<bar>"
proof -
  assume ne: "sint x \<noteq> - (2 ^ 63)"
  have range: "- (2 ^ 63) \<le> sint x" "sint x < 2 ^ 63"
    using sint_range_size [of x] by (simp_all add: word_size)
  then have "signed_take_bit 63 (- sint x) = - sint x"
    using ne by (intro signed_take_bit_int_eq_self) simp_all
  moreover have "sint (- x) = signed_take_bit 63 (- sint x)"
  proof -
    have "- x = word_of_int (- sint x)" by simp
    then show ?thesis by (simp only: signed_of_int) simp
  qed
  ultimately show ?thesis by (auto simp: abs64_def word_sless_alt)
qed

section \<open>Signed headers\<close>

text \<open>
  What \<open>hex.EncodeToString(mac.Sum(nil))\<close> is documented to give: lower-case hexadecimal digits,
  and some of them.
\<close>

definition hex_text :: "string \<Rightarrow> bool" where
  "hex_text s \<longleftrightarrow> s \<noteq> [] \<and> set s \<subseteq> set ''0123456789abcdef''"

definition hmac_is_hex :: "Lib \<Rightarrow> bool" where
  "hmac_is_hex lib \<longleftrightarrow> (\<forall>k m. hex_text (hmac_hex lib k m))"

text \<open>The two header forms the comment on \<open>VerifyWebhook\<close> describes, as a sender writes them.\<close>

definition stripe_header :: "int \<Rightarrow> string \<Rightarrow> string" where
  "stripe_header ts hex = ''t='' @ FormatInt ts @ '',v1='' @ hex"

definition plain_header :: "string \<Rightarrow> string" where
  "plain_header hex = ''v1='' @ hex"

lemma hex_text_chars:
  assumes "hex_text s" and "c \<in> set s"
  shows "c \<noteq> CHR '',''" "c \<noteq> CHR ''=''" "\<not> is_space c"
  using assms unfolding hex_text_def by (auto simp: is_space_def)

lemma digit_chars:
  assumes "c \<in> set (FormatInt n)"
  shows "c \<noteq> CHR '',''" "c \<noteq> CHR ''=''" "\<not> is_space c"
proof -
  have "is_digit c \<or> c = CHR ''-''"
    using assms nat_digits_all_digits by (auto simp: FormatInt_def list_all_iff split: if_splits)
  then show "c \<noteq> CHR '',''" "c \<noteq> CHR ''=''" "\<not> is_space c"
    by (auto simp: is_digit_def is_space_def)
qed

lemma TrimSpace_none:
  assumes "\<And>c. c \<in> set s \<Longrightarrow> \<not> is_space c"
  shows "TrimSpace s = s"
proof -
  have keep: "dropWhile is_space t = t" if "set t \<subseteq> set s" for t
    using that assms by (cases t) auto
  show ?thesis by (simp add: TrimSpace_def TrimRightP_def keep)
qed

lemma Split_none: "c \<notin> set a \<Longrightarrow> Split c a = [a]"
  by (induction a) auto

lemma Split_at: "c \<notin> set a \<Longrightarrow> Split c (a @ c # b) = a # Split c b"
  by (induction a) auto

lemma SplitN2_at: "c \<notin> set a \<Longrightarrow> SplitN2 c (a @ c # b) = [a, b]"
proof -
  assume c: "c \<notin> set a"
  have "dropWhile (\<lambda>d. d \<noteq> c) (a @ c # b) = c # b"
    using c by (subst dropWhile_append2) auto
  moreover have "takeWhile (\<lambda>d. d \<noteq> c) (a @ c # b) = a"
    using c by (subst takeWhile_append2) auto
  ultimately show ?thesis by (simp add: SplitN2_def)
qed

lemma FormatInt_nonempty [simp]: "FormatInt n \<noteq> []"
  by (simp add: FormatInt_def)

lemma webhook_parts_stripe:
  assumes "hex_text hex"
  shows "webhook_parts (stripe_header ts hex) tsHeader = (FormatInt ts, hex)"
proof -
  have head: "stripe_header ts hex = (''t='' @ FormatInt ts) @ CHR '','' # (''v1='' @ hex)"
    by (simp add: stripe_header_def)
  have nc: "CHR '','' \<notin> set (''t='' @ FormatInt ts)" "CHR '','' \<notin> set (''v1='' @ hex)"
    by (auto dest: digit_chars(1) hex_text_chars(1) [OF assms])
  have split: "Split (CHR '','') (stripe_header ts hex) = [''t='' @ FormatInt ts, ''v1='' @ hex]"
    unfolding head Split_at [OF nc(1)] Split_none [OF nc(2)] ..
  have "Contains (stripe_header ts hex) '',''"
    unfolding Contains_iff head by (intro exI [of _ "''t='' @ FormatInt ts"] exI [of _ "''v1='' @ hex"]) simp
  moreover have "Contains (stripe_header ts hex) ''t=''"
    unfolding Contains_iff head
    by (rule exI [of _ "[]"], rule exI [of _ "FormatInt ts @ CHR '','' # ''v1='' @ hex"]) simp
  moreover have "SplitN2 (CHR ''='') (''t='' @ FormatInt ts) = [''t'', FormatInt ts]"
    "SplitN2 (CHR ''='') (''v1='' @ hex) = [''v1'', hex]"
    using SplitN2_at [of "CHR ''=''" "''t''" "FormatInt ts"] SplitN2_at [of "CHR ''=''" "''v1''" hex] by simp_all
  ultimately show ?thesis by (simp add: webhook_parts_def split)
qed

lemma webhook_parts_plain:
  assumes "hex_text hex"
  shows "webhook_parts (plain_header hex) tsHeader = (tsHeader, hex)"
proof -
  have "CHR '','' \<notin> set (plain_header hex)"
    using hex_text_chars(1) [OF assms] by (auto simp: plain_header_def)
  then have "\<not> Contains (plain_header hex) '',''"
    by (auto simp: Contains_iff)
  moreover have "length (plain_header hex) > 3" "take 3 (plain_header hex) = ''v1=''" "drop 3 (plain_header hex) = hex"
    using assms by (auto simp: plain_header_def hex_text_def numeral_eq_Suc)
  ultimately show ?thesis by (simp add: webhook_parts_def)
qed

lemma webhook_parts_bare:
  assumes "hex_text hex"
  shows "webhook_parts hex tsHeader = (tsHeader, hex)"
proof -
  have "\<not> Contains hex '',''"
    using hex_text_chars(1) [OF assms, of "CHR '',''"] by (auto simp: Contains_iff)
  moreover have "take 3 hex \<noteq> ''v1=''"
    using hex_text_chars(2) [OF assms] by (metis in_set_takeD list.set_intros(1,2))
  ultimately show ?thesis by (simp add: webhook_parts_def)
qed

lemma fresh_by_300:
  assumes "sint x \<noteq> - (2 ^ 63)"
  shows "\<not> Seconds (300 * second) <s abs64 x \<longleftrightarrow> \<bar>sint x\<bar> \<le> 300"
  using abs64_sint [OF assms] by (simp add: Seconds_300 word_sless_alt not_less)

text \<open>What its sender has signed reads the clock, and is accepted if that is within five minutes.\<close>

lemma VerifyWebhook_signed:
  assumes "hmac_is_hex lib" and "- (2 ^ 63) \<le> ts" and "ts < 2 ^ 63"
    and "webhook_parts header th = (FormatInt ts, sig)" and "header \<noteq> ''''"
    and "sig = hmac_hex lib (if secret = '''' then ''dev-webhook-secret'' else secret) (signed_message ts raw)"
  shows "snd (VerifyWebhook lib raw header th secret (300 * second) e) = e\<lparr>ticks := Suc (ticks e)\<rparr>"
    and "\<bar>sint (Unix (clock e (ticks e)) - word_of_int ts)\<bar> \<le> 300 \<Longrightarrow>
      fst (VerifyWebhook lib raw header th secret (300 * second) e) = None"
proof -
  have hex: "hex_text sig" using assms(1,6) by (simp add: hmac_is_hex_def)
  have trim: "TrimSpace (FormatInt ts) = FormatInt ts" "TrimSpace sig = sig" "sig \<noteq> ''''"
    using digit_chars(3) hex_text_chars(3) [OF hex] hex by (auto intro!: TrimSpace_none simp: hex_text_def)
  have num: "ParseInt 64 (FormatInt ts) = Some ts"
    using assms(2,3) by (intro ParseInt_FormatInt) simp_all
  show "snd (VerifyWebhook lib raw header th secret (300 * second) e) = e\<lparr>ticks := Suc (ticks e)\<rparr>"
    using assms(4,5) by (simp add: VerifyWebhook_def trim num time_Now_def Let_def)
  assume "\<bar>sint (Unix (clock e (ticks e)) - word_of_int ts)\<bar> \<le> 300"
  then have "\<not> Seconds (300 * second) <s abs64 (Unix (clock e (ticks e)) - word_of_int ts)"
    by (subst fresh_by_300) auto
  with assms(4-6) trim num show "fst (VerifyWebhook lib raw header th secret (300 * second) e) = None"
    using VerifyWebhook_None [of lib raw header th secret "300 * second" e "e\<lparr>ticks := Suc (ticks e)\<rparr>"] by simp
qed

section \<open>Facts about the store\<close>

lemma Seen_first:
  "seen w i = None \<Longrightarrow> i \<noteq> '''' \<Longrightarrow> Seen i w = (False, w\<lparr>seen := (seen w)(i \<mapsto> ())\<rparr>)"
  by (simp add: Seen_def)

lemma Seen_again: "seen w i \<noteq> None \<Longrightarrow> i \<noteq> '''' \<Longrightarrow> Seen i w = (True, w)"
  by (simp add: Seen_def)

lemma Seen_marks:
  "Seen i w = (dup, w') \<Longrightarrow> i \<noteq> '''' \<Longrightarrow>
     seen w' i \<noteq> None \<and> dom (seen w') = insert i (dom (seen w)) \<and> (dup \<longleftrightarrow> seen w i \<noteq> None)"
  by (auto simp: Seen_def split: if_splits)

lemma Seen_keeps: "Seen i w = (dup, w') \<Longrightarrow> seen w \<subseteq>\<^sub>m seen w'"
  by (auto simp: Seen_def map_le_def split: if_splits)

section \<open>Facts about the service\<close>

text \<open>
  The target of an event is reached by one legal transition, or is \<open>MANUAL_REVIEW\<close> or nothing;
  never the initial state.
\<close>

lemma reconcileOutcomeToState_cases:
  "reconcileOutcomeToState outcome current = to \<Longrightarrow> to \<noteq> '''' \<Longrightarrow>
     to = StateManualReview \<or> CanTransition current to \<and>
       to \<in> {StatePass, StateFail, StateVendorDecision, StateLivenessPassed}"
  by (auto simp: reconcileOutcomeToState_def split: if_splits)

lemma reconcileOutcomeToState_not_started:
  "reconcileOutcomeToState outcome current \<noteq> StateStarted"
  by (auto simp: reconcileOutcomeToState_def)

lemma logs_record_if:
  "ac \<noteq> ''state_transition'' \<Longrightarrow> logs None e (record_if b ag ac at p e)"
  by (auto simp: record_if_def)

lemma logs_Verify:
  "VerifyWebhook lib raw sh th secret tol e = (res, e') \<Longrightarrow> logs None e e'"
  by (drule VerifyWebhook_env) auto

section \<open>What an ingestion does\<close>

text \<open>
  An ingestion forgets no identifier, remembers the one it accepts, and ignores one it knows, over
  any repository and any vendor.
\<close>

lemma Ingest_seen:
  assumes "Ingest lib R V s ctx v raw sh th i (r, w, e) = (res, r', w', e')"
  shows "seen w \<subseteq>\<^sub>m seen w'"
    and "Accepted res \<Longrightarrow> seen w' (if i = '''' then ''no-id'' else i) \<noteq> None"
proof -
  obtain dup w1 where sn: "Seen (if i = '''' then ''no-id'' else i) w = (dup, w1)" by force
  from assms sn have cases: "w' = w \<and> \<not> Accepted res \<or> w' = w1"
    by (auto simp: Ingest_def Let_def split: prod.splits option.splits sum.splits if_splits)
  then show "seen w \<subseteq>\<^sub>m seen w'" using Seen_keeps [OF sn] by auto
  show "seen w' (if i = '''' then ''no-id'' else i) \<noteq> None" if "Accepted res"
    using cases that Seen_marks [OF sn] by auto
qed

lemma Ingest_replay:
  assumes "Ingest lib R V s ctx v raw sh th i (r, w, e) = (res, r', w', e')"
    and "seen w (if i = '''' then ''no-id'' else i) \<noteq> None"
  shows "\<not> Accepted res \<and> r' = r \<and> w' = w"
proof -
  have "Seen (if i = '''' then ''no-id'' else i) w = (True, w)"
    using assms(2) by (intro Seen_again) auto
  with assms(1) show ?thesis
    by (auto simp: Ingest_def Let_def split: prod.splits option.splits)
qed

lemma reconcile_split:
  assumes "reconcile R b v eid evt (r, e) = (r', e')"
  obtains (none) "r' = r" and "e' = e"
  | (read) x where "repo_Get R (we_ApplicationID evt) (r, e) = (x, r', e')"
  | (moved) a r1 e0 to res e2 where "repo_Get R (we_ApplicationID evt) (r, e) = (Inr a, r1, e0)"
    and "to = reconcileOutcomeToState (we_Outcome evt) (app_State a)" and "CanTransition (app_State a) to"
    and "repo_UpdateState R (app_ID a) (app_Version a) to (''webhook:'' @ v) (''webhook event '' @ eid) (r1, e0) =
      (res, r', e2)" and "logs None e2 e'"
proof (cases "we_ApplicationID evt = ''''")
  case True
  with assms none show ?thesis by (simp add: reconcile_def)
next
  case ne: False
  obtain x r1 e0 where g: "repo_Get R (we_ApplicationID evt) (r, e) = (x, r1, e0)" by (rule prod_cases3)
  show ?thesis
  proof (cases "\<exists>a. x = Inr a \<and> CanTransition (app_State a) (reconcileOutcomeToState (we_Outcome evt) (app_State a)) \<and>
      reconcileOutcomeToState (we_Outcome evt) (app_State a) \<noteq> ''''")
    case False
    then have "r' = r1 \<and> e' = e0" using assms ne g by (auto simp: reconcile_def Let_def split: sum.splits if_splits)
    with g read show ?thesis by blast
  next
    case True
    then obtain a where a: "x = Inr a" "CanTransition (app_State a) (reconcileOutcomeToState (we_Outcome evt) (app_State a))"
      "reconcileOutcomeToState (we_Outcome evt) (app_State a) \<noteq> ''''" by blast
    obtain res r2 e2 where u: "repo_UpdateState R (app_ID a) (app_Version a)
        (reconcileOutcomeToState (we_Outcome evt) (app_State a)) (''webhook:'' @ v) (''webhook event '' @ eid) (r1, e0) =
      (res, r2, e2)" by (rule prod_cases3)
    then have "r' = r2 \<and> logs None e2 e'"
      using assms ne g a by (cases res) (auto simp: reconcile_def Let_def intro: logs_record_if)
    with g a u moved show ?thesis by metis
  qed
qed

lemma reconcile_calls:
  assumes "reconcile R b v eid evt (r, e) = (r', e')"
  shows "repo_calls R (r, e) (r', e')"
  using assms
proof (cases rule: reconcile_split)
  case none
  then show ?thesis by simp
next
  case (read x)
  then show ?thesis by (rule repo_calls_get)
next
  case (moved a r1 e0 to res e2)
  have "repo_calls R (r, e) (r1, e0)" using moved(1) by (rule repo_calls_get)
  also have "repo_calls R (r1, e0) (r', e2)"
    using moved(4) by (rule repo_calls_update) (simp add: moved(2) reconcileOutcomeToState_not_started)
  also have "repo_calls R (r', e2) (r', e')" using moved(5) by (rule repo_calls_quiet)
  finally show ?thesis .
qed

text \<open>The four ends of \<open>Ingest\<close>.\<close>

lemma Ingest_split:
  assumes "Ingest lib R V s ctx v raw sh th i (r, w, e) = (res, r', w', e')"
  defines "eid \<equiv> if i = '''' then ''no-id'' else i"
  obtains (rejected) err e1 where "VerifyWebhook lib raw sh th (ws_secret s) (ws_tolerance s) e = (Some err, e1)"
    and "\<not> Accepted res" and "\<not> Duplicate res" and "r' = r" and "w' = w" and "logs None e1 e'"
  | (duplicate) e1 where "VerifyWebhook lib raw sh th (ws_secret s) (ws_tolerance s) e = (None, e1)"
    and "seen w eid \<noteq> None" and "\<not> Accepted res" and "Duplicate res" and "r' = r" and "w' = w" and "logs None e1 e'"
  | (unparsed) err e1 e2 where "VerifyWebhook lib raw sh th (ws_secret s) (ws_tolerance s) e = (None, e1)"
    and "seen w eid = None" and "vc_ParseWebhook V ctx v raw e1 = (Inl err, e2)" and "\<not> Accepted res"
    and "\<not> Duplicate res" and "r' = r" and "w' = w\<lparr>seen := (seen w)(eid \<mapsto> ())\<rparr>" and "logs None e2 e'"
  | (applied) evt e1 e2 e3 where "VerifyWebhook lib raw sh th (ws_secret s) (ws_tolerance s) e = (None, e1)"
    and "seen w eid = None" and "vc_ParseWebhook V ctx v raw e1 = (Inr evt, e2)"
    and "reconcile R (ws_audited s) v eid evt (r, e2) = (r', e3)" and "Accepted res"
    and "\<not> Duplicate res" and "w' = w\<lparr>seen := (seen w)(eid \<mapsto> ())\<rparr>" and "logs None e3 e'"
proof -
  obtain ver e1 where ver: "VerifyWebhook lib raw sh th (ws_secret s) (ws_tolerance s) e = (ver, e1)" by fastforce
  have eid: "eid \<noteq> ''''" by (simp add: eid_def)
  show ?thesis
  proof (cases ver)
    case (Some err)
    with assms(1) ver show ?thesis by (intro rejected) (auto simp: Ingest_def intro: logs_record_if)
  next
    case None
    show ?thesis
    proof (cases "seen w eid")
      case (Some u)
      with assms(1) ver None eid show ?thesis
        by (intro duplicate) (auto simp: Ingest_def Seen_again eid_def [symmetric] Let_def intro: logs_record_if)
    next
      case new: None
      note first = Seen_first [OF new eid]
      obtain p e2 where parse: "vc_ParseWebhook V ctx v raw e1 = (p, e2)" by fastforce
      show ?thesis
      proof (cases p)
        case (Inl err)
        with assms(1) ver None new first parse show ?thesis
          by (intro unparsed) (auto simp: Ingest_def eid_def [symmetric] Let_def intro: logs_record_if)
      next
        case (Inr evt)
        obtain r2 e3 where "reconcile R (ws_audited s) v eid evt (r, e2) = (r2, e3)" by fastforce
        with assms(1) ver None new first parse Inr show ?thesis
          by (intro applied) (auto simp: Ingest_def eid_def [symmetric] Let_def intro: logs_record_if)
      qed
    qed
  qed
qed

context vendor_contract
begin

lemma Ingest_calls:
  assumes "Ingest lib R V s ctx v raw sh th i (r, w, e) = (res, r', w', e')"
  shows "repo_calls R (r, e) (r', e')"
  using assms
proof (cases rule: Ingest_split)
  case (rejected err e1)
  have "logs None e e'" using logs_Verify [OF rejected(1)] rejected(6) by (rule logs_trans)
  with rejected(4) show ?thesis by (simp add: repo_calls_quiet)
next
  case (duplicate e1)
  have "logs None e e'" using logs_Verify [OF duplicate(1)] duplicate(7) by (rule logs_trans)
  with duplicate(5) show ?thesis by (simp add: repo_calls_quiet)
next
  case (unparsed err e1 e2)
  have "logs None e e2" using logs_Verify [OF unparsed(1)] vc_webhook_logs [OF unparsed(3)] by (rule logs_trans)
  then have "logs None e e'" using unparsed(8) by (rule logs_trans)
  with unparsed(6) show ?thesis by (simp add: repo_calls_quiet)
next
  case (applied evt e1 e2 e3)
  have "logs None e e2" using logs_Verify [OF applied(1)] vc_webhook_logs [OF applied(3)] by (rule logs_trans)
  then have "repo_calls R (r, e) (r, e2)" by (rule repo_calls_quiet)
  also have "repo_calls R (r, e2) (r', e3)" using applied(4) by (rule reconcile_calls)
  also have "repo_calls R (r', e3) (r', e')" using applied(8) by (rule repo_calls_quiet)
  finally show ?thesis .
qed

end

locale webhook_client =
  application_repo R view_of good + vendor_contract V
  for R :: "('r, 'x AuditEnv_scheme) ApplicationRepo" and view_of :: "'r \<Rightarrow> view"
    and good :: "'r \<Rightarrow> bool" and V :: "('x AuditEnv_scheme) VendorClient"
begin

lemma reconcile_cases:
  assumes "good r" and "reconcile R b v eid evt (r, e) = (r', e')"
  shows "good r' \<and> app_steps (view_of r, e) (view_of r', e') \<and>
    (view_of r' = view_of r \<or>
     (\<exists>a t to. view_of r (we_ApplicationID evt) = Some a \<and> CanTransition (app_State a) to \<and>
        to = reconcileOutcomeToState (we_Outcome evt) (app_State a) \<and>
        view_of r' = (view_of r)(we_ApplicationID evt \<mapsto> transition_app t to a)))"
  using assms(2)
proof (cases rule: reconcile_split)
  case none
  with assms(1) show ?thesis by simp
next
  case (read x)
  from get_law [OF assms(1) read] show ?thesis by simp
next
  case (moved a r1 e0 to res e2)
  have g: "good r1" "view_of r1 = view_of r" "e0 = e" "view_of r (we_ApplicationID evt) = Some a"
    using get_law [OF assms(1) moved(1)] by simp_all
  have i: "app_ID a = we_ApplicationID evt" using view_id [OF assms(1) g(4)] .
  have "to \<noteq> StateStarted" unfolding moved(2) by (rule reconcileOutcomeToState_not_started)
  note st = update_steps [OF g(1) moved(4) this]
  have "view_of r' = view_of r \<or> (\<exists>t. view_of r' = (view_of r)(we_ApplicationID evt \<mapsto> transition_app t to a))"
  proof (cases res)
    case (Inl err)
    with update_err [OF g(1) moved(4) [unfolded Inl]] g(2) show ?thesis by simp
  next
    case (Inr a')
    with update_ok [OF g(1) moved(4) [unfolded Inr]] g(2,4) i show ?thesis by auto
  qed
  moreover have "app_steps (view_of r', e2) (view_of r', e')" using moved(5) by (rule app_steps_observe)
  ultimately show ?thesis
    using g moved(2,3) st by (auto intro: app_steps_trans)
qed

text \<open>Every ingestion is a run of the abstract system; its effect, by outcome.\<close>

lemma Ingest_cases:
  assumes "good r" and "Ingest lib R V s ctx v raw sh th i (r, w, e) = (res, r', w', e')"
  defines "eid \<equiv> if i = '''' then ''no-id'' else i"
  shows "(\<exists>err e1. VerifyWebhook lib raw sh th (ws_secret s) (ws_tolerance s) e = (Some err, e1) \<and>
            \<not> Accepted res \<and> \<not> Duplicate res \<and> r' = r \<and> w' = w \<and> logs None e e') \<or>
         (\<exists>e1. VerifyWebhook lib raw sh th (ws_secret s) (ws_tolerance s) e = (None, e1) \<and>
            (seen w eid \<noteq> None \<and> \<not> Accepted res \<and> Duplicate res \<and> r' = r \<and> w' = w \<and> logs None e e' \<or>
             seen w eid = None \<and> w' = w\<lparr>seen := (seen w)(eid \<mapsto> ())\<rparr> \<and> \<not> Duplicate res \<and>
               (\<not> Accepted res \<and> r' = r \<and> logs None e e' \<or>
                Accepted res \<and> good r' \<and> app_steps (view_of r, e) (view_of r', e') \<and>
                (\<exists>evt e2. vc_ParseWebhook V ctx v raw e1 = (Inr evt, e2) \<and>
                  (view_of r' = view_of r \<or>
                   (\<exists>a t to. view_of r (we_ApplicationID evt) = Some a \<and> CanTransition (app_State a) to \<and>
                      to = reconcileOutcomeToState (we_Outcome evt) (app_State a) \<and>
                      view_of r' = (view_of r)(we_ApplicationID evt \<mapsto> transition_app t to a)))))))"
  using assms(2)
proof (cases rule: Ingest_split)
  case (rejected err e1)
  have "logs None e e'" using logs_Verify [OF rejected(1)] rejected(6) by (rule logs_trans)
  with rejected show ?thesis by blast
next
  case (duplicate e1)
  have "logs None e e'" using logs_Verify [OF duplicate(1)] duplicate(7) by (rule logs_trans)
  with duplicate show ?thesis unfolding eid_def by blast
next
  case (unparsed err e1 e2)
  have "logs None e e2" using logs_Verify [OF unparsed(1)] vc_webhook_logs [OF unparsed(3)] by (rule logs_trans)
  then have "logs None e e'" using unparsed(8) by (rule logs_trans)
  with unparsed show ?thesis unfolding eid_def by blast
next
  case (applied evt e1 e2 e3)
  note law = reconcile_cases [OF assms(1) applied(4)]
  have "logs None e e2" using logs_Verify [OF applied(1)] vc_webhook_logs [OF applied(3)] by (rule logs_trans)
  then have "app_steps (view_of r, e) (view_of r, e2)" by (rule app_steps_observe)
  also have "app_steps (view_of r, e2) (view_of r', e3)" using law by blast
  also have "app_steps (view_of r', e3) (view_of r', e')" using applied(8) by (rule app_steps_observe)
  finally have "app_steps (view_of r, e) (view_of r', e')" .
  then show ?thesis
    using applied(1-3,5-7) law unfolding eid_def by (intro disjI2 exI [of _ e1] conjI) auto
qed

text \<open>Whatever becomes of a webhook, the environment only goes on from its verification.\<close>

lemma Ingest_env:
  assumes "good r" and "Ingest lib R V s ctx v raw sh th i (r, w, e) = (res, r', w', e')"
  shows "env_le (snd (VerifyWebhook lib raw sh th (ws_secret s) (ws_tolerance s) e)) e'"
  using assms(2)
proof (cases rule: Ingest_split)
  case (unparsed err e1 e2)
  with logs_trans [OF vc_webhook_logs [OF unparsed(3)] unparsed(8)] show ?thesis by (simp add: logs_env_le)
next
  case (applied evt e1 e2 e3)
  have "env_le e1 e2" using vc_webhook_logs [OF applied(3)] by (rule logs_env_le)
  moreover have "env_le e2 e3" using reconcile_cases [OF assms(1) applied(4)] app_steps_env_le by fastforce
  moreover have "env_le e3 e'" using applied(8) by (rule logs_env_le)
  ultimately have "env_le e1 e'" by (metis env_le_trans)
  then show ?thesis using applied(1) by simp
qed (simp_all add: logs_env_le)

end

end
