(* ===== verification/Jobs.thy ===== *)
theory Jobs
  imports Webhooks
begin

text \<open>
  The other background jobs: the re-KYC scheduler (\<open>ReKYCService\<close> in \<open>internal/server.go\<close>)
  and the sync of sanctions lists (\<open>internal/list_sync.go\<close>).
\<close>

section \<open>The re-KYC scheduler\<close>

fun rekyc_loop ::
  "('r, 'e AuditEnv_scheme) ApplicationRepo \<Rightarrow> bool \<Rightarrow> ReKYCDue list \<Rightarrow> 'r \<times> 'e AuditEnv_scheme \<Rightarrow>
     nat \<times> 'r \<times> 'e AuditEnv_scheme" where
  "rekyc_loop R audited [] (r, e) = (0, r, e)"
| "rekyc_loop R audited (d # ds) (r, e) =
     (case repo_Reopen R (due_ID d) (due_Version d) ''scheduler'' (r, e) of
        (Inl _, r, e) \<Rightarrow> rekyc_loop R audited ds (r, e)
      | (Inr _, r, e) \<Rightarrow>
          (let e = record_if audited (due_ID d) ''re_kyc_scheduled'' ''scheduler'' Map.empty e;
               (n, s) = rekyc_loop R audited ds (r, e)
           in (Suc n, s)))"

definition Tick ::
  "('r, 'e AuditEnv_scheme) ApplicationRepo \<Rightarrow> bool \<Rightarrow> string list \<Rightarrow> time \<Rightarrow> 'r \<times> 'e AuditEnv_scheme \<Rightarrow>
     nat \<times> 'r \<times> 'e AuditEnv_scheme" where
  "Tick R audited order now s =
     (let (due, s) = repo_ListDueForReKYC R order now s in rekyc_loop R audited due s)"

text \<open>
  \<open>Start\<close> launches a goroutine with the given interval, which panics in \<open>time.NewTicker\<close> if the
  interval is not positive (\<open>None\<close>); \<open>Stop\<close> closes the channel, with no guard. The flag
  \<open>running\<close> is not used here.
\<close>

definition NewReKYCService :: LoopControl where
  "NewReKYCService = \<lparr>running = False, stop_closed = False, workers = []\<rparr>"

definition ReKYC_Start :: "duration \<Rightarrow> LoopControl \<Rightarrow> LoopControl option" where
  "ReKYC_Start interval c =
     (if interval \<le>s 0 then None else Some (c\<lparr>workers := workers c @ [interval]\<rparr>))"

definition ReKYC_Stop :: "LoopControl \<Rightarrow> LoopControl option" where
  "ReKYC_Stop c = (if stop_closed c then None else Some (c\<lparr>stop_closed := True\<rparr>))"

text \<open>The worker: \<open>Some order\<close> is a received tick, \<open>None\<close> the closed stop channel.\<close>

fun rekyc_worker ::
  "('r, 'e AuditEnv_scheme) ApplicationRepo \<Rightarrow> bool \<Rightarrow> string list option list \<Rightarrow>
     'r \<times> 'e AuditEnv_scheme \<Rightarrow> 'r \<times> 'e AuditEnv_scheme" where
  "rekyc_worker R audited [] s = s"
| "rekyc_worker R audited (None # ws) s = s"
| "rekyc_worker R audited (Some order # ws) (r, e) =
     (let (t, e) = time_Now e in rekyc_worker R audited ws (snd (Tick R audited order t (r, e))))"

section \<open>List sync\<close>

record ListSnapshot =
  snap_Source :: string
  snap_GeneratedAt :: time
  snap_Names :: "string list"

text \<open>\<open>fetchNames\<close> distinguishes the in-memory client from all others by a type assertion.\<close>

datatype 'e sync_client = InMemoryClient InMemoryScreeningClient | OtherClient "'e ScreeningClient"

record 'e ListSyncJob = LoopControl +
  js_client :: "'e sync_client"
  js_interval :: duration
  js_dir :: string
  js_lastSnap :: "ListSnapshot option"

text \<open>
  The file system the job writes to: its directories and the contents of its files. What becomes of
  the \<open>n\<close>-th operation is decided outside: \<open>os.MkdirAll\<close> makes some directories, and may fail all
  the same; \<open>os.WriteFile\<close> opens the file and truncates it, and when it fails after that, the
  file holds what was written until then.
\<close>

datatype WriteOutcome = Written | NotOpened go_error | CutShort nat go_error

record Disk =
  mkdirs :: "nat \<Rightarrow> string \<Rightarrow> string set \<times> go_error option"
  writes :: "nat \<Rightarrow> string \<Rightarrow> WriteOutcome"
  disk_ops :: nat
  dirs :: "string set"
  files :: "string \<rightharpoonup> string"

definition MkdirAll :: "string \<Rightarrow> Disk \<Rightarrow> go_error option \<times> Disk" where
  "MkdirAll path disk =
     (let (made, err) = mkdirs disk (disk_ops disk) path in
      (err, disk\<lparr>disk_ops := Suc (disk_ops disk),
                 dirs := dirs disk \<union> made \<union> (if err = None then {path} else {})\<rparr>))"

definition WriteFile :: "string \<Rightarrow> string \<Rightarrow> Disk \<Rightarrow> go_error option \<times> Disk" where
  "WriteFile path b disk =
     (let next = disk\<lparr>disk_ops := Suc (disk_ops disk)\<rparr> in
      case writes disk (disk_ops disk) path of
        Written \<Rightarrow> (None, next\<lparr>files := (files disk)(path \<mapsto> b)\<rparr>)
      | NotOpened err \<Rightarrow> (Some err, next)
      | CutShort n err \<Rightarrow> (Some err, next\<lparr>files := (files disk)(path \<mapsto> take n b)\<rparr>))"

definition NewListSyncJob ::
  "(string \<Rightarrow> duration option) \<Rightarrow> environ \<Rightarrow> 'e sync_client \<Rightarrow> 'e ListSyncJob" where
  "NewListSyncJob parse env client =
     \<lparr>running = False, stop_closed = False, workers = [], js_client = client,
      js_interval = envDurationDefault parse env ''LIST_SYNC_INTERVAL'' 0,
      js_dir = (if env ''LIST_SYNC_DIR'' = '''' then ''var/lists'' else env ''LIST_SYNC_DIR''),
      js_lastSnap = None\<rparr>"

definition ListSync_Start :: "'e ListSyncJob \<Rightarrow> 'e ListSyncJob" where
  "ListSync_Start j =
     (if running j \<or> js_interval j \<le>s 0 then j
      else j\<lparr>running := True, workers := workers j @ [js_interval j]\<rparr>)"

definition ListSync_Stop :: "'e ListSyncJob \<Rightarrow> 'e ListSyncJob option" where
  "ListSync_Stop j =
     (if \<not> running j then Some j
      else if stop_closed j then None
      else Some (j\<lparr>stop_closed := True, running := False\<rparr>))"

definition fetchNames :: "ctx \<Rightarrow> 'e ListSyncJob \<Rightarrow> 'e \<Rightarrow> (go_error + string list) \<times> 'e" where
  "fetchNames ctx j e =
     (case js_client j of
        InMemoryClient c \<Rightarrow> (Inr (Names c), e)
      | OtherClient screen \<Rightarrow>
          (case screen ctx ''ZZZ NO MATCH'' e of
             (Inl err, e) \<Rightarrow> (Inl err, e)
           | (Inr _, e) \<Rightarrow> (Inr [], e)))"

definition snapshot_path :: "string \<Rightarrow> ListSnapshot \<Rightarrow> string" where
  "snapshot_path dir snap = dir @ ''/snapshot-'' @ FormatInt (sint (Unix (snap_GeneratedAt snap))) @ ''.json''"

text \<open>\<open>json.MarshalIndent\<close> of a snapshot is the parameter \<open>marshal\<close>.\<close>

definition persist :: "(ListSnapshot \<Rightarrow> go_error + string) \<Rightarrow> string \<Rightarrow> ListSnapshot \<Rightarrow> Disk \<Rightarrow> go_error option \<times> Disk" where
  "persist marshal dir snap disk =
     (case MkdirAll dir disk of
        (Some err, disk) \<Rightarrow> (Some err, disk)
      | (None, disk) \<Rightarrow>
          (let path = snapshot_path dir snap in
           case marshal snap of
             Inl err \<Rightarrow> (Some err, disk)
           | Inr b \<Rightarrow> WriteFile path b disk))"

definition SyncOnce ::
  "(ListSnapshot \<Rightarrow> go_error + string) \<Rightarrow> ctx \<Rightarrow>
     ('e World_scheme) ListSyncJob \<times> Disk \<times> 'e World_scheme \<Rightarrow>
     (go_error + ListSnapshot) \<times> ('e World_scheme) ListSyncJob \<times> Disk \<times> 'e World_scheme" where
  "SyncOnce marshal ctx =
     (\<lambda>(j, disk, e).
       case fetchNames ctx j e of
         (Inl err, e) \<Rightarrow> (Inl err, j, disk, e)
       | (Inr names, e) \<Rightarrow>
           (let (t, e) = time_Now e;
                snap = \<lparr>snap_Source = ''screening_provider'', snap_GeneratedAt = t, snap_Names = names\<rparr>
            in (case persist marshal (js_dir j) snap disk of
                  (Some err, disk) \<Rightarrow> (Inl err, j, disk, e)
                | (None, disk) \<Rightarrow> (Inr snap, j\<lparr>js_lastSnap := Some snap\<rparr>, disk, e))))"

definition LastSnapshot :: "'e ListSyncJob \<Rightarrow> ListSnapshot option" where
  "LastSnapshot j = js_lastSnap j"

section \<open>What a tick does\<close>

lemma rekyc_loop_calls:
  "rekyc_loop R b ds (r, e) = (n, r', e') \<Longrightarrow> repo_calls R (r, e) (r', e')"
proof (induction ds arbitrary: r e n)
  case Nil
  then show ?case by auto
next
  case (Cons d ds)
  obtain res r1 e1 where ro: "repo_Reopen R (due_ID d) (due_Version d) ''scheduler'' (r, e) = (res, r1, e1)"
    by (metis prod_cases3)
  note step = repo_calls_reopen [OF ro]
  show ?case
  proof (cases res)
    case (Inl err)
    with Cons.prems ro have "rekyc_loop R b ds (r1, e1) = (n, r', e')" by simp
    from step Cons.IH [OF this] show ?thesis by (rule repo_calls_trans)
  next
    case (Inr a)
    define e2 where "e2 = record_if b (due_ID d) ''re_kyc_scheduled'' ''scheduler'' Map.empty e1"
    obtain m where rest: "rekyc_loop R b ds (r1, e2) = (m, r', e')"
      using Cons.prems ro Inr by (auto simp: e2_def Let_def split: prod.splits)
    note step
    also have "repo_calls R (r1, e1) (r1, e2)" unfolding e2_def by (intro repo_calls_quiet logs_record_if) simp
    also have "repo_calls R (r1, e2) (r', e')" using rest by (rule Cons.IH)
    finally show ?thesis .
  qed
qed

lemma Tick_calls:
  assumes "Tick R b order now (r, e) = (n, r', e')"
  shows "repo_calls R (r, e) (r', e')"
proof -
  obtain ds r1 e1 where d: "repo_ListDueForReKYC R order now (r, e) = (ds, r1, e1)" by (rule prod_cases3)
  have "rekyc_loop R b ds (r1, e1) = (n, r', e')" using assms d by (simp add: Tick_def)
  from repo_calls_list_due [OF d] rekyc_loop_calls [OF this] show ?thesis by (rule repo_calls_trans)
qed

context reliable_repo
begin

lemma rekyc_loop_all:
  assumes "good r" and "distinct (map due_ID ds)"
    and "\<And>d. d \<in> set ds \<Longrightarrow>
      \<exists>a. view_of r (due_ID d) = Some a \<and> app_Version a = due_Version d \<and> IsTerminal (app_State a)"
    and "rekyc_loop R b ds (r, e) = (n, r', e')"
  shows "n = length ds \<and> good r' \<and>
    (\<forall>i. if i \<in> due_ID ` set ds
         then \<exists>a t. view_of r i = Some a \<and> view_of r' i = Some (reopen_app t a)
         else view_of r' i = view_of r i)"
  using assms
proof (induction ds arbitrary: r e n)
  case Nil
  then show ?case by auto
next
  case (Cons d ds)
  obtain a where a: "view_of r (due_ID d) = Some a" "app_Version a = due_Version d" "IsTerminal (app_State a)"
    using Cons.prems(3) [of d] by auto
  obtain t r1 e1 where ro:
    "repo_Reopen R (due_ID d) (due_Version d) ''scheduler'' (r, e) = (Inr (reopen_app t a), r1, e1)"
    "view_of r1 = (view_of r)(due_ID d \<mapsto> reopen_app t a)" "good r1"
    using reopen_exact [OF Cons.prems(1) a(1,3)] a(2) by metis
  obtain m where rest: "n = Suc m"
    "rekyc_loop R b ds (r1, record_if b (due_ID d) ''re_kyc_scheduled'' ''scheduler'' Map.empty e1) = (m, r', e')"
    using Cons.prems(4) ro(1) by (auto simp: Let_def split: prod.splits)
  have "\<exists>a. view_of r1 (due_ID d') = Some a \<and> app_Version a = due_Version d' \<and> IsTerminal (app_State a)"
    if "d' \<in> set ds" for d'
    using that Cons.prems(2) Cons.prems(3) [of d'] ro(2) by (auto simp: image_iff)
  moreover have "distinct (map due_ID ds)" using Cons.prems(2) by simp
  ultimately have law: "m = length ds \<and> good r' \<and> (\<forall>i. if i \<in> due_ID ` set ds
         then \<exists>a t. view_of r1 i = Some a \<and> view_of r' i = Some (reopen_app t a)
         else view_of r' i = view_of r1 i)"
    by (intro Cons.IH [OF ro(3) _ _ rest(2)])
  then have IH: "m = length ds" "good r'" by simp_all
  note all = law [THEN conjunct2, THEN conjunct2, THEN spec]
  have "if i \<in> due_ID ` set (d # ds)
         then \<exists>a t. view_of r i = Some a \<and> view_of r' i = Some (reopen_app t a)
         else view_of r' i = view_of r i" for i
    using all [of i] ro(2) a(1) Cons.prems(2) by (auto split: if_splits)
  with IH rest show ?case by (simp only: length_Cons) blast
qed

text \<open>
  A tick reopens exactly the decided applications whose re-KYC date has come, and counts them.
\<close>

lemma Tick_exact:
  assumes "good r" and "keys r order" and "Tick R b order now (r, e) = (n, r', e')"
  shows "good r' \<and> n = length (fst (repo_ListDueForReKYC R order now (r, e))) \<and>
    (\<forall>i a. view_of r i = Some a \<longrightarrow>
      (if is_due now a then \<exists>t. view_of r' i = Some (reopen_app t a) else view_of r' i = Some a)) \<and>
    dom (view_of r') = dom (view_of r)"
proof -
  obtain ds r1 e1 where d: "repo_ListDueForReKYC R order now (r, e) = (ds, r1, e1)" by (rule prod_cases3)
  have r1: "good r1" "view_of r1 = view_of r"
    and sound: "\<And>d. d \<in> set ds \<Longrightarrow>
      \<exists>a. view_of r (due_ID d) = Some a \<and> app_Version a = due_Version d \<and> is_due now a"
    using list_due_law [OF assms(1) d] by auto
  have due: "i \<in> due_ID ` set ds \<longleftrightarrow> (\<exists>a. view_of r i = Some a \<and> is_due now a)" for i
    using sound list_due_complete [OF assms(1,2), of i _ now e] d by (force simp: image_iff)
  have "distinct (map due_ID ds)"
    using list_due_distinct [OF assms(1,2), of now e] d by simp
  moreover have "\<exists>a. view_of r1 (due_ID d) = Some a \<and> app_Version a = due_Version d \<and> IsTerminal (app_State a)"
    if "d \<in> set ds" for d
    using sound [OF that] r1(2) by (auto simp: is_due_def)
  moreover have "rekyc_loop R b ds (r1, e1) = (n, r', e')"
    using assms(3) d by (simp add: Tick_def)
  ultimately have all: "n = length ds" "good r'"
    "\<And>i. if i \<in> due_ID ` set ds
         then \<exists>a t. view_of r i = Some a \<and> view_of r' i = Some (reopen_app t a)
         else view_of r' i = view_of r i"
    using rekyc_loop_all [OF r1(1)] unfolding r1(2) by blast+
  have "if is_due now a then \<exists>t. view_of r' i = Some (reopen_app t a) else view_of r' i = Some a"
    if "view_of r i = Some a" for i a
    using all(3) [of i] that by (auto simp: due split: if_splits)
  moreover have "view_of r' i = None \<longleftrightarrow> view_of r i = None" for i
    using all(3) [of i] by (auto split: if_splits)
  ultimately show ?thesis
    using all(1,2) by (auto simp: d dom_def)
qed

text \<open>A reopened application is not due, so a second tick at the same time does nothing.\<close>

lemma reopen_not_due: "\<not> is_due now (reopen_app t a)"
  by (simp add: is_due_def)

lemma Tick_again:
  assumes "good r" and "keys r order" and "Tick R b order now (r, e) = (n, r', e')"
    and "keys r' order'"
    and "Tick R b order' now (r', e') = (n', r'', e'')"
  shows "n' = 0 \<and> good r'' \<and> view_of r'' = view_of r' \<and> e'' = e'"
proof -
  note exact = Tick_exact [OF assms(1-3)]
  have good': "good r'" using exact by (rule conjunct1)
  have all: "if is_due now a then \<exists>t. view_of r' i = Some (reopen_app t a) else view_of r' i = Some a"
    if "view_of r i = Some a" for i a
    using exact that by blast
  have dom: "dom (view_of r') = dom (view_of r)" using exact by blast
  have "\<not> is_due now b'" if "view_of r' i = Some b'" for i b'
  proof -
    have "i \<in> dom (view_of r)" unfolding dom [symmetric] using that by (simp add: dom_def)
    then obtain a where a: "view_of r i = Some a" by (auto simp: dom_def)
    show ?thesis
    proof (cases "is_due now a")
      case True
      with all [OF a] obtain t where "view_of r' i = Some (reopen_app t a)" by auto
      then have "b' = reopen_app t a" using that by simp
      then show ?thesis by (simp only: reopen_not_due) simp
    next
      case False
      with all [OF a] have "b' = a" using that by simp
      with False show ?thesis by simp
    qed
  qed
  note none = this
  obtain ds r1 e1 where d: "repo_ListDueForReKYC R order' now (r', e') = (ds, r1, e1)" by (rule prod_cases3)
  note law = list_due_law [OF good' d]
  then have "ds = []" using none by (cases ds) auto
  with law assms(5) d show ?thesis by (simp add: Tick_def)
qed

end

section \<open>What a sync does\<close>

text \<open>What a job's client gives: only the in-memory client's names are asked for.\<close>

definition client_names :: "'e ListSyncJob \<Rightarrow> string list" where
  "client_names j = (case js_client j of InMemoryClient c \<Rightarrow> listed c | OtherClient _ \<Rightarrow> [])"

lemma fetchNames_names: "fetchNames ctx j e = (Inr names, e') \<Longrightarrow> names = client_names j"
  by (auto simp: fetchNames_def client_names_def Names_def split: sync_client.splits prod.splits sum.splits)

text \<open>
  Persisting a snapshot only adds directories. When it succeeds the snapshot is in its file; when it
  fails, all files are as they were, or the one of the snapshot has only the beginning of it.
\<close>

lemma persist_cases:
  assumes "persist marshal dir snap disk = (res, disk')"
  shows "dirs disk \<subseteq> dirs disk' \<and>
    (case res of
       None \<Rightarrow> dir \<in> dirs disk' \<and>
         (\<exists>b. marshal snap = Inr b \<and> files disk' = (files disk)(snapshot_path dir snap \<mapsto> b))
     | Some _ \<Rightarrow> files disk' = files disk \<or>
         (\<exists>b n. marshal snap = Inr b \<and> files disk' = (files disk)(snapshot_path dir snap \<mapsto> take n b)))"
  using assms
  by (auto simp: persist_def MkdirAll_def WriteFile_def Let_def
      split: prod.splits sum.splits option.splits WriteOutcome.splits)

section \<open>Properties\<close>

text \<open>
  C37. A sync that succeeds writes the whole snapshot it returns to its file, in the job's
  directory, and remembers it; nothing else of the job changes. One that fails keeps the last
  snapshot; but it may have made directories, and where the write breaks off it leaves the
  snapshot's file cut short, every other file being as it was. With the in-memory client a snapshot
  has exactly the listed names; with any other client it is empty, since \<open>fetchNames\<close> discards
  the provider's answer.
\<close>

theorem sync_outcome:
  assumes "SyncOnce marshal ctx (j, disk, e) = (res, j', disk', e')"
  shows "dirs disk \<subseteq> dirs disk' \<and>
    (case res of
      Inl _ \<Rightarrow> j' = j \<and>
        (files disk' = files disk \<or>
         (\<exists>snap b n. snap_Names snap = client_names j \<and> marshal snap = Inr b \<and>
            files disk' = (files disk)(snapshot_path (js_dir j) snap \<mapsto> take n b)))
    | Inr snap \<Rightarrow> j' = j\<lparr>js_lastSnap := Some snap\<rparr> \<and> LastSnapshot j' = Some snap \<and>
        js_dir j \<in> dirs disk' \<and> snap_Names snap = client_names j \<and>
        (\<exists>b. marshal snap = Inr b \<and> files disk' = (files disk)(snapshot_path (js_dir j) snap \<mapsto> b)))"
proof -
  obtain fetched e1 where f: "fetchNames ctx j e = (fetched, e1)" by force
  show ?thesis
  proof (cases fetched)
    case (Inl err)
    with f assms show ?thesis by (auto simp: SyncOnce_def)
  next
    case (Inr names)
    obtain t e2 where t: "time_Now e1 = (t, e2)" by force
    define snap where
      "snap = \<lparr>snap_Source = ''screening_provider'', snap_GeneratedAt = t, snap_Names = names\<rparr>"
    have names: "snap_Names snap = client_names j"
      using fetchNames_names [OF f [unfolded Inr]] by (simp add: snap_def)
    obtain err d where p: "persist marshal (js_dir j) snap disk = (err, d)" by force
    have run: "(res, j', disk', e') =
        (case err of None \<Rightarrow> (Inr snap, j\<lparr>js_lastSnap := Some snap\<rparr>, d, e2) | Some err \<Rightarrow> (Inl err, j, d, e2))"
      using assms f Inr t p by (simp add: SyncOnce_def snap_def Let_def split: option.splits)
    from persist_cases [OF p] names run show ?thesis
      by (cases err) (auto simp: LastSnapshot_def)
  qed
qed

definition demo_disk :: "WriteOutcome \<Rightarrow> Disk" where
  "demo_disk w =
     \<lparr>mkdirs = (\<lambda>_ _. ({''var''}, None)), writes = (\<lambda>_ _. w), disk_ops = 0, dirs = {}, files = Map.empty\<rparr>"

definition demo_job :: "World ListSyncJob" where
  "demo_job = NewListSyncJob (\<lambda>_. None) (\<lambda>_. '''') (InMemoryClient NewInMemoryScreeningClient)"

text \<open>A write that succeeds, and one that breaks off after the first character.\<close>

theorem sync_outcome_witness:
  "(\<exists>snap j' disk' e'. SyncOnce (\<lambda>_. Inr ''{}'') None (demo_job, demo_disk Written, demo_clock) = (Inr snap, j', disk', e') \<and>
     LastSnapshot j' = Some snap \<and> snap_Names snap = [''BAD ACTOR'', ''EVIL DOER''] \<and> ''var/lists'' \<in> dirs disk') \<and>
   (\<exists>err disk' e'. SyncOnce (\<lambda>_. Inr ''{}'') None
       (demo_job, demo_disk (CutShort 1 (Plain ''no space left on device'')), demo_clock) = (Inl err, demo_job, disk', e') \<and>
     ran (files disk') = {''{''})"
proof (rule conjI)
  obtain snap j' disk' e' where s:
    "SyncOnce (\<lambda>_. Inr ''{}'') None (demo_job, demo_disk Written, demo_clock) = (Inr snap, j', disk', e')"
    by (simp add: SyncOnce_def fetchNames_def persist_def MkdirAll_def WriteFile_def demo_job_def demo_disk_def
        NewListSyncJob_def time_Now_def Let_def)
  from sync_outcome [OF s] s show "\<exists>snap j' disk' e'. SyncOnce (\<lambda>_. Inr ''{}'') None
      (demo_job, demo_disk Written, demo_clock) = (Inr snap, j', disk', e') \<and>
     LastSnapshot j' = Some snap \<and> snap_Names snap = [''BAD ACTOR'', ''EVIL DOER''] \<and> ''var/lists'' \<in> dirs disk'"
    by (auto simp: demo_job_def NewListSyncJob_def NewInMemoryScreeningClient_def client_names_def)
  show "\<exists>err disk' e'. SyncOnce (\<lambda>_. Inr ''{}'') None
       (demo_job, demo_disk (CutShort 1 (Plain ''no space left on device'')), demo_clock) = (Inl err, demo_job, disk', e') \<and>
     ran (files disk') = {''{''}"
    by (simp add: SyncOnce_def fetchNames_def persist_def MkdirAll_def WriteFile_def demo_job_def demo_disk_def
        NewListSyncJob_def time_Now_def Let_def)
qed

end
