(* ===== verification/Server.thy ===== *)
theory Server
  imports Jobs
begin

text \<open>
  \<open>internal/server.go\<close>: the error mapping, the request decoding, every HTTP handler over the
  services it uses, the two middlewares that act on the state, the router, and the choice of
  services at start-up. A handler is a function from the request and the state of the system to
  the response and the new state; a response body is a value of \<open>resp_body\<close>, which
  \<open>writeJSON\<close> renders.
\<close>

section \<open>Requests and responses\<close>

text \<open>
  \<open>req_body\<close> is what reading the body gives, \<open>req_form\<close> what parsing it as a multipart form
  gives: the form's values and the content of the file \<open>file\<close>, if it has one. \<open>req_ctx\<close> is the
  request's context, \<open>req_ctx5\<close> the one derived from it with a time-out of 5 s, \<open>req_rid\<close>
  the request id that \<open>correlationMiddleware\<close> has put into the context.
\<close>

record Request =
  req_path :: "string \<Rightarrow> string"
  req_header :: "string \<Rightarrow> string"
  req_body :: "go_error + string"
  req_form :: "go_error + (string \<Rightarrow> string) \<times> byte list option"
  req_ctx :: ctx
  req_ctx5 :: ctx
  req_rid :: string

datatype resp_body =
    ErrorBody string string string
  | CreateAppBody string string State time
  | ApplicationBody Application "Document list" "LivenessSession option" "SanctionsHit list"
  | StatusBody string string State time "time option" "time option"
  | DocumentBody Document
  | DocumentsBody "Document list"
  | LivenessBody LivenessSession
  | ScreeningBody "SanctionsHit list" bool State
  | StringsBody "(string \<times> string) list"
  | EventsBody "AuditEvent list"
  | TextBody string
  | NoBody

record Response =
  resp_status :: nat
  resp_headers :: "(string \<times> string) list"
  resp_body :: resp_body

definition writeJSON :: "nat \<Rightarrow> resp_body \<Rightarrow> Response" where
  "writeJSON status v =
     \<lparr>resp_status = status, resp_headers = [(''Content-Type'', ''application/json'')], resp_body = v\<rparr>"

section \<open>Errors\<close>

definition NewAppError :: "string \<Rightarrow> string \<Rightarrow> nat \<Rightarrow> AppError" where
  "NewAppError code msg status = \<lparr>Code = code, Message = msg, StatusCode = status\<rparr>"

definition errAppNotFound :: AppError where
  "errAppNotFound = NewAppError ''application_not_found'' ''application not found'' 404"

definition errBadJSON :: AppError where
  "errBadJSON = NewAppError ''bad_json'' ''invalid JSON body'' 400"

definition errMissingUserID :: AppError where
  "errMissingUserID = NewAppError ''missing_user_id'' ''user_id is required'' 400"

definition errBadDocType :: AppError where
  "errBadDocType = NewAppError ''bad_doc_type'' ''invalid document type'' 400"

definition errDupApp :: AppError where
  "errDupApp = NewAppError ''duplicate_application'' ''active application already exists for user'' 409"

definition errConflict :: AppError where
  "errConflict = NewAppError ''version_conflict'' ''application was modified by another request'' 409"

definition errIllegalTrans :: AppError where
  "errIllegalTrans = NewAppError ''illegal_transition'' ''illegal state transition'' 409"

definition errInternal :: AppError where
  "errInternal = NewAppError ''internal_error'' ''internal server error'' 500"

text \<open>\<open>toAppError\<close> of an error that is not nil, which is how \<open>writeError\<close> calls it.\<close>

definition toAppError :: "go_error \<Rightarrow> AppError" where
  "toAppError err =
     (case err of
        AppErr ae \<Rightarrow> ae
      | _ \<Rightarrow>
          if errors_Is err ErrNotFound then errAppNotFound
          else if errors_Is err ErrDuplicate then errDupApp
          else if errors_Is err ErrConflict then errConflict
          else if errors_Is err ErrIllegalTransition then errIllegalTrans
          else if errors_Is err ErrReKYCNotTerminal then NewAppError ''not_terminal'' (error_text err) 409
          else if errors_Is err ErrInvalidArgument then NewAppError ''invalid_argument'' (error_text err) 400
          else errInternal)"

definition writeError :: "Request \<Rightarrow> go_error \<Rightarrow> Response" where
  "writeError rq err =
     (let ae = toAppError err
      in \<lparr>resp_status = StatusCode ae, resp_headers = [(''Content-Type'', ''application/json'')],
          resp_body = ErrorBody (Code ae) (Message ae) (req_rid rq)\<rparr>)"

definition decodeJSON :: "Lib \<Rightarrow> string list \<Rightarrow> Request \<Rightarrow> go_error + strings" where
  "decodeJSON lib names rq =
     (case req_body rq of
        Inl _ \<Rightarrow> Inl (AppErr errBadJSON)
      | Inr body \<Rightarrow>
          if body = '''' then Inl (AppErr errBadJSON)
          else (case json_parse lib body of
                  Inl _ \<Rightarrow> Inl (AppErr errBadJSON)
                | Inr j \<Rightarrow>
                    (case unmarshal_strings names j of
                       Inl _ \<Rightarrow> Inl (AppErr errBadJSON)
                     | Inr m \<Rightarrow> Inr m)))"

section \<open>Services and state\<close>

text \<open>\<open>s_store\<close> holds what the three repositories keep.\<close>

record ('s, 'e) Services =
  sv_Repo :: "('s, 'e) ApplicationRepo"
  sv_Docs :: "'s DocumentRepo"
  sv_Liveness :: "'s LivenessRepo"
  sv_Screener :: "'e ScreeningClient"
  sv_Webhook :: WebhookService
  sv_Vendor :: "'e VendorClient option"
  sv_lib :: Lib
  sv_environ :: environ

record ('s, 'e) Sys =
  s_store :: 's
  s_hits :: ScreeningStore
  s_seen :: WebhookStore
  s_env :: 'e

definition on_env :: "('e \<Rightarrow> 'e) \<Rightarrow> ('s, 'e) Sys \<Rightarrow> ('s, 'e) Sys" where
  "on_env f s = s\<lparr>s_env := f (s_env s)\<rparr>"

text \<open>Running an operation that also returns a value on the environment, the stores, or both.\<close>

definition with_env :: "('e \<Rightarrow> 'a \<times> 'e) \<Rightarrow> ('s, 'e) Sys \<Rightarrow> 'a \<times> ('s, 'e) Sys" where
  "with_env f s = (case f (s_env s) of (x, e) \<Rightarrow> (x, s\<lparr>s_env := e\<rparr>))"

definition with_store :: "('s \<Rightarrow> 'a \<times> 's) \<Rightarrow> ('s, 'e) Sys \<Rightarrow> 'a \<times> ('s, 'e) Sys" where
  "with_store f s = (case f (s_store s) of (x, r) \<Rightarrow> (x, s\<lparr>s_store := r\<rparr>))"

definition with_repo ::
  "('s \<times> 'e \<Rightarrow> 'a \<times> 's \<times> 'e) \<Rightarrow> ('s, 'e) Sys \<Rightarrow> 'a \<times> ('s, 'e) Sys" where
  "with_repo f s = (case f (s_store s, s_env s) of (x, r, e) \<Rightarrow> (x, s\<lparr>s_store := r, s_env := e\<rparr>))"

type_synonym ('s, 'e) Handler =
  "Request \<Rightarrow> ('s, 'e) Sys \<Rightarrow> Response \<times> ('s, 'e) Sys"

section \<open>The handlers\<close>

definition healthzHandler :: "('s, 'e) Handler" where
  "healthzHandler rq s = (writeJSON 200 (StringsBody [(''status'', ''ok'')]), s)"

definition readyzHandler :: "('s, 'e) Handler" where
  "readyzHandler rq s = (writeJSON 200 (StringsBody [(''status'', ''ready'')]), s)"

text \<open>The vendor registration inside \<open>createApplicationHandler\<close>.\<close>

definition register_vendor ::
  "('s, 'e AuditEnv_scheme) Services \<Rightarrow> ctx \<Rightarrow> Application \<Rightarrow> string \<Rightarrow>
     ('s, 'e AuditEnv_scheme) Sys \<Rightarrow> ('s, 'e AuditEnv_scheme) Sys" where
  "register_vendor sv ctx app fullName s =
     (case sv_Vendor sv of
        None \<Rightarrow> s
      | Some V \<Rightarrow>
          (case with_env (vc_CreateApplicant V ctx
                  \<lparr>va_ApplicationID = app_ID app, va_UserID = app_UserID app, va_FullName = fullName\<rparr>) s of
             (Inl _, s) \<Rightarrow> s
           | (Inr vid, s) \<Rightarrow>
               (let s = on_env (Metrics.count vendorCallsTotal_update 1) s;
                    (_, s) = with_repo (\<lambda>st. ((), repo_SetVendorApplicantID (sv_Repo sv) (app_ID app) vid st)) s
                in on_env (Record (app_ID app) ''vendor_create_applicant'' ''system''
                     [''vendor'' \<mapsto> AString (vc_Name V), ''vendor_applicant_id'' \<mapsto> AString vid]) s)))"

definition createApplicationHandler ::
  "('s, 'e AuditEnv_scheme) Services \<Rightarrow> ('s, 'e AuditEnv_scheme) Handler" where
  "createApplicationHandler sv rq s =
     (case decodeJSON (sv_lib sv) [''user_id'', ''vendor'', ''full_name''] rq of
        Inl err \<Rightarrow> (writeError rq err, s)
      | Inr req \<Rightarrow>
          if req ''user_id'' = '''' then (writeError rq (AppErr errMissingUserID), s)
          else
            (let (uid, s) = with_env newUUID s;
                 app = \<lparr>app_ID = uid, app_UserID = req ''user_id'', app_Vendor = req ''vendor'',
                        app_VendorApplicantID = '''', app_State = StateStarted, app_CreatedAt = 0,
                        app_UpdatedAt = 0, app_ExpiresAt = 0, app_ReKYCDueAt = 0, app_DecidedAt = 0,
                        app_Version = 0\<rparr>
             in (case with_repo (repo_Create (sv_Repo sv) app) s of
                   ((Some err, _), s) \<Rightarrow> (writeError rq err, s)
                 | ((None, app), s) \<Rightarrow>
                     (let s = register_vendor sv (req_ctx rq) app (req ''full_name'') s;
                          s = on_env (Record (app_ID app) ''application_created'' ''system''
                                [''user_id'' \<mapsto> AString (app_UserID app)]) s;
                          s = on_env (Metrics.count createAppTotal_update 1) s
                      in (writeJSON 201 (CreateAppBody (app_ID app) (app_UserID app) (app_State app)
                            (app_CreatedAt app)), s)))))"

definition getApplicationHandler ::
  "('s, 'e) Services \<Rightarrow> ('s, 'e) Handler" where
  "getApplicationHandler sv rq s =
     (let i = req_path rq ''id'' in
      case with_repo (repo_Get (sv_Repo sv) i) s of
        (Inl err, s) \<Rightarrow> (writeError rq err, s)
      | (Inr app, s) \<Rightarrow>
          (let (documents, s) = with_store (docs_List (sv_Docs sv) i) s;
               (latest, s) = with_store (lives_Latest (sv_Liveness sv) i) s
           in (writeJSON 200 (ApplicationBody app documents latest []), s)))"

definition getStatusHandler ::
  "('s, 'e) Services \<Rightarrow> ('s, 'e) Handler" where
  "getStatusHandler sv rq s =
     (case with_repo (repo_GetByUserID (sv_Repo sv) (req_path rq ''user_id'')) s of
        (Inl err, s) \<Rightarrow> (writeError rq err, s)
      | (Inr app, s) \<Rightarrow>
          (writeJSON 200 (StatusBody (app_UserID app) (app_ID app) (app_State app) (app_UpdatedAt app)
             (if \<not> IsZero (app_DecidedAt app) then Some (app_DecidedAt app) else None)
             (if \<not> IsZero (app_ReKYCDueAt app) then Some (app_ReKYCDueAt app) else None)), s))"

definition validDocTypes :: "string \<rightharpoonup> bool" where
  "validDocTypes = [''ID_FRONT'' \<mapsto> True, ''ID_BACK'' \<mapsto> True, ''SELFIE'' \<mapsto> True, ''POA'' \<mapsto> True]"

definition bytes_of :: "string \<Rightarrow> byte list" where
  "bytes_of s = map (\<lambda>c. of_nat (of_char c)) s"

definition parseDocRequest :: "Lib \<Rightarrow> Request \<Rightarrow> go_error + string \<times> byte list" where
  "parseDocRequest lib rq =
     (if HasPrefix (req_header rq ''Content-Type'') ''multipart/'' then
        (case req_form rq of
           Inl _ \<Rightarrow> Inl (AppErr (NewAppError ''bad_form'' ''invalid multipart form'' 400))
         | Inr (form, file) \<Rightarrow>
             Inr (form ''type'',
               (case file of
                  Some content \<Rightarrow> content
                | None \<Rightarrow> if form ''content'' \<noteq> '''' then bytes_of (form ''content'') else [])))
      else
        (case decodeJSON lib [''type'', ''content''] rq of
           Inl err \<Rightarrow> Inl err
         | Inr req \<Rightarrow> Inr (req ''type'', bytes_of (req ''content''))))"

text \<open>The vendor upload inside \<open>uploadDocumentHandler\<close>.\<close>

definition upload_vendor ::
  "('s, 'e AuditEnv_scheme) Services \<Rightarrow> ctx \<Rightarrow> Application \<Rightarrow> string \<Rightarrow> string \<Rightarrow> byte list \<Rightarrow>
     ('s, 'e AuditEnv_scheme) Sys \<Rightarrow> ('s, 'e AuditEnv_scheme) Sys" where
  "upload_vendor sv ctx app i docType content s =
     (case sv_Vendor sv of
        None \<Rightarrow> s
      | Some V \<Rightarrow>
          if app_VendorApplicantID app = '''' then s
          else (case with_env (vc_UploadDocument V ctx (app_VendorApplicantID app)
                        \<lparr>vd_Type = docType, vd_Content = content\<rparr>) s of
                  (Inl _, s) \<Rightarrow> s
                | (Inr vdocID, s) \<Rightarrow>
                    (let s = on_env (Metrics.count vendorCallsTotal_update 1) s
                     in on_env (Record i ''vendor_upload_document'' ''system''
                          [''vendor_document_id'' \<mapsto> AString vdocID]) s)))"

definition uploadDocumentHandler ::
  "('s, 'e AuditEnv_scheme) Services \<Rightarrow> ('s, 'e AuditEnv_scheme) Handler" where
  "uploadDocumentHandler sv rq s =
     (let i = req_path rq ''id'' in
      case with_repo (repo_Get (sv_Repo sv) i) s of
        (Inl err, s) \<Rightarrow> (writeError rq err, s)
      | (Inr app, s) \<Rightarrow>
          (case parseDocRequest (sv_lib sv) rq of
             Inl err \<Rightarrow> (writeError rq err, s)
           | Inr (docType, content) \<Rightarrow>
               if \<not> index_bool validDocTypes docType then (writeError rq (AppErr errBadDocType), s)
               else
                 (let (now, s) = with_env time_Now s;
                      (uid, s) = with_env newUUID s;
                      doc = \<lparr>doc_ID = uid, doc_ApplicationID = i, doc_Type = docType, doc_Content = content,
                             doc_UploadedAt = now, doc_RetentionUntil = AddDuration now year365\<rparr>;
                      s = s\<lparr>s_store := docs_Add (sv_Docs sv) i doc (s_store s)\<rparr>;
                      s = on_env (Metrics.count uploadDocTotal_update 1) s;
                      s = upload_vendor sv (req_ctx rq) app i docType content s;
                      s = (if app_State app = StateStarted
                           then (let (complete, s) = with_store (docs_HasRequiredDocs (sv_Docs sv) i) s
                                 in if complete
                                    then snd (with_repo (repo_UpdateState (sv_Repo sv) i (app_Version app)
                                           StateDocumentsUploaded ''system'' ''required documents uploaded'') s)
                                    else s)
                           else s);
                      s = on_env (Record i ''document_uploaded'' ''system'' [''type'' \<mapsto> AString docType]) s
                  in (writeJSON 201 (DocumentBody doc), s))))"

definition listDocumentsHandler ::
  "('s, 'e) Services \<Rightarrow> ('s, 'e) Handler" where
  "listDocumentsHandler sv rq s =
     (let i = req_path rq ''id'' in
      case with_repo (repo_Get (sv_Repo sv) i) s of
        (Inl err, s) \<Rightarrow> (writeError rq err, s)
      | (Inr _, s) \<Rightarrow>
          (let (documents, s) = with_store (docs_List (sv_Docs sv) i) s
           in (writeJSON 200 (DocumentsBody documents), s)))"

text \<open>
  A missing vendor is a nil dereference in \<open>startLivenessHandler\<close>; \<open>net/http\<close> recovers from the
  panic and drops the connection, which is status 0 without a body here.
\<close>

definition startLivenessHandler ::
  "('s, 'e AuditEnv_scheme) Services \<Rightarrow> ('s, 'e AuditEnv_scheme) Handler" where
  "startLivenessHandler sv rq s =
     (let i = req_path rq ''id'' in
      case with_repo (repo_Get (sv_Repo sv) i) s of
        (Inl err, s) \<Rightarrow> (writeError rq err, s)
      | (Inr app, s) \<Rightarrow>
          if app_State app \<noteq> StateDocumentsUploaded \<and> app_State app \<noteq> StateStarted
          then (writeError rq (AppErr (NewAppError ''bad_state''
                  ''liveness requires documents_uploaded or started state'' 409)), s)
          else
            (case sv_Vendor sv of
               None \<Rightarrow> (\<lparr>resp_status = 0, resp_headers = [], resp_body = NoBody\<rparr>, s)
             | Some V \<Rightarrow>
                 (case with_env (vc_StartLiveness V (req_ctx5 rq) (app_VendorApplicantID app)) s of
                    (Inl vErr, s) \<Rightarrow>
                      (writeError rq (AppErr (NewAppError ''vendor_error''
                         (''vendor liveness start failed: '' @ error_text vErr) 502)), s)
                  | (Inr vendorSessionID, s) \<Rightarrow>
                      (let (now, s) = with_env time_Now s;
                           (uid, s) = with_env newUUID s;
                           sess = \<lparr>ls_ID = uid, ls_ApplicationID = i, ls_VendorSessionID = vendorSessionID,
                                   ls_Status = ''PASSED'', ls_StartedAt = now, ls_CompletedAt = now,
                                   ls_Result = ''PASS'', ls_RetentionUntil = AddDuration now year365\<rparr>;
                           s = s\<lparr>s_store := lives_Add (sv_Liveness sv) i sess (s_store s)\<rparr>;
                           s = on_env (Metrics.count livenessTotal_update 1) s;
                           s = on_env (Record i ''liveness_started'' ''system''
                                 [''vendor_session_id'' \<mapsto> AString vendorSessionID]) s;
                           s = (if ls_Result sess = ''PASS''
                                then (let (_, s) = with_repo (repo_UpdateState (sv_Repo sv) i (app_Version app)
                                             StateLivenessPassed ''system'' ''liveness passed'') s
                                      in on_env (Record i ''liveness_passed'' ''system'' Map.empty) s)
                                else s)
                       in (writeJSON 201 (LivenessBody sess), s)))))"

definition getLivenessHandler ::
  "('s, 'e) Services \<Rightarrow> ('s, 'e) Handler" where
  "getLivenessHandler sv rq s =
     (let i = req_path rq ''id'' in
      case with_repo (repo_Get (sv_Repo sv) i) s of
        (Inl err, s) \<Rightarrow> (writeError rq err, s)
      | (Inr _, s) \<Rightarrow>
          (case with_store (lives_Latest (sv_Liveness sv) i) s of
             (None, s) \<Rightarrow> (writeError rq (AppErr (NewAppError ''no_liveness'' ''no liveness session'' 404)), s)
           | (Some sess, s) \<Rightarrow> (writeJSON 200 (LivenessBody sess), s)))"

definition runScreeningHandler ::
  "('s, 'e AuditEnv_scheme) Services \<Rightarrow> ('s, 'e AuditEnv_scheme) Handler" where
  "runScreeningHandler sv rq s =
     (let i = req_path rq ''id'' in
      case with_repo (repo_Get (sv_Repo sv) i) s of
        (Inl err, s) \<Rightarrow> (writeError rq err, s)
      | (Inr app, s) \<Rightarrow>
          (case decodeJSON (sv_lib sv) [''full_name''] rq of
             Inl err \<Rightarrow> (writeError rq err, s)
           | Inr req \<Rightarrow>
               (let (res, h, e) = screening_Run (sv_Screener sv) (sv_environ sv) True (req_ctx rq) app
                      (req ''full_name'') (s_hits s, s_env s);
                    s = s\<lparr>s_hits := h, s_env := e\<rparr>
                in (case res of
                      Inl serr \<Rightarrow> (writeError rq (AppErr (NewAppError ''screening_error'' (error_text serr) 500)), s)
                    | Inr (hs, manual) \<Rightarrow>
                        (let s = on_env (Metrics.count screeningTotal_update 1) s;
                             s = on_env (Metrics.count screeningHits_update (of_nat (length hs))) s;
                             to = (if manual then StateManualReview else StateScreening);
                             s = (if CanTransition (app_State app) to
                                  then snd (with_repo (repo_UpdateState (sv_Repo sv) i (app_Version app) to
                                         ''system'' ''screening run'') s)
                                  else s)
                         in (writeJSON 200 (ScreeningBody hs manual (app_State app)), s))))))"

definition screeningDispositionHandler ::
  "('s, 'e AuditEnv_scheme) Services \<Rightarrow> ('s, 'e AuditEnv_scheme) Handler" where
  "screeningDispositionHandler sv rq s =
     (case decodeJSON (sv_lib sv) [''disposition'', ''reviewed_by''] rq of
        Inl err \<Rightarrow> (writeError rq err, s)
      | Inr req \<Rightarrow>
          (case Disposition (sv_Repo sv) True (req_path rq ''id'') (req ''disposition'') (req ''reviewed_by'')
                  (s_store s, s_hits s, s_env s) of
             (res, r, h, e) \<Rightarrow>
               (let s = s\<lparr>s_store := r, s_hits := h, s_env := e\<rparr>
                in (case res of
                      Some err \<Rightarrow> (writeError rq err, s)
                    | None \<Rightarrow> (writeJSON 200 (StringsBody [(''status'', ''ok'')]), s)))))"

text \<open>\<open>r.Header.Get\<close> of one name, or of a second if the first is empty.\<close>

definition header_or :: "Request \<Rightarrow> string \<Rightarrow> string \<Rightarrow> string" where
  "header_or rq name other = (if req_header rq name = '''' then req_header rq other else req_header rq name)"

definition webhookHandler ::
  "('s, 'e AuditEnv_scheme) Services \<Rightarrow> ('e AuditEnv_scheme) VendorClient \<Rightarrow>
     ('s, 'e AuditEnv_scheme) Handler" where
  "webhookHandler sv V rq s =
     (case req_body rq of
        Inl _ \<Rightarrow> (writeError rq (AppErr (NewAppError ''bad_body'' ''cannot read body'' 400)), s)
      | Inr raw \<Rightarrow>
          (let (res, r, w, e) = Ingest (sv_lib sv) (sv_Repo sv) V (sv_Webhook sv) (req_ctx rq)
                 (req_path rq ''vendor'') raw
                 (header_or rq ''X-Webhook-Signature'' ''X-Signature'')
                 (header_or rq ''X-Webhook-Timestamp'' ''X-Timestamp'')
                 (header_or rq ''X-Webhook-Id'' ''X-Event-Id'') (s_store s, s_seen s, s_env s);
               s = s\<lparr>s_store := r, s_seen := w, s_env := e\<rparr>
           in if Accepted res then
                (writeJSON 200 (StringsBody [(''status'', ''accepted''), (''event_id'', EventID res)]),
                 on_env (Metrics.count webhookAccept_update 1) s)
              else if Duplicate res then
                (writeJSON 200 (StringsBody [(''status'', ''duplicate''), (''event_id'', EventID res)]),
                 on_env (Metrics.count webhookDuplicate_update 1) s)
              else
                (writeError rq (AppErr (NewAppError ''webhook_rejected'' (Reason res) 401)),
                 on_env (Metrics.count webhookReject_update 1) s)))"

definition triggerReKYCHandler ::
  "('s, 'e AuditEnv_scheme) Services \<Rightarrow> ('s, 'e AuditEnv_scheme) Handler" where
  "triggerReKYCHandler sv rq s =
     (case decodeJSON (sv_lib sv) [''user_id''] rq of
        Inl err \<Rightarrow> (writeError rq err, s)
      | Inr req \<Rightarrow>
          if req ''user_id'' = ''''
          then (writeError rq (AppErr (NewAppError ''missing_user_id'' ''user_id is required'' 400)), s)
          else
            (case with_repo (repo_GetByUserID (sv_Repo sv) (req ''user_id'')) s of
               (Inl err, s) \<Rightarrow> (writeError rq err, s)
             | (Inr app, s) \<Rightarrow>
                 (case with_repo (repo_Reopen (sv_Repo sv) (app_ID app) (app_Version app) ''internal'') s of
                    (Inl err, s) \<Rightarrow> (writeError rq err, s)
                  | (Inr _, s) \<Rightarrow>
                      (let s = on_env (Record (app_ID app) ''re_kyc_triggered'' ''internal''
                                 [''user_id'' \<mapsto> AString (req ''user_id'')]) s;
                           s = on_env (Metrics.count rekycTotal_update 1) s
                       in (writeJSON 200 (StringsBody [(''status'', ''reopened'')]), s)))))"

definition auditEventsHandler :: "('s, 'e AuditEnv_scheme) Handler" where
  "auditEventsHandler rq s = (writeJSON 200 (EventsBody (audit_List (s_env s))), s)"

definition metricsPage :: "('s, 'e AuditEnv_scheme) Handler" where
  "metricsPage rq s =
     (\<lparr>resp_status = 200, resp_headers = [(''Content-Type'', ''text/plain; version=0.0.4'')],
       resp_body = TextBody (metricsHandler (globalMetrics (s_env s)))\<rparr>, s)"

section \<open>Routing and middleware\<close>

text \<open>
  The patterns of \<open>newMuxWithServices\<close>, on the segments of a clean path, on which an empty last
  segment stands for a trailing slash (to any other path \<open>ServeMux\<close> answers with a redirection to the
  clean one). A wildcard does not match the trailing slash, and a pattern with \<open>GET\<close> also serves
  \<open>HEAD\<close>. The result is the handler and the path values. Where only the method does not fit, the
  answer names those that do.
\<close>

datatype route =
    Healthz | Readyz | MetricsR
  | CreateApplication | GetApplication | GetStatus | UploadDocument | ListDocuments
  | StartLiveness | GetLiveness | RunScreening | ScreeningDisposition | Webhook | TriggerReKYC | AuditEvents
  | MethodNotAllowed "string list" | NotFound

definition path_value :: "string \<Rightarrow> string \<Rightarrow> string \<Rightarrow> string" where
  "path_value name v = (\<lambda>n. if n = name then v else '''')"

text \<open>The methods of the \<open>Allow\<close> header, sorted; the patterns have only \<open>GET\<close> and \<open>POST\<close>.\<close>

definition allowed_methods :: "(string \<times> route) list \<Rightarrow> string list" where
  "allowed_methods table =
     filter (\<lambda>m. m \<in> fst ` set table \<or> m = ''HEAD'' \<and> ''GET'' \<in> fst ` set table) [''GET'', ''HEAD'', ''POST'']"

definition by_method :: "string \<Rightarrow> (string \<times> route) list \<Rightarrow> route" where
  "by_method verb table =
     (case find (\<lambda>(m, _). m = verb \<or> m = ''GET'' \<and> verb = ''HEAD'') table of
        Some (_, rt) \<Rightarrow> rt
      | None \<Rightarrow> MethodNotAllowed (allowed_methods table))"

definition newMux :: "string \<Rightarrow> string list \<Rightarrow> route \<times> (string \<Rightarrow> string)" where
  "newMux verb segs =
     (let no = (\<lambda>_. '''') in
      if segs = [''healthz''] then (Healthz, no)
      else if segs = [''readyz''] then (Readyz, no)
      else if segs = [''metrics''] then (MetricsR, no)
      else if segs = [''v1'', ''kyc'', ''applications''] then (by_method verb [(''POST'', CreateApplication)], no)
      else if segs = [''v1'', ''audit-events''] then (by_method verb [(''GET'', AuditEvents)], no)
      else if segs = [''internal'', ''v1'', ''rekyc'', ''trigger''] then (by_method verb [(''POST'', TriggerReKYC)], no)
      else if length segs = 3 \<and> take 2 segs = [''v1'', ''webhooks''] \<and> segs ! 2 \<noteq> ''''
      then (by_method verb [(''POST'', Webhook)], path_value ''vendor'' (segs ! 2))
      else if length segs = 4 \<and> take 3 segs = [''v1'', ''kyc'', ''status''] \<and> segs ! 3 \<noteq> ''''
      then (by_method verb [(''GET'', GetStatus)], path_value ''user_id'' (segs ! 3))
      else if length segs \<ge> 4 \<and> take 3 segs = [''v1'', ''kyc'', ''applications''] \<and> segs ! 3 \<noteq> ''''
      then (let pv = path_value ''id'' (segs ! 3); rest = drop 4 segs in
            if rest = [] then (by_method verb [(''GET'', GetApplication)], pv)
            else if rest = [''documents'']
            then (by_method verb [(''POST'', UploadDocument), (''GET'', ListDocuments)], pv)
            else if rest = [''liveness'']
            then (by_method verb [(''POST'', StartLiveness), (''GET'', GetLiveness)], pv)
            else if rest = [''screening''] then (by_method verb [(''POST'', RunScreening)], pv)
            else if rest = [''screening'', ''disposition'']
            then (by_method verb [(''POST'', ScreeningDisposition)], pv)
            else (NotFound, no))
      else (NotFound, no))"

text \<open>\<open>http.Error\<close>, by which \<open>ServeMux\<close> answers what it does not route.\<close>

definition http_Error :: "string \<Rightarrow> nat \<Rightarrow> (string \<times> string) list \<Rightarrow> Response" where
  "http_Error text code headers =
     \<lparr>resp_status = code,
      resp_headers = headers @ [(''Content-Type'', ''text/plain; charset=utf-8''), (''X-Content-Type-Options'', ''nosniff'')],
      resp_body = TextBody (text @ [CHR 0x0A])\<rparr>"

text \<open>
  \<open>V\<close> is the client \<open>newServices\<close> has given to the webhook service, the same as \<open>sv_Vendor\<close>.
\<close>

definition handle ::
  "('s, 'e AuditEnv_scheme) Services \<Rightarrow> ('e AuditEnv_scheme) VendorClient \<Rightarrow> route \<Rightarrow>
     ('s, 'e AuditEnv_scheme) Handler" where
  "handle sv V rt =
     (case rt of
        Healthz \<Rightarrow> healthzHandler
      | Readyz \<Rightarrow> readyzHandler
      | MetricsR \<Rightarrow> metricsPage
      | CreateApplication \<Rightarrow> createApplicationHandler sv
      | GetApplication \<Rightarrow> getApplicationHandler sv
      | GetStatus \<Rightarrow> getStatusHandler sv
      | UploadDocument \<Rightarrow> uploadDocumentHandler sv
      | ListDocuments \<Rightarrow> listDocumentsHandler sv
      | StartLiveness \<Rightarrow> startLivenessHandler sv
      | GetLiveness \<Rightarrow> getLivenessHandler sv
      | RunScreening \<Rightarrow> runScreeningHandler sv
      | ScreeningDisposition \<Rightarrow> screeningDispositionHandler sv
      | Webhook \<Rightarrow> webhookHandler sv V
      | TriggerReKYC \<Rightarrow> triggerReKYCHandler sv
      | AuditEvents \<Rightarrow> auditEventsHandler
      | MethodNotAllowed ms \<Rightarrow> (\<lambda>rq s. (http_Error ''Method Not Allowed'' 405 [(''Allow'', Join '', '' ms)], s))
      | NotFound \<Rightarrow> (\<lambda>rq s. (http_Error ''404 page not found'' 404 [], s)))"

text \<open>\<open>time.Since\<close>: the difference saturates at the ends of the 64-bit range.\<close>

definition Since :: "time \<Rightarrow> time \<Rightarrow> duration" where
  "Since now start = word_of_int (max (- (2 ^ 63)) (min (2 ^ 63 - 1) (now - start)))"

text \<open>The clock is read once before the handler and twice after it, the second time for the log line.\<close>

definition loggingMiddleware ::
  "('s, 'e AuditEnv_scheme) Handler \<Rightarrow> ('s, 'e AuditEnv_scheme) Handler" where
  "loggingMiddleware next_handler rq s =
     (let (start, s) = with_env time_Now s;
          (resp, s) = next_handler rq s;
          s = on_env (Metrics.count requestsTotal_update 1) s;
          (now, s) = with_env time_Now s;
          s = on_env (\<lambda>e. e\<lparr>globalMetrics := observeLatency (Since now start) (globalMetrics e)\<rparr>) s;
          (_, s) = with_env time_Now s
      in (resp, s))"

definition correlationMiddleware ::
  "('s, 'e AuditEnv_scheme) Handler \<Rightarrow> ('s, 'e AuditEnv_scheme) Handler" where
  "correlationMiddleware next_handler rq s =
     (let (rid, s) = (if req_header rq ''X-Correlation-Id'' = '''' then with_env newUUID s
                      else (req_header rq ''X-Correlation-Id'', s));
          (resp, s) = next_handler (rq\<lparr>req_rid := rid\<rparr>) s
      in (resp\<lparr>resp_headers := (''X-Correlation-Id'', rid) # resp_headers resp\<rparr>, s))"

text \<open>
  \<open>newServer\<close>'s handler; \<open>spanMiddleware\<close>, between the two, is in \<open>Tracing\<close>.
\<close>

definition serve ::
  "('s, 'e AuditEnv_scheme) Services \<Rightarrow> ('e AuditEnv_scheme) VendorClient \<Rightarrow> string \<Rightarrow> string list \<Rightarrow>
     ('s, 'e AuditEnv_scheme) Handler" where
  "serve sv V verb segs =
     correlationMiddleware (loggingMiddleware
       (\<lambda>rq s. case newMux verb segs of (rt, pv) \<Rightarrow> handle sv V rt (rq\<lparr>req_path := pv\<rparr>) s))"

section \<open>Starting up\<close>

datatype store_choice = UseDB string | UseMemory

datatype screening_choice = UseHTTPSanctions string | UseMemoryList

record StartUp =
  st_kafka :: "KafkaWriter option"
  st_policy :: bool
  st_store :: store_choice
  st_screening :: screening_choice
  st_vendor :: vendor_choice

text \<open>
  The decisions of \<open>newServices\<close>. \<open>None\<close> is the end of the process: \<open>os.Exit\<close> in
  \<open>NewAuditLogFromEnv\<close>, or one of the panics. Opening the database is not part of it.
\<close>

definition newServices :: "environ \<Rightarrow> StartUp option" where
  "newServices env =
     (let dev = (env ''DEV_MODE'' = ''1'') in
      case NewAuditLogFromEnv env of
        None \<Rightarrow> None
      | Some kafka \<Rightarrow>
          (case (if env ''DB_URL'' \<noteq> '''' then Some (UseDB (env ''DB_URL''))
                 else if \<not> dev then None else Some UseMemory) of
             None \<Rightarrow> None
           | Some store \<Rightarrow>
               (case (if env ''SANCTIONS_LIST_URL'' \<noteq> '''' then Some (UseHTTPSanctions (env ''SANCTIONS_LIST_URL''))
                      else if dev then Some UseMemoryList
                      else if env ''KYC_VENDOR_URL'' = '''' then None else Some UseMemoryList) of
                  None \<Rightarrow> None
                | Some screening \<Rightarrow>
                    (case NewVendorClientWithMode env dev of
                       Inl _ \<Rightarrow> None
                     | Inr vendor \<Rightarrow>
                         Some \<lparr>st_kafka = kafka, st_policy = (env ''POLICY_RISK_ENGINE_URL'' \<noteq> ''''),
                               st_store = store, st_screening = screening, st_vendor = vendor\<rparr>))))"

definition screening_client_for ::
  "Lib \<Rightarrow> (string \<Rightarrow> duration option) \<Rightarrow> environ \<Rightarrow> screening_choice \<Rightarrow> ('e NetEnv_scheme) ScreeningClient" where
  "screening_client_for lib parse env choice =
     (case choice of
        UseHTTPSanctions u \<Rightarrow> http_Screen lib (NewHTTPSanctionsClient parse env u '''' 0)
      | UseMemoryList \<Rightarrow> mem_Screen NewInMemoryScreeningClient)"

definition event_sink_for :: "bool \<Rightarrow> ('e PolicyEnv_scheme) EventSink" where
  "event_sink_for policy = (if policy then policy_audit_sink else RecordTransition)"

text \<open>The services over the in-memory stores, as \<open>newServices\<close> wires them without a database.\<close>

definition memory_services ::
  "Lib \<Rightarrow> (string \<Rightarrow> duration option) \<Rightarrow> environ \<Rightarrow> StartUp \<Rightarrow> (MemStores, 'e NetEnv_scheme) Services" where
  "memory_services lib parse env st =
     \<lparr>sv_Repo = stored_repo (mem_repo (event_sink_for (st_policy st))), sv_Docs = mem_docs, sv_Liveness = mem_live,
      sv_Screener = screening_client_for lib parse env (st_screening st),
      sv_Webhook = NewWebhookService env True,
      sv_Vendor = Some (vendor_client lib parse env (st_vendor st)), sv_lib = lib, sv_environ = env\<rparr>"

text \<open>The process before its first request, over stores \<open>m\<close>.\<close>

definition start_sys :: "'s \<Rightarrow> 'e \<Rightarrow> ('s, 'e) Sys" where
  "start_sys m e = \<lparr>s_store = m, s_hits = NewScreeningStore, s_seen = NewWebhookStore, s_env = e\<rparr>"

definition memory_start :: "'e \<Rightarrow> (MemStores, 'e) Sys" where
  "memory_start = start_sys NewMemStores"

text \<open>What the in-memory stores of a process hold.\<close>

abbreviation s_repo :: "(MemStores, 'e) Sys \<Rightarrow> ApplicationRepository" where
  "s_repo s \<equiv> m_repo (s_store s)"

abbreviation s_docs :: "(MemStores, 'e) Sys \<Rightarrow> DocumentStore" where
  "s_docs s \<equiv> m_docs (s_store s)"

abbreviation s_live :: "(MemStores, 'e) Sys \<Rightarrow> LivenessStore" where
  "s_live s \<equiv> m_live (s_store s)"

section \<open>Properties of the error mapping and of the start-up\<close>

text \<open>
  The texts of two unknown errors are answered alike: nothing of them reaches the client.
\<close>

lemma writeError_internal: "writeError rq (Plain m) = writeError rq (Plain m')"
  by (simp add: writeError_def toAppError_def Let_def)


definition demo_production :: environ where
  "demo_production = (\<lambda>_. '''')(''DB_URL'' := ''postgres://db'', ''KAFKA_BROKERS'' := ''k:9092'',
     ''KYC_VENDOR_URL'' := ''https://kyc'')"


end
