(* ===== verification/Service.thy ===== *)
theory Service
  imports Server
begin

text \<open>
  The service as a whole. Every handler, middleware and background job is shown to be a run of
  calls of the interfaces it uses (\<open>sys_calls\<close>), over any stores, screening client and vendor.
  Where the stores meet their contracts such a run is one of the abstract system of
  \<open>RepoContract\<close>; so what holds of every run of it holds of every state the service can reach. The
  in-memory services that \<open>newServices\<close> wires are an instance; over PostgreSQL the calls are
  followed one by one (\<open>DBService\<close>).
\<close>

section \<open>Runs\<close>

definition sys_ok :: "('s \<Rightarrow> view) \<Rightarrow> ('s \<Rightarrow> bool) \<Rightarrow> ('s, 'e AuditEnv_scheme) Sys \<Rightarrow> bool" where
  "sys_ok view_of good s \<longleftrightarrow> repo_ok view_of good (s_store s, s_env s)"

text \<open>One call, by a handler or a job. Identifiers of webhooks are only added.\<close>

inductive sys_call ::
  "('s, 'e AuditEnv_scheme) Services \<Rightarrow> ('s, 'e AuditEnv_scheme) Sys \<Rightarrow> ('s, 'e AuditEnv_scheme) Sys \<Rightarrow> bool"
  for SV where
  repo: "repo_call (sv_Repo SV) (s_store s, s_env s) (r, e) \<Longrightarrow> sys_call SV s (s\<lparr>s_store := r, s_env := e\<rparr>)"
| evidence: "evidence_call (sv_Docs SV) (sv_Liveness SV) (s_store s) r \<Longrightarrow> sys_call SV s (s\<lparr>s_store := r\<rparr>)"
| hits: "sys_call SV s (s\<lparr>s_hits := h\<rparr>)"
| seen: "seen (s_seen s) \<subseteq>\<^sub>m seen w \<Longrightarrow> sys_call SV s (s\<lparr>s_seen := w\<rparr>)"

definition sys_calls ::
  "('s, 'e AuditEnv_scheme) Services \<Rightarrow> ('s, 'e AuditEnv_scheme) Sys \<Rightarrow> ('s, 'e AuditEnv_scheme) Sys \<Rightarrow> bool" where
  "sys_calls SV = (sys_call SV)\<^sup>*\<^sup>*"

lemma sys_calls_refl [simp, intro]: "sys_calls SV s s"
  by (simp add: sys_calls_def)

lemma sys_calls_trans: "sys_calls SV s s1 \<Longrightarrow> sys_calls SV s1 s2 \<Longrightarrow> sys_calls SV s s2"
  unfolding sys_calls_def by (rule rtranclp_trans)

lemma sys_calls_step: "sys_calls SV s s1 \<Longrightarrow> sys_call SV s1 s2 \<Longrightarrow> sys_calls SV s s2"
  unfolding sys_calls_def by (rule rtranclp.rtrancl_into_rtrancl)

lemma sys_calls_repo:
  assumes "sys_calls SV s s1" and "repo_calls (sv_Repo SV) (s_store s1, s_env s1) (r, e)"
  shows "sys_calls SV s (s1\<lparr>s_store := r, s_env := e\<rparr>)"
  using assms(2)
proof (induction "(r, e)" arbitrary: r e rule: rtranclp_induct)
  case base
  then show ?case using assms(1) by simp
next
  case (step y)
  obtain r1 e1 where y: "y = (r1, e1)" by fastforce
  from sys_calls_step [OF step(3) [OF y] sys_call.repo, of r e] step(2) y show ?case by simp
qed

lemma sys_calls_quiet:
  assumes "s_store s' = s_store s" and "logs None (s_env s) (s_env s')" and "s_hits s' = s_hits s" and "s_seen s' = s_seen s"
  shows "sys_calls SV s s'"
proof -
  have "sys_calls SV s (s\<lparr>s_store := s_store s, s_env := s_env s'\<rparr>)"
    using assms(2) by (intro sys_calls_repo repo_calls_quiet) simp_all
  moreover have "s\<lparr>s_store := s_store s, s_env := s_env s'\<rparr> = s'" using assms by (cases s; cases s') simp
  ultimately show ?thesis by simp
qed

lemma sys_calls_frame:
  assumes "sys_calls SV s s1"
  shows "sys_calls SV s (s1\<lparr>s_hits := h\<rparr>)"
    and "seen (s_seen s1) \<subseteq>\<^sub>m seen w \<Longrightarrow> sys_calls SV s (s1\<lparr>s_seen := w\<rparr>)"
  using assms by (blast intro: sys_calls_step sys_call.hits sys_call.seen)+

lemma sys_calls_seen: "sys_calls SV s s' \<Longrightarrow> seen (s_seen s) \<subseteq>\<^sub>m seen (s_seen s')"
  unfolding sys_calls_def
proof (induction rule: rtranclp_induct)
  case (step s1 s2)
  from step(2) have "seen (s_seen s1) \<subseteq>\<^sub>m seen (s_seen s2)" by cases simp_all
  with step(3) show ?case by (rule map_le_trans)
qed simp

lemma sys_reorder:
  "s\<lparr>s_env := e, s_hits := h\<rparr> = s\<lparr>s_hits := h, s_env := e\<rparr>"
  "s\<lparr>s_env := e, s_seen := w\<rparr> = s\<lparr>s_seen := w, s_env := e\<rparr>"
  by simp_all

text \<open>The rules by which the handlers are composed.\<close>

named_theorems call_intros

lemma calls_on_env [call_intros]:
  "(\<And>e. logs None e (f e)) \<Longrightarrow> sys_calls SV s s1 \<Longrightarrow> sys_calls SV s (on_env f s1)"
  by (erule sys_calls_trans) (rule sys_calls_quiet; simp add: on_env_def)

lemma calls_with_env:
  "(\<And>e. logs None e (snd (f e))) \<Longrightarrow> sys_calls SV s s1 \<Longrightarrow> sys_calls SV s (snd (with_env f s1))"
  by (erule sys_calls_trans) (rule sys_calls_quiet; simp add: with_env_def split_beta)

lemma calls_time_Now [call_intros]:
  "sys_calls SV s s1 \<Longrightarrow> sys_calls SV s (snd (with_env time_Now s1))"
  by (rule calls_with_env) simp_all

lemma calls_newUUID [call_intros]:
  "sys_calls SV s s1 \<Longrightarrow> sys_calls SV s (snd (with_env newUUID s1))"
  by (rule calls_with_env) (simp_all add: newUUID_def)

lemma calls_if [call_intros]:
  "(b \<Longrightarrow> sys_calls SV s s1) \<Longrightarrow> (\<not> b \<Longrightarrow> sys_calls SV s s2) \<Longrightarrow> sys_calls SV s (if b then s1 else s2)"
  by simp

text \<open>The operations of the repositories.\<close>

lemma calls_with_repo:
  assumes "sys_calls SV s s1" and "repo_call (sv_Repo SV) (s_store s1, s_env s1) (snd (f (s_store s1, s_env s1)))"
  shows "sys_calls SV s (snd (with_repo f s1))"
proof -
  obtain x r e where f: "f (s_store s1, s_env s1) = (x, r, e)" by (rule prod_cases3)
  then have "snd (with_repo f s1) = s1\<lparr>s_store := r, s_env := e\<rparr>" by (simp add: with_repo_def)
  with sys_calls_step [OF assms(1) sys_call.repo, of r e] assms(2) f show ?thesis by simp
qed

lemma calls_repo [call_intros]:
  assumes "sys_calls SV s s1"
  shows "sys_calls SV s (snd (with_repo (repo_Get (sv_Repo SV) i) s1))"
    and "sys_calls SV s (snd (with_repo (repo_GetByUserID (sv_Repo SV) u) s1))"
    and "st \<noteq> StateStarted \<Longrightarrow>
      sys_calls SV s (snd (with_repo (repo_UpdateState (sv_Repo SV) i n st actor reason) s1))"
    and "sys_calls SV s (snd (with_repo (repo_Reopen (sv_Repo SV) i n actor) s1))"
    and "sys_calls SV s (snd (with_repo (\<lambda>st. ((), repo_SetVendorApplicantID (sv_Repo SV) i w st)) s1))"
  using assms by (auto intro!: calls_with_repo intro: repo_call.intros)

lemma calls_evidence:
  "sys_calls SV s s1 \<Longrightarrow> evidence_call (sv_Docs SV) (sv_Liveness SV) (s_store s1) (snd (f (s_store s1))) \<Longrightarrow>
     sys_calls SV s (snd (with_store f s1))"
  using sys_calls_step [OF _ sys_call.evidence, of SV s s1 "snd (f (s_store s1))"]
  by (simp add: with_store_def split_beta)

lemma calls_stores [call_intros]:
  assumes "sys_calls SV s s1"
  shows "sys_calls SV s (snd (with_store (docs_List (sv_Docs SV) i) s1))"
    and "sys_calls SV s (snd (with_store (docs_HasRequiredDocs (sv_Docs SV) i) s1))"
    and "sys_calls SV s (snd (with_store (lives_Latest (sv_Liveness SV) i) s1))"
    and "sys_calls SV s (s1\<lparr>s_store := docs_Add (sv_Docs SV) i doc (s_store s1)\<rparr>)"
    and "sys_calls SV s (s1\<lparr>s_store := lives_Add (sv_Liveness SV) i sess (s_store s1)\<rparr>)"
  using assms
  by (auto intro: calls_evidence evidence_call.intros sys_calls_step sys_call.evidence)

text \<open>A new application is a draft under an identifier that has just been drawn.\<close>

lemma calls_Create:
  assumes "with_env newUUID s = (uid, s1)" and "app_ID a = uid" and "draft a"
  shows "sys_calls SV s (snd (with_repo (repo_Create (sv_Repo SV) a) s1))"
proof -
  obtain e1 where new: "newUUID (s_env s) = (app_ID a, e1)" and s1: "s1 = s\<lparr>s_env := e1\<rparr>"
    using assms(1,2) by (auto simp: with_env_def split: prod.splits)
  obtain x r e where cr: "repo_Create (sv_Repo SV) a (s_store s, e1) = (x, r, e)" by (rule prod_cases3)
  then have "repo_call (sv_Repo SV) (s_store s, s_env s) (r, e)"
    using repo_call.create [OF new assms(3), of "sv_Repo SV" "s_store s"] by simp
  from sys_calls_step [OF sys_calls_refl sys_call.repo [OF this]] cr
  show ?thesis by (simp add: with_repo_def s1)
qed

section \<open>The handlers over any services\<close>

locale service =
  screening_client "sv_Screener SV" + vendor_contract V
  for SV :: "('s, 'x AuditEnv_scheme) Services" and V :: "('x AuditEnv_scheme) VendorClient" +
  assumes sv_vendor: "sv_Vendor SV = Some V"
begin

lemma logs_snd_vendor:
  "logs None e (snd (vc_CreateApplicant V ctx app e))"
  "logs None e (snd (vc_UploadDocument V ctx i doc e))"
  "logs None e (snd (vc_StartLiveness V ctx i e))"
  using vc_create_logs vc_upload_logs vc_liveness_logs by (metis prod.collapse)+

lemma calls_register_vendor [call_intros]:
  assumes "sys_calls SV s s1"
  shows "sys_calls SV s (register_vendor SV ctx app name s1)"
proof -
  let ?c = "with_env (vc_CreateApplicant V ctx
    \<lparr>va_ApplicationID = app_ID app, va_UserID = app_UserID app, va_FullName = name\<rparr>) s1"
  have "sys_calls SV s (snd ?c)" by (rule calls_with_env [OF logs_snd_vendor(1) assms])
  then show ?thesis
    by (cases "fst ?c"; cases ?c)
       (auto simp: register_vendor_def sv_vendor Let_def split_beta intro!: call_intros)
qed

lemma calls_upload_vendor [call_intros]:
  assumes "sys_calls SV s s1"
  shows "sys_calls SV s (upload_vendor SV ctx app i ty content s1)"
proof -
  let ?c = "with_env (vc_UploadDocument V ctx (app_VendorApplicantID app)
    \<lparr>vd_Type = ty, vd_Content = content\<rparr>) s1"
  have "sys_calls SV s (snd ?c)" by (rule calls_with_env [OF logs_snd_vendor(2) assms])
  with assms show ?thesis
    by (cases "fst ?c"; cases ?c)
       (auto simp: upload_vendor_def sv_vendor Let_def split_beta intro!: call_intros)
qed

text \<open>Now the handlers, one by one.\<close>

lemma calls_reading:
  "sys_calls SV s (snd (getApplicationHandler SV rq s))"
  "sys_calls SV s (snd (getStatusHandler SV rq s))"
  "sys_calls SV s (snd (listDocumentsHandler SV rq s))"
  "sys_calls SV s (snd (getLivenessHandler SV rq s))"
  by (auto simp: getApplicationHandler_def getStatusHandler_def listDocumentsHandler_def
      getLivenessHandler_def Let_def split_beta split: sum.split option.split intro!: call_intros)

lemma logs_Record_literal [call_intros]:
  "ac \<noteq> ''state_transition'' \<Longrightarrow> logs None e (Record ag ac at p e)"
  by (rule logs_Record)

lemma calls_createApplication: "sys_calls SV s (snd (createApplicationHandler SV rq s))"
proof (cases "decodeJSON (sv_lib SV) [''user_id'', ''vendor'', ''full_name''] rq")
  case (Inl err)
  then show ?thesis by (simp add: createApplicationHandler_def)
next
  case (Inr req)
  show ?thesis
  proof (cases "req ''user_id'' = ''''")
    case True
    with Inr show ?thesis by (simp add: createApplicationHandler_def)
  next
    case False
    obtain uid s1 where new: "with_env newUUID s = (uid, s1)" by force
    define app where "app = \<lparr>app_ID = uid, app_UserID = req ''user_id'', app_Vendor = req ''vendor'',
                        app_VendorApplicantID = '''', app_State = StateStarted, app_CreatedAt = 0,
                        app_UpdatedAt = 0, app_ExpiresAt = 0, app_ReKYCDueAt = 0, app_DecidedAt = 0,
                        app_Version = 0\<rparr>"
    obtain x b s2 where cr: "with_repo (repo_Create (sv_Repo SV) app) s1 = ((x, b), s2)"
      by (metis prod.collapse)
    have "sys_calls SV s (snd (with_repo (repo_Create (sv_Repo SV) app) s1))"
      by (rule calls_Create [OF new]) (simp_all add: app_def draft_def False)
    then have "sys_calls SV s s2" by (simp add: cr)
    then show ?thesis
      using Inr False new cr
      by (cases x) (auto simp: createApplicationHandler_def app_def [symmetric] Let_def intro!: call_intros)
  qed
qed

lemma calls_uploadDocument: "sys_calls SV s (snd (uploadDocumentHandler SV rq s))"
  by (auto simp: uploadDocumentHandler_def Let_def split_beta split: sum.split intro!: call_intros)

lemma calls_StartLiveness [call_intros]:
  "sys_calls SV s s1 \<Longrightarrow> sys_calls SV s (snd (with_env (vc_StartLiveness V ctx i) s1))"
  by (rule calls_with_env [OF logs_snd_vendor(3)])

lemma calls_startLiveness: "sys_calls SV s (snd (startLivenessHandler SV rq s))"
  by (auto simp: startLivenessHandler_def Let_def split_beta sv_vendor split: sum.split intro!: call_intros)

lemma calls_screening [call_intros]:
  assumes "sys_calls SV s s1"
  shows "sys_calls SV s (s1\<lparr>
      s_hits := fst (snd (screening_Run (sv_Screener SV) (sv_environ SV) True ctx app name (s_hits s1, s_env s1))),
      s_env := snd (snd (screening_Run (sv_Screener SV) (sv_environ SV) True ctx app name (s_hits s1, s_env s1)))\<rparr>)"
proof -
  obtain res h e where r: "screening_Run (sv_Screener SV) (sv_environ SV) True ctx app name
      (s_hits s1, s_env s1) = (res, h, e)"
    by (metis prod_cases3)
  have "sys_calls SV s1 (s1\<lparr>s_env := e\<rparr>)"
    using screening_Run_logs [OF r] by (intro sys_calls_quiet) simp_all
  from sys_calls_frame(1) [OF sys_calls_trans [OF assms this], of h] r show ?thesis by (simp add: sys_reorder)
qed

lemma calls_runScreening: "sys_calls SV s (snd (runScreeningHandler SV rq s))"
  by (auto simp: runScreeningHandler_def Let_def split_beta split: sum.split intro!: call_intros)

lemma calls_disposition: "sys_calls SV s (snd (screeningDispositionHandler SV rq s))"
proof -
  have "sys_calls SV s (s\<lparr>s_store := r, s_hits := h, s_env := e\<rparr>)"
    if "Disposition (sv_Repo SV) True i d who (s_store s, s_hits s, s_env s) = (res, r, h, e)"
    for i d who res r h e
    using sys_calls_frame(1) [OF sys_calls_repo [OF sys_calls_refl Disposition_calls [OF that]], of h]
    by (simp add: sys_reorder)
  then show ?thesis
    by (auto simp: screeningDispositionHandler_def Let_def split: sum.split prod.split option.split)
qed

lemma calls_triggerReKYC: "sys_calls SV s (snd (triggerReKYCHandler SV rq s))"
  by (auto simp: triggerReKYCHandler_def Let_def split_beta split: sum.split intro!: call_intros)

lemma calls_webhook: "sys_calls SV s (snd (webhookHandler SV V rq s))"
proof -
  have "sys_calls SV s (s\<lparr>s_store := r, s_seen := w, s_env := e\<rparr>)"
    if "Ingest lib (sv_Repo SV) V ws ctx v raw sh th i (s_store s, s_seen s, s_env s) = (res, r, w, e)"
    for lib ws ctx v raw sh th i res r w e
    using sys_calls_frame(2) [OF sys_calls_repo [OF sys_calls_refl Ingest_calls [OF that]], of w] Ingest_seen(1) [OF that]
    by (simp add: sys_reorder)
  then show ?thesis
    by (auto simp: webhookHandler_def Let_def split: sum.split prod.split intro!: call_intros)
qed

lemma calls_handle: "sys_calls SV s (snd (handle SV V rt rq s))"
  by (cases rt)
     (simp_all add: handle_def healthzHandler_def readyzHandler_def metricsPage_def auditEventsHandler_def
       calls_reading calls_createApplication calls_uploadDocument calls_startLiveness calls_runScreening
       calls_disposition calls_webhook calls_triggerReKYC)

lemma calls_loggingMiddleware:
  assumes "\<And>rq s. sys_calls SV s (snd (h rq s))"
  shows "sys_calls SV s (snd (loggingMiddleware h rq s))"
proof -
  have h: "sys_calls SV s (snd (h rq s1))" if "sys_calls SV s s1" for s s1
    using sys_calls_trans [OF that assms] .
  show ?thesis
    by (auto simp: loggingMiddleware_def Let_def split_beta intro!: call_intros h logs_frame)
qed

lemma calls_correlationMiddleware:
  assumes "\<And>rq s. sys_calls SV s (snd (h rq s))"
  shows "sys_calls SV s (snd (correlationMiddleware h rq s))"
proof -
  have h: "sys_calls SV s (snd (h rq s1))" if "sys_calls SV s s1" for rq s s1
    using sys_calls_trans [OF that assms] .
  show ?thesis
    by (auto simp: correlationMiddleware_def Let_def split_beta intro!: call_intros h)
qed

lemma calls_serve: "sys_calls SV s (snd (serve SV V verb segs rq s))"
  unfolding serve_def
  by (intro calls_correlationMiddleware calls_loggingMiddleware) (auto simp: split_beta calls_handle)

end

section \<open>The system: requests and background jobs in any order\<close>

text \<open>
  One event of the process: a request, a pass of the retention sweeper, a tick of the re-KYC
  scheduler. The lists are the orders in which the runtime ranges over the stores' maps.
\<close>

datatype sys_event =
    HttpRequest string "string list" Request
  | SweepPass "string list" "string list"
  | ReKYCTick "string list"

fun sys_step ::
  "('s, 'e AuditEnv_scheme) Services \<Rightarrow> ('e AuditEnv_scheme) VendorClient \<Rightarrow> sys_event \<Rightarrow>
     ('s, 'e AuditEnv_scheme) Sys \<Rightarrow> ('s, 'e AuditEnv_scheme) Sys" where
  "sys_step sv V (HttpRequest verb segs rq) s = snd (serve sv V verb segs rq s)"
| "sys_step sv V (SweepPass dorder lorder) s =
     (let (now, s) = with_env time_Now s
      in snd (with_repo (Sweep (sv_Docs sv) (sv_Liveness sv) True dorder lorder now) s))"
| "sys_step sv V (ReKYCTick order) s =
     (let (now, s) = with_env time_Now s
      in snd (with_repo (Tick (sv_Repo sv) True order now) s))"

fun sys_run ::
  "('s, 'e AuditEnv_scheme) Services \<Rightarrow> ('e AuditEnv_scheme) VendorClient \<Rightarrow> sys_event list \<Rightarrow>
     ('s, 'e AuditEnv_scheme) Sys \<Rightarrow> ('s, 'e AuditEnv_scheme) Sys" where
  "sys_run sv V [] s = s"
| "sys_run sv V (ev # evs) s = sys_run sv V evs (sys_step sv V ev s)"

lemma calls_Sweep:
  assumes "sys_calls SV s s1"
  shows "sys_calls SV s (snd (with_repo (Sweep (sv_Docs SV) (sv_Liveness SV) b dorder lorder now) s1))"
proof -
  obtain res r e where sw: "Sweep (sv_Docs SV) (sv_Liveness SV) b dorder lorder now (s_store s1, s_env s1) = (res, r, e)"
    by (rule prod_cases3)
  from Sweep_calls [OF this] obtain r1 where q: "logs None (s_env s1) e"
    and r: "evidence_call (sv_Docs SV) (sv_Liveness SV) (s_store s1) r1" "evidence_call (sv_Docs SV) (sv_Liveness SV) r1 r"
    by blast
  let ?s2 = "s1\<lparr>s_store := r1\<rparr>" and ?s3 = "s1\<lparr>s_store := r\<rparr>"
  have "sys_calls SV s ?s2" using assms sys_call.evidence [OF r(1)] by (rule sys_calls_step)
  moreover have "sys_call SV ?s2 ?s3" using sys_call.evidence [of SV ?s2 r] r(2) by simp
  ultimately have "sys_calls SV s ?s3" by (rule sys_calls_step)
  moreover have "sys_calls SV ?s3 (?s3\<lparr>s_env := e\<rparr>)" using q by (intro sys_calls_quiet) simp_all
  ultimately have "sys_calls SV s (?s3\<lparr>s_env := e\<rparr>)" by (rule sys_calls_trans)
  with sw show ?thesis by (simp add: with_repo_def)
qed

lemma calls_Tick:
  assumes "sys_calls SV s s1"
  shows "sys_calls SV s (snd (with_repo (Tick (sv_Repo SV) b order now) s1))"
proof -
  obtain n r e where t: "Tick (sv_Repo SV) b order now (s_store s1, s_env s1) = (n, r, e)"
    by (rule prod_cases3)
  from sys_calls_repo [OF assms Tick_calls [OF t]] t show ?thesis by (simp add: with_repo_def)
qed

context service
begin

lemma calls_sys_step: "sys_calls SV s (sys_step SV V ev s)"
  by (cases ev) (auto simp: calls_serve Let_def split_beta intro!: calls_Sweep calls_Tick call_intros)

lemma calls_sys_run: "sys_calls SV s (sys_run SV V evs s)"
  by (induction evs arbitrary: s) (auto intro: sys_calls_trans calls_sys_step)

text \<open>
  So a process that has accepted a webhook never accepts its identifier again, whatever comes in
  between.
\<close>

lemma replay_in_run:
  assumes "Ingest lib R V' ws ctx v raw sh th i (s_store s, s_seen s, s_env s) = (res, r1, w1, e1)" and "Accepted res"
    and "s2 = sys_run SV V evs (s\<lparr>s_store := r1, s_seen := w1, s_env := e1\<rparr>)"
    and "Ingest lib' R' V'' ws' ctx' v' raw' sh' th' i (s_store s2, s_seen s2, s_env s2) = (res', r3, w3, e3)"
  shows "\<not> Accepted res' \<and> r3 = s_store s2 \<and> w3 = s_seen s2"
proof (rule Ingest_replay [OF assms(4)])
  have "seen w1 \<subseteq>\<^sub>m seen (s_seen s2)"
    unfolding assms(3) using sys_calls_seen [OF calls_sys_run, of "s\<lparr>s_store := r1, s_seen := w1, s_env := e1\<rparr>" evs] by simp
  with Ingest_seen(2) [OF assms(1,2)] show "seen (s_seen s2) (if i = '''' then ''no-id'' else i) \<noteq> None"
    unfolding map_le_def by force
qed

end

section \<open>Over stores that meet their contracts\<close>

definition runs ::
  "('s \<Rightarrow> view) \<Rightarrow> ('s \<Rightarrow> bool) \<Rightarrow> ('s, 'e AuditEnv_scheme) Sys \<Rightarrow> ('s, 'e AuditEnv_scheme) Sys \<Rightarrow> bool" where
  "runs view_of good s s' \<longleftrightarrow>
     (sys_ok view_of good s \<longrightarrow>
        sys_ok view_of good s' \<and> app_steps (view_of (s_store s), s_env s) (view_of (s_store s'), s_env s'))"

lemma runs_trans: "runs view_of good s s1 \<Longrightarrow> runs view_of good s1 s2 \<Longrightarrow> runs view_of good s s2"
  by (auto simp: runs_def intro: app_steps_trans)

lemma runs_quiet:
  assumes "s_store s' = s_store s" and "logs None (s_env s) (s_env s')"
  shows "runs view_of good s s'"
proof -
  have st: "app_steps (view_of (s_store s), s_env s) (view_of (s_store s), s_env s')"
    using assms(2) by (rule app_steps_observe)
  then have "repo_ok view_of good (s_store s, s_env s')" if "repo_ok view_of good (s_store s, s_env s)"
    using that repo_ok_steps [OF that _ st] by (simp add: repo_ok_def)
  with st show ?thesis by (simp add: runs_def sys_ok_def assms(1))
qed

locale reliable_service =
  service SV V + application_repo "sv_Repo SV" view_of good +
  evidence_apart "sv_Docs SV" "sv_Liveness SV" view_of good
  for SV :: "('s, 'x AuditEnv_scheme) Services" and V :: "('x AuditEnv_scheme) VendorClient"
    and view_of :: "'s \<Rightarrow> view" and good :: "'s \<Rightarrow> bool"
begin

lemma runs_calls:
  assumes "sys_calls SV s s'"
  shows "runs view_of good s s'"
  using assms unfolding sys_calls_def
proof (induction rule: rtranclp_induct)
  case base
  then show ?case by (simp add: runs_def)
next
  case (step s1 s2)
  from step(2) have "runs view_of good s1 s2"
  proof cases
    case (repo r e)
    from calls_steps [OF r_into_rtranclp [of "repo_call (sv_Repo SV)", OF repo(2)]] repo(1) show ?thesis by (simp add: runs_def sys_ok_def)
  next
    case (evidence r)
    from evidence_law [OF evidence(2)] evidence(1) show ?thesis by (simp add: runs_def sys_ok_def repo_ok_def)
  qed (simp_all add: runs_def sys_ok_def)
  with step(3) show ?case by (rule runs_trans)
qed

lemmas runs_serve = runs_calls [OF calls_serve] and runs_sys_run = runs_calls [OF calls_sys_run]

end

sublocale reliable_service \<subseteq> hooks: webhook_client "sv_Repo SV" view_of good V
  by unfold_locales

section \<open>The in-memory services\<close>

interpretation chosen_sink: logging_sink "event_sink_for p" for p
  by unfold_locales
     (simp add: event_sink_for_def audit_sink.sink_logs composite_sink.sink_logs)

interpretation chosen_screening: screening_client "screening_client_for lib parse env c" for lib parse env c
  by unfold_locales
     (auto simp: screening_client_for_def split: screening_choice.splits
       dest: http_screen.screen_logs mem_screen.screen_logs)

lemma vendor_contract_chosen: "vendor_contract (vendor_client lib parse env c)"
  by (cases c) (simp_all add: vendor_client_def stub_vendor.vendor_contract_axioms
      onfido_vendor.vendor_contract_axioms)

abbreviation mem_view :: "MemStores \<Rightarrow> view" where
  "mem_view \<equiv> (\<lambda>m. apps (m_repo m))"

abbreviation mem_good :: "MemStores \<Rightarrow> bool" where
  "mem_good \<equiv> (\<lambda>m. repo_inv (m_repo m))"

interpretation mem_service: reliable_service "memory_services lib parse env st" "vendor_client lib parse env (st_vendor st)"
    mem_view mem_good for lib parse env st
  unfolding reliable_service_def service_def memory_services_def
  by (simp add: service_axioms_def chosen_sink.process.stored.application_repo_axioms
      mem_evidence.evidence_apart_axioms chosen_screening.screening_client_axioms vendor_contract_chosen)

text \<open>The events of a process that starts with an empty log.\<close>

definition fresh_world :: "'e AuditEnv_scheme \<Rightarrow> bool" where
  "fresh_world e \<longleftrightarrow> audit_events e = [] \<and> inj (uuids e) \<and> (\<forall>k. uuids e k \<noteq> '''')"

definition memory_run ::
  "Lib \<Rightarrow> (string \<Rightarrow> duration option) \<Rightarrow> environ \<Rightarrow> StartUp \<Rightarrow> sys_event list \<Rightarrow> 'e NetEnv_scheme \<Rightarrow>
     (MemStores, 'e NetEnv_scheme) Sys" where
  "memory_run lib parse env st evs e =
     sys_run (memory_services lib parse env st) (vendor_client lib parse env (st_vendor st)) evs (memory_start e)"

lemma sys_ok_start: "fresh_world e \<Longrightarrow> sys_ok mem_view mem_good (memory_start e)"
  by (auto simp: sys_ok_def repo_ok_def memory_start_def start_sys_def NewMemStores_def fresh_world_def app_inv_def
      repo_inv_new)
     (simp_all add: NewApplicationRepository_def)

lemma memory_run_ok:
  assumes "fresh_world e"
  shows "sys_ok mem_view mem_good (memory_run lib parse env st evs e) \<and>
    app_steps (Map.empty, e)
      (apps (s_repo (memory_run lib parse env st evs e)), s_env (memory_run lib parse env st evs e))"
  using mem_service.runs_sys_run [of "memory_start e" lib parse env st evs] sys_ok_start [OF assms]
  by (simp add: runs_def memory_run_def memory_start_def start_sys_def NewMemStores_def NewApplicationRepository_def)

lemma memory_run_app:
  assumes "fresh_world e" and "apps (s_repo (memory_run lib parse env st evs e)) i = Some a"
  shows "app_ok (s_env (memory_run lib parse env st evs e)) i a"
proof -
  have "app_inv (apps (s_repo (memory_run lib parse env st evs e)), s_env (memory_run lib parse env st evs e))"
    using memory_run_ok [OF assms(1), of lib parse env st evs] by (simp add: sys_ok_def repo_ok_def)
  then show ?thesis using assms(2) by (rule app_invD)
qed

end
