(* ===== verification/Scenario.thy ===== *)
theory Scenario
  imports Service
begin

text \<open>
  A concrete world in which the properties of the service are instantiated: a clock that advances by
  a nanosecond per reading, identifiers that never repeat, a JSON parser that knows a few bodies, no
  network, the in-memory stores in development mode; and a service in the middle of its life, with one
  application in review, one decided and one under way.
\<close>

section \<open>The world\<close>

definition demo_lib :: Lib where
  "demo_lib =
     \<lparr>json_parse = (\<lambda>raw.
        if raw = ''create'' then Inr (JObject [(''user_id'', JString ''u1''), (''vendor'', JString ''stub'')])
        else if raw = ''selfie'' then Inr (JObject [(''type'', JString ''SELFIE''), (''content'', JString ''s'')])
        else if raw = ''screen'' then Inr (JObject [(''full_name'', JString ''Mr. Bad Actor'')])
        else if raw = ''hook'' then Inr (JObject [(''application_id'', JString ''xxx''), (''outcome'', JString ''CLEAR'')])
        else Inl (Plain ''syntax'')),
      json_first = (\<lambda>_. Inl (Plain ''EOF'')), json_print = (\<lambda>_. ''''), multipart = (\<lambda>_ _. ('''', '''')),
      url_err = (\<lambda>_. None), hmac_hex = (\<lambda>_ _. ''ab'')\<rparr>"

definition demo_world :: NetEnv where
  "demo_world =
     \<lparr>clock = (\<lambda>n. 62135596800000000000 + int n), ticks = 0,
      uuids = (\<lambda>n. replicate (Suc n) (CHR ''x'')), issued = 0, globalMetrics = newMetrics,
      codec = \<lparr>json_event = (\<lambda>_. None), json_envelope = (\<lambda>_. None), sha256_hex = (\<lambda>_. ''0123456789abcdef''),
               rfc3339nano = (\<lambda>_. '''')\<rparr>,
      audit_events = [], kafka_sink = None, endpoint = '''', queueCap = 10, queue = [],
      engine = (\<lambda>_ _. Status 200), posts = 0, accepted = [], dropped = [], abandoned = [],
      internet = (\<lambda>_ _. Inl (Plain ''offline'')), sent = []\<rparr>"

definition demo_env :: environ where
  "demo_env = (\<lambda>_. '''')(''DEV_MODE'' := ''1'')"

definition demo_start :: StartUp where
  "demo_start = \<lparr>st_kafka = None, st_policy = False, st_store = UseMemory, st_screening = UseMemoryList,
     st_vendor = UseStub\<rparr>"

definition demo_request :: "string \<Rightarrow> string \<Rightarrow> Request" where
  "demo_request raw app =
     \<lparr>req_path = path_value ''id'' app, req_header = (\<lambda>_. ''''), req_body = Inr raw,
      req_form = Inl (Plain ''''), req_ctx = None, req_ctx5 = None, req_rid = ''r''\<rparr>"

abbreviation demo_sv :: "(MemStores, NetEnv) Services" where
  "demo_sv \<equiv> memory_services demo_lib (\<lambda>_. None) demo_env demo_start"

text \<open>The service right after its first application was created over HTTP.\<close>

definition demo_run :: "(MemStores, NetEnv) Sys" where
  "demo_run = memory_run demo_lib (\<lambda>_. None) demo_env demo_start
     [HttpRequest ''POST'' [''v1'', ''kyc'', ''applications''] (demo_request ''create'' '''')] demo_world"

lemma demo_world_fresh: "fresh_world demo_world" "mono (clock demo_world)"
  by (auto simp: fresh_world_def demo_world_def inj_def mono_def)

lemma demo_run_state: "map_option app_State (apps (s_repo demo_run) ''xx'') = Some StateStarted"
  by code_simp

lemma demo_run_app:
  obtains a where "apps (s_repo demo_run) ''xx'' = Some a" and "app_State a = StateStarted"
  using demo_run_state by (cases "apps (s_repo demo_run) ''xx''") auto

section \<open>A service under way\<close>

definition demo_record :: "string \<Rightarrow> string \<Rightarrow> State \<Rightarrow> goint \<Rightarrow> Application" where
  "demo_record i u st v =
     \<lparr>app_ID = i, app_UserID = u, app_Vendor = ''stub'', app_VendorApplicantID = '''', app_State = st,
      app_CreatedAt = 1, app_UpdatedAt = 1, app_ExpiresAt = 1,
      app_ReKYCDueAt = (if IsTerminal st then AddDuration 1 year365 else 0),
      app_DecidedAt = (if IsTerminal st then 1 else 0), app_Version = v\<rparr>"

definition demo_moves :: "string \<Rightarrow> State list \<Rightarrow> AuditEvent list" where
  "demo_moves i sts =
     map (\<lambda>(f, t). \<lparr>ev_ID = '''', ev_Aggregate = i, ev_Action = ''state_transition'', ev_Actor = ''system'',
            ev_Payload = [''from'' \<mapsto> AString f, ''to'' \<mapsto> AString t],
            ev_OccurredAt = 1\<rparr>)
       (zip sts (tl sts))"

definition demo_path :: "State list" where
  "demo_path = [StateStarted, StateDocumentsUploaded, StateLivenessPassed, StateScreening]"

definition demo_sys :: "(MemStores, NetEnv) Sys" where
  "demo_sys =
     \<lparr>s_store = \<lparr>m_repo = \<lparr>apps = [''x'' \<mapsto> demo_record ''x'' ''u1'' StateManualReview 5,
                        ''xx'' \<mapsto> demo_record ''xx'' ''u2'' StatePass 6,
                        ''xxx'' \<mapsto> demo_record ''xxx'' ''u3'' StateScreening 4],
                byUser = [''u1'' \<mapsto> ''x'', ''u2'' \<mapsto> ''xx'', ''u3'' \<mapsto> ''xxx'']\<rparr>,
        m_docs = NewDocumentStore, m_live = NewLivenessStore\<rparr>, s_hits = NewScreeningStore,
      s_seen = NewWebhookStore,
      s_env = demo_world\<lparr>issued := 3, audit_events :=
        demo_moves ''x'' (demo_path @ [StateManualReview]) @
        demo_moves ''xx'' (demo_path @ [StateVendorDecision, StatePass]) @ demo_moves ''xxx'' demo_path\<rparr>\<rparr>"

lemma demo_trail:
  "transitions_of i (demo_moves j sts) =
     (if i = j then map (\<lambda>(f, t). (Some (AString f), Some (AString t))) (zip sts (tl sts)) else [])"
  by (induction sts rule: induct_list012)
     (auto simp: demo_moves_def transitions_of_def event_transition_def filter_map comp_def split_beta)

lemma demo_issued:
  "issued_id (s_env demo_sys) ''x''" "issued_id (s_env demo_sys) ''xx''" "issued_id (s_env demo_sys) ''xxx''"
  unfolding issued_id_def demo_sys_def demo_world_def
  by (simp_all add: numeral_eq_Suc less_Suc_eq conj_disj_distribR ex_disj_distrib)

lemma demo_apps:
  "apps (s_repo demo_sys) i = Some a \<Longrightarrow>
     i = ''x'' \<and> a = demo_record i ''u1'' StateManualReview 5 \<or>
     i = ''xx'' \<and> a = demo_record i ''u2'' StatePass 6 \<or>
     i = ''xxx'' \<and> a = demo_record i ''u3'' StateScreening 4"
  by (auto simp: demo_sys_def split: if_splits)

lemma demo_sys_ok: "sys_ok mem_view mem_good demo_sys"
proof -
  have trails: "replay StateStarted (transitions_of i (audit_events (s_env demo_sys))) =
      (if i = ''x'' then Some StateManualReview else if i = ''xx'' then Some StatePass
       else if i = ''xxx'' then Some StateScreening else Some StateStarted)"
    "transitions_of i (audit_events (s_env demo_sys)) \<noteq> [] \<Longrightarrow> i \<in> {''x'', ''xx'', ''xxx''}" for i
    by (simp_all add: demo_sys_def demo_trail demo_path_def split: if_splits)
  have "app_ok (s_env demo_sys) i a" if "apps (s_repo demo_sys) i = Some a" for i a
    using demo_apps [OF that] demo_issued
    by (auto simp: app_ok_def trails demo_record_def dates_ok_def known_state_iff)
  moreover have "i = j" if "apps (s_repo demo_sys) i = Some a" "apps (s_repo demo_sys) j = Some b"
      "app_UserID a = app_UserID b" for i j a b
    using demo_apps [OF that(1)] demo_apps [OF that(2)] that(3) by (auto simp: demo_record_def)
  moreover have "repo_inv (s_repo demo_sys)"
    by (simp add: repo_inv_def demo_sys_def demo_record_def)
  moreover have "issued_id (s_env demo_sys) i" if "transitions_of i (audit_events (s_env demo_sys)) \<noteq> []" for i
    using trails(2) [OF that] demo_issued by auto
  ultimately have "app_inv (apps (s_repo demo_sys), s_env demo_sys)" and "repo_inv (s_repo demo_sys)"
    unfolding app_inv_def prod.case by blast+
  moreover have "uuids (s_env demo_sys) = uuids demo_world" by (simp add: demo_sys_def)
  ultimately show ?thesis
    using demo_world_fresh(1) by (simp add: sys_ok_def repo_ok_def fresh_world_def)
qed

end
