(* ===== verification/Handlers.thy ===== *)
theory Handlers
  imports Scenario
begin

text \<open>
  What single requests do. The reading handlers change none of the service's data; the writing
  handlers of \<open>server.go\<close> are computed exactly over the in-memory stores: the status they answer
  with and the one change each makes to the applications, documents and hits. At the head, the facts
  about runs and trails that the properties of the root theory share.
\<close>

section \<open>The log only grows\<close>

lemma app_step_append: "app_step x y \<Longrightarrow> \<exists>rest. audit_events (snd y) = audit_events (snd x) @ rest"
  by (induction rule: app_step.induct) (auto simp: logs_def)

lemma app_steps_append: "app_steps x y \<Longrightarrow> \<exists>rest. audit_events (snd y) = audit_events (snd x) @ rest"
proof (induction rule: rtranclp_induct)
  case (step y z)
  then show ?case using app_step_append [of y z] by auto
qed simp

lemma sys_run_append: "sys_run sv V (evs @ evs') s = sys_run sv V evs' (sys_run sv V evs s)"
  by (induction evs arbitrary: s) auto

section \<open>The end of a replay\<close>

lemma replay_last:
  assumes "replay s (es @ [x]) = Some t"
  obtains f where "x = (Some (AString f), Some (AString t))" and "CanTransition f t"
proof -
  obtain s' where s': "replay s' [x] = Some t"
    using assms by (auto simp: replay_append split: option.splits)
  show ?thesis
    using s' by (cases "(s', [x])" rule: replay.cases) (auto intro: that split: if_splits)
qed

lemma replay_terminal:
  assumes "replay StateStarted es = Some t" and "IsTerminal t"
  shows "\<exists>before f. es = before @ [(Some (AString f), Some (AString t))] \<and>
    f \<in> {StateVendorDecision, StateManualReview}"
proof -
  have "es \<noteq> []" using assms by auto
  then obtain before x where es: "es = before @ [x]" by (cases es rule: rev_cases) auto
  obtain f where "x = (Some (AString f), Some (AString t))" "CanTransition f t"
    using assms(1) unfolding es by (rule replay_last)
  with CanTransition_to_terminal [of f t] assms(2) es show ?thesis by auto
qed

section \<open>What the handlers leave alone\<close>

lemma newMux_get:
  "verb = ''GET'' \<or> verb = ''HEAD'' \<Longrightarrow> newMux verb segs = (rt, pv) \<Longrightarrow>
     rt \<in> {Healthz, Readyz, MetricsR, GetApplication, GetStatus, ListDocuments, GetLiveness, AuditEvents,
           NotFound} \<union> range MethodNotAllowed"
  by (auto simp: newMux_def by_method_def Let_def split: if_splits)

text \<open>
  Two states with the same data: \<open>f\<close> is what the stores hold. A read changes the number of
  statements a database has seen, but not its tables.
\<close>

definition same_data ::
  "('s \<Rightarrow> 'v) \<Rightarrow> ('s, 'e AuditEnv_scheme) Sys \<Rightarrow> ('s, 'e AuditEnv_scheme) Sys \<Rightarrow> bool" where
  "same_data f s s' \<longleftrightarrow> f (s_store s') = f (s_store s) \<and> s_hits s' = s_hits s \<and> s_seen s' = s_seen s \<and>
     audit_events (s_env s') = audit_events (s_env s)"

lemma same_data_refl [simp]: "same_data f s s"
  by (simp add: same_data_def)

lemma same_data_trans: "same_data f s s1 \<Longrightarrow> same_data f s1 s2 \<Longrightarrow> same_data f s s2"
  by (simp add: same_data_def)

locale quiet_reads =
  fixes SV :: "('s, 'e AuditEnv_scheme) Services" and f :: "'s \<Rightarrow> 'v"
  assumes quiet_repo:
    "f (fst (snd (repo_Get (sv_Repo SV) i (r, e)))) = f r" "snd (snd (repo_Get (sv_Repo SV) i (r, e))) = e"
    "f (fst (snd (repo_GetByUserID (sv_Repo SV) u (r, e)))) = f r"
    "snd (snd (repo_GetByUserID (sv_Repo SV) u (r, e))) = e"
    and quiet_evidence:
    "f (snd (docs_List (sv_Docs SV) i r)) = f r" "f (snd (lives_Latest (sv_Liveness SV) i r)) = f r"
begin

lemma reads_data:
  assumes "same_data f s s1"
  shows "same_data f s (snd (with_repo (repo_Get (sv_Repo SV) i) s1))"
    and "same_data f s (snd (with_repo (repo_GetByUserID (sv_Repo SV) u) s1))"
    and "same_data f s (snd (with_store (docs_List (sv_Docs SV) i) s1))"
    and "same_data f s (snd (with_store (lives_Latest (sv_Liveness SV) i) s1))"
  using assms by (simp_all add: same_data_def with_repo_def with_store_def split_beta quiet_repo quiet_evidence)

lemma handle_reading:
  assumes "rt \<in> {Healthz, Readyz, MetricsR, GetApplication, GetStatus, ListDocuments, GetLiveness, AuditEvents,
           NotFound} \<union> range MethodNotAllowed"
  shows "same_data f s (snd (handle SV V rt rq s))"
  using assms
  by (auto simp: handle_def healthzHandler_def readyzHandler_def metricsPage_def getApplicationHandler_def
      getStatusHandler_def listDocumentsHandler_def getLivenessHandler_def auditEventsHandler_def Let_def split_beta
      split: sum.split option.split intro!: reads_data)

end

lemma middleware_data:
  assumes "\<And>rq s. same_data f s (snd (h rq s))"
  shows "same_data f s (snd (correlationMiddleware (loggingMiddleware h) rq s))"
proof -
  have step: "same_data f s (on_env g s1)"
    if "\<And>e. audit_events (g e) = audit_events e" "same_data f s s1" for g s s1
    using that by (simp add: same_data_def on_env_def)
  have env: "same_data f s (snd (with_env g s1))"
    if "\<And>e. audit_events (snd (g e)) = audit_events e" "same_data f s s1"
    for g :: "'b AuditEnv_scheme \<Rightarrow> 'x \<times> 'b AuditEnv_scheme" and s s1
    using that by (simp add: same_data_def with_env_def split_beta)
  have hs: "same_data f s (snd (h rq s1))" if "same_data f s s1" for rq s s1
    using same_data_trans [OF that assms] .
  have log: "same_data f s (snd (loggingMiddleware h rq s1))" if "same_data f s s1" for rq s s1
    using that by (auto simp: loggingMiddleware_def Let_def split_beta intro!: step env hs)
  show ?thesis
    by (auto simp: correlationMiddleware_def Let_def split_beta newUUID_def intro!: log env)
qed

context quiet_reads
begin

lemma serve_reading:
  assumes "verb = ''GET'' \<or> verb = ''HEAD''"
  shows "same_data f s (snd (serve SV V verb segs rq s))"
  unfolding serve_def
proof (rule middleware_data)
  fix rq and s :: "('s, 'e AuditEnv_scheme) Sys"
  obtain rt pv where mux: "newMux verb segs = (rt, pv)" by force
  show "same_data f s (snd (case newMux verb segs of (rt, pv) \<Rightarrow> handle SV V rt (rq\<lparr>req_path := pv\<rparr>) s))"
    unfolding mux prod.case by (rule handle_reading [OF newMux_get [OF assms mux]])
qed

end

interpretation mem_reads: quiet_reads "memory_services lib parse env st" "\<lambda>m. m" for lib parse env st
  by unfold_locales (simp_all add: memory_services_def in_repo_def)

section \<open>The handlers over the in-memory services, exactly\<close>

lemma with_env_frame [simp]:
  "s_store (snd (with_env f s)) = s_store s" "s_hits (snd (with_env f s)) = s_hits s"
  "s_seen (snd (with_env f s)) = s_seen s"
  by (simp_all add: with_env_def split_beta)

lemma on_env_frame [simp]:
  "s_store (on_env f s) = s_store s" "s_hits (on_env f s) = s_hits s" "s_seen (on_env f s) = s_seen s"
  by (simp_all add: on_env_def)

lemma with_repo_frame [simp]:
  "s_hits (snd (with_repo f s)) = s_hits s" "s_seen (snd (with_repo f s)) = s_seen s"
  "s_docs (snd (with_repo (in_repo g) s')) = s_docs s'" "s_live (snd (with_repo (in_repo g) s')) = s_live s'"
  by (simp_all add: with_repo_def in_repo_def split_beta)

lemma with_store_frame [simp]:
  "s_hits (snd (with_store f s)) = s_hits s" "s_seen (snd (with_store f s)) = s_seen s"
  by (simp_all add: with_store_def split_beta)

text \<open>Reads of the in-memory stores.\<close>

lemma memory_reads [simp]:
  "with_repo (in_repo (\<lambda>(r, e). (g r, r, e))) s = (g (s_repo s), s)"
  "with_store (\<lambda>m. (h m, m)) s' = (h (s_store s'), s')"
  by (simp_all add: with_repo_def in_repo_def with_store_def)

text \<open>An operation of the in-memory repository, as part of the system.\<close>

lemma with_in_repo:
  "with_repo (in_repo f) s =
     (case f (s_repo s, s_env s) of (x, r, e) \<Rightarrow> (x, s\<lparr>s_store := (s_store s)\<lparr>m_repo := r\<rparr>, s_env := e\<rparr>))"
  by (simp add: with_repo_def in_repo_def split: prod.split)

lemma fresh_uuid:
  assumes "sys_ok mem_view mem_good s"
  shows "apps (s_repo s) (uuids (s_env s) (issued (s_env s))) = None"
    and "uuids (s_env s) (issued (s_env s)) \<noteq> ''''" and "repo_inv (s_repo s)"
proof -
  have "\<not> issued_id (s_env s) (uuids (s_env s) (issued (s_env s)))"
    using assms by (intro issued_id_fresh) (simp_all add: sys_ok_def repo_ok_def)
  with assms show "apps (s_repo s) (uuids (s_env s) (issued (s_env s))) = None"
    by (cases "apps (s_repo s) (uuids (s_env s) (issued (s_env s)))")
       (auto simp: sys_ok_def repo_ok_def app_ok_def dest: app_invD)
qed (use assms in \<open>simp_all add: sys_ok_def repo_ok_def\<close>)

text \<open>A legal transition on the in-memory repository goes through.\<close>

lemma with_repo_UpdateState:
  assumes "apps (s_repo s) i = Some a" and "CanTransition (app_State a) to"
  shows "\<exists>t. apps (s_repo (snd (with_repo (in_repo (UpdateState sink i (app_Version a) to actor reason)) s))) =
    (apps (s_repo s))(i \<mapsto> transition_app t to a)"
  using assms by (auto simp: with_in_repo UpdateState_def time_Now_def Let_def ValidateTransition_def)

lemma register_vendor_apps:
  assumes "sv_Repo sv = stored_repo (mem_repo sink)" and "apps (s_repo s) (app_ID app) = Some a"
  shows "\<exists>b. apps (s_repo (register_vendor sv ctx app name s)) = (apps (s_repo s))(app_ID app \<mapsto> b) \<and>
    app_UserID b = app_UserID a \<and> app_State b = app_State a \<and> app_Vendor b = app_Vendor a"
proof (cases "sv_Vendor sv")
  case None
  with assms(2) show ?thesis by (auto simp: register_vendor_def intro!: exI [of _ a])
next
  case (Some V)
  obtain res s1 where c: "with_env (vc_CreateApplicant V ctx
      \<lparr>va_ApplicationID = app_ID app, va_UserID = app_UserID app, va_FullName = name\<rparr>) s = (res, s1)"
    by force
  have s1: "s_repo s1 = s_repo s" using with_env_frame(1) c by (metis snd_conv)
  show ?thesis
  proof (cases res)
    case (Inl err)
    with Some c s1 assms(2) show ?thesis by (auto simp: register_vendor_def intro!: exI [of _ a])
  next
    case (Inr w)
    with Some c s1 assms show ?thesis
      by (auto simp: register_vendor_def with_repo_def in_repo_def SetVendorApplicantID_cases vendor_app_def Let_def)
  qed
qed

lemma upload_vendor_frame [simp]:
  "s_repo (upload_vendor sv ctx app i ty content s) = s_repo s"
  "s_docs (upload_vendor sv ctx app i ty content s) = s_docs s"
proof -
  have "s_repo (upload_vendor sv ctx app i ty content s) = s_repo s \<and>
    s_docs (upload_vendor sv ctx app i ty content s) = s_docs s"
  proof (cases "sv_Vendor sv")
    case None
    then show ?thesis by (simp add: upload_vendor_def)
  next
    case (Some V)
    obtain res s1 where c: "with_env (vc_UploadDocument V ctx (app_VendorApplicantID app)
        \<lparr>vd_Type = ty, vd_Content = content\<rparr>) s = (res, s1)"
      by force
    have "s_repo s1 = s_repo s" "s_docs s1 = s_docs s" using with_env_frame(1) c by (metis snd_conv)+
    with Some c show ?thesis by (cases res) (simp_all add: upload_vendor_def Let_def)
  qed
  then show "s_repo (upload_vendor sv ctx app i ty content s) = s_repo s"
    "s_docs (upload_vendor sv ctx app i ty content s) = s_docs s" by auto
qed

section \<open>Creating an application\<close>

text \<open>The record \<open>createApplicationHandler\<close> hands to \<open>Create\<close>.\<close>

definition new_app :: "string \<Rightarrow> strings \<Rightarrow> Application" where
  "new_app uid req = \<lparr>app_ID = uid, app_UserID = req ''user_id'', app_Vendor = req ''vendor'',
     app_VendorApplicantID = '''', app_State = StateStarted, app_CreatedAt = 0, app_UpdatedAt = 0,
     app_ExpiresAt = 0, app_ReKYCDueAt = 0, app_DecidedAt = 0, app_Version = 0\<rparr>"

lemma new_app_fields [simp]:
  "app_ID (new_app uid req) = uid" "app_UserID (new_app uid req) = req ''user_id''"
  "app_Vendor (new_app uid req) = req ''vendor''" "app_State (new_app uid req) = StateStarted"
  by (simp_all add: new_app_def)

lemma Create_fill_vendor [simp]: "app_Vendor (Create_fill t a) = app_Vendor a"
  by (simp add: Create_fill_def)

lemma create_handler:
  fixes s :: "('s, 'e AuditEnv_scheme) Sys"
  assumes "decodeJSON (sv_lib sv) [''user_id'', ''vendor'', ''full_name''] rq = Inr req" and "req ''user_id'' \<noteq> ''''"
  defines "uid \<equiv> uuids (s_env s) (issued (s_env s))"
    and "s1 \<equiv> s\<lparr>s_env := (s_env s)\<lparr>issued := Suc (issued (s_env s))\<rparr>\<rparr>"
  shows "createApplicationHandler sv rq s =
    (case with_repo (repo_Create (sv_Repo sv) (new_app uid req)) s1 of
       ((Some err, _), s) \<Rightarrow> (writeError rq err, s)
     | ((None, app), s) \<Rightarrow>
         (let s = register_vendor sv (req_ctx rq) app (req ''full_name'') s;
              s = on_env (Record (app_ID app) ''application_created'' ''system''
                    [''user_id'' \<mapsto> AString (app_UserID app)]) s;
              s = on_env (Metrics.count createAppTotal_update 1) s
          in (writeJSON 201 (CreateAppBody (app_ID app) (app_UserID app) (app_State app) (app_CreatedAt app)), s)))"
proof -
  have "with_env newUUID s = (uid, s1)"
    by (simp add: with_env_def newUUID_def uid_def s1_def)
  then show ?thesis
    using assms(1,2) by (simp add: createApplicationHandler_def new_app_def)
qed

text \<open>The user's application is still open: a conflict, and nothing changes.\<close>

lemma create_refused:
  assumes "sys_ok mem_view mem_good s" and "sv_Repo sv = stored_repo (mem_repo sink)"
    and "decodeJSON (sv_lib sv) [''user_id'', ''vendor'', ''full_name''] rq = Inr req" and "req ''user_id'' \<noteq> ''''"
    and "\<not> all_terminal (req ''user_id'') (apps (s_repo s))"
    and "createApplicationHandler sv rq s = (resp, s')"
  shows "resp_status resp = 409 \<and> s_repo s' = s_repo s"
proof -
  note fresh = fresh_uuid [OF assms(1)]
  let ?app = "new_app (uuids (s_env s) (issued (s_env s))) req"
  let ?s1 = "s\<lparr>s_env := (s_env s)\<lparr>issued := Suc (issued (s_env s))\<rparr>\<rparr>"
  obtain err where cr: "Create ?app (s_repo s, s_env ?s1) = ((Some err, ?app), s_repo s, s_env ?s1)"
    "errors_Is err ErrDuplicate"
    using Create_fresh [OF fresh(3), of ?app "s_env ?s1"] fresh(1,2) assms(4,5) by auto
  then have "resp_status (writeError rq err) = 409"
    by (cases err) (auto simp: writeError_def toAppError_def Let_def errDupApp_def NewAppError_def)
  with cr(1) assms(2,6) show ?thesis
    unfolding create_handler [where s = s, OF assms(3,4)] by (auto simp: with_in_repo)
qed

text \<open>Otherwise the decided application of the user, if any, makes room for the new one.\<close>

lemma create_admitted:
  assumes "sys_ok mem_view mem_good s" and "sv_Repo sv = stored_repo (mem_repo sink)"
    and "decodeJSON (sv_lib sv) [''user_id'', ''vendor'', ''full_name''] rq = Inr req" and "req ''user_id'' \<noteq> ''''"
    and "all_terminal (req ''user_id'') (apps (s_repo s))"
    and "createApplicationHandler sv rq s = (resp, s')"
  shows "resp_status resp = 201 \<and>
    (\<exists>i a. apps (s_repo s) i = None \<and>
       apps (s_repo s') = (forget_user (req ''user_id'') (apps (s_repo s)))(i \<mapsto> a) \<and>
       app_UserID a = req ''user_id'' \<and> app_Vendor a = req ''vendor'' \<and> app_State a = StateStarted)"
proof -
  note fresh = fresh_uuid [OF assms(1)]
  define uid where "uid = uuids (s_env s) (issued (s_env s))"
  define s1 where "s1 = s\<lparr>s_env := (s_env s)\<lparr>issued := Suc (issued (s_env s))\<rparr>\<rparr>"
  define app where "app = Create_fill (clock (s_env s1) (ticks (s_env s1))) (new_app uid req)"
  define s2 where "s2 = s1\<lparr>s_store := (s_store s)\<lparr>m_repo := (s_repo s)\<lparr>apps := (forget_user (req ''user_id'') (apps (s_repo s)))(uid \<mapsto> app),
         byUser := (byUser (s_repo s))(req ''user_id'' \<mapsto> uid)\<rparr>\<rparr>,
       s_env := (s_env s1)\<lparr>ticks := Suc (ticks (s_env s1))\<rparr>\<rparr>"
  have app: "app_ID app = uid" "app_UserID app = req ''user_id''" "app_State app = StateStarted"
    "app_Vendor app = req ''vendor''" by (simp_all add: app_def)
  have cr: "with_repo (repo_Create (sv_Repo sv) (new_app uid req)) s1 = ((None, app), s2)"
    using Create_fresh [OF fresh(3), of "new_app uid req" "s_env s1"] fresh(1,2) assms(2,4,5)
    by (simp add: with_in_repo s1_def s2_def app_def uid_def)
  have "apps (s_repo s2) (app_ID app) = Some app" by (simp add: s2_def app)
  from register_vendor_apps [OF assms(2) this, of "req_ctx rq" "req ''full_name''"] app
  obtain b where b: "apps (s_repo (register_vendor sv (req_ctx rq) app (req ''full_name'') s2)) =
      (apps (s_repo s2))(uid \<mapsto> b)" "app_UserID b = req ''user_id''" "app_State b = StateStarted"
      "app_Vendor b = req ''vendor''" by metis
  have "apps (s_repo s') = (forget_user (req ''user_id'') (apps (s_repo s)))(uid \<mapsto> b) \<and> resp_status resp = 201"
    using assms(6) b(1) cr unfolding create_handler [where s = s, OF assms(3,4)] uid_def [symmetric] s1_def [symmetric]
    by (auto simp: Let_def writeJSON_def s2_def)
  with fresh(1) b(2-4) show ?thesis by (auto simp: uid_def)
qed

text \<open>
  C7. \<open>createApplicationHandler\<close> over the in-memory repository, in any state that meets the
  invariant: while the user has an application that is not decided it answers 409 and changes
  nothing; otherwise it answers 201, drops the user's decided application if there is one, and
  files one new application in \<open>STARTED\<close> for that user and vendor under an identifier not in use.
\<close>

theorem create_handler_exact:
  assumes "sys_ok mem_view mem_good s" and "sv_Repo sv = stored_repo (mem_repo sink)"
    and "decodeJSON (sv_lib sv) [''user_id'', ''vendor'', ''full_name''] rq = Inr req" and "req ''user_id'' \<noteq> ''''"
    and "createApplicationHandler sv rq s = (resp, s')"
  shows "if all_terminal (req ''user_id'') (apps (s_repo s))
    then resp_status resp = 201 \<and>
      (\<exists>i a. apps (s_repo s) i = None \<and>
         apps (s_repo s') = (forget_user (req ''user_id'') (apps (s_repo s)))(i \<mapsto> a) \<and>
         app_UserID a = req ''user_id'' \<and> app_Vendor a = req ''vendor'' \<and> app_State a = StateStarted)
    else resp_status resp = 409 \<and> s_repo s' = s_repo s"
  using create_admitted [OF assms(1-4) _ assms(5)] create_refused [OF assms(1-4) _ assms(5)] by simp

theorem create_handler_exact_witness:
  "resp_status (fst (createApplicationHandler demo_sv (demo_request ''create'' '''') demo_sys)) = 409"
proof -
  have "map_sum id (\<lambda>req. req ''user_id'') (decodeJSON (sv_lib demo_sv) [''user_id'', ''vendor'', ''full_name'']
      (demo_request ''create'' '''')) = Inr ''u1''"
    by code_simp
  then obtain req where req: "decodeJSON (sv_lib demo_sv) [''user_id'', ''vendor'', ''full_name'']
      (demo_request ''create'' '''') = Inr req" "req ''user_id'' = ''u1''"
    by (auto simp: map_sum_def split: sum.splits)
  obtain resp s' where c: "createApplicationHandler demo_sv (demo_request ''create'' '''') demo_sys = (resp, s')"
    by force
  have "\<not> all_terminal ''u1'' (apps (s_repo demo_sys))"
    by (auto simp: all_terminal_def demo_sys_def demo_record_def)
  then show ?thesis
    using create_handler_exact [OF demo_sys_ok _ req(1) _ c] req(2) c
    by (simp add: memory_services_def)
qed

section \<open>Uploading a document\<close>

text \<open>What the handler has stored, \<open>doc\<close>, and the state \<open>s3\<close> in which it looks at the documents.\<close>

lemma upload_handler:
  assumes "sv_Repo sv = stored_repo (mem_repo sink)" and "sv_Docs sv = mem_docs"
    and "apps (s_repo s) i = Some a" and "req_path rq ''id'' = i"
    and "parseDocRequest (sv_lib sv) rq = Inr (ty, content)" and "index_bool validDocTypes ty"
    and "uploadDocumentHandler sv rq s = (resp, s')"
  obtains doc s3 where "resp = writeJSON 201 (DocumentBody doc)"
    and "doc_Type doc = ty" and "doc_Content doc = content" and "doc_ApplicationID doc = i"
    and "doc_RetentionUntil doc = AddDuration (doc_UploadedAt doc) year365"
    and "s_repo s3 = s_repo s" and "s_docs s3 = doc_Add i doc (s_docs s)"
    and "s' = on_env (Record i ''document_uploaded'' ''system'' [''type'' \<mapsto> AString ty])
      (if app_State a = StateStarted \<and> HasRequiredDocs i (s_docs s3)
       then snd (with_repo (in_repo (UpdateState sink i (app_Version a) StateDocumentsUploaded ''system''
              ''required documents uploaded'')) s3)
       else s3)"
proof -
  define now where "now = fst (with_env time_Now s)"
  define s1 where "s1 = snd (with_env time_Now s)"
  define uid where "uid = fst (with_env newUUID s1)"
  define s2 where "s2 = snd (with_env newUUID s1)"
  define doc where "doc = \<lparr>doc_ID = uid, doc_ApplicationID = i, doc_Type = ty, doc_Content = content,
      doc_UploadedAt = now, doc_RetentionUntil = AddDuration now year365\<rparr>"
  define s3 where "s3 = upload_vendor sv (req_ctx rq) a i ty content
      (on_env (Metrics.count uploadDocTotal_update 1) (s2\<lparr>s_store := (s_store s2)\<lparr>m_docs := doc_Add i doc (s_docs s2)\<rparr>\<rparr>))"
  have handler: "uploadDocumentHandler sv rq s = (writeJSON 201 (DocumentBody doc),
      on_env (Record i ''document_uploaded'' ''system'' [''type'' \<mapsto> AString ty])
        (if app_State a = StateStarted \<and> HasRequiredDocs i (s_docs s3)
         then snd (with_repo (in_repo (UpdateState sink i (app_Version a) StateDocumentsUploaded ''system''
                ''required documents uploaded'')) s3)
         else s3))"
    using assms(1-6)
    by (simp add: uploadDocumentHandler_def Get_def split_beta Let_def now_def s1_def uid_def s2_def doc_def
        s3_def mem_docs_def)
  have "s_repo s3 = s_repo s" "s_docs s3 = doc_Add i doc (s_docs s)"
    by (simp_all add: s3_def s2_def s1_def)
  with assms(7) show ?thesis unfolding handler by (intro that [of doc s3]) (simp_all add: doc_def)
qed

text \<open>
  C8. An upload of a valid type answers 201 with the document, files exactly that document with a
  retention of 365 days, and changes the applications only when the application is in
  \<open>STARTED\<close> and now has its required documents: then it, and nothing else, moves to
  \<open>DOCUMENTS_UPLOADED\<close>.
\<close>

theorem upload_handler_exact:
  assumes "sv_Repo sv = stored_repo (mem_repo sink)" and "sv_Docs sv = mem_docs"
    and "apps (s_repo s) i = Some a" and "req_path rq ''id'' = i"
    and "parseDocRequest (sv_lib sv) rq = Inr (ty, content)" and "index_bool validDocTypes ty"
    and "uploadDocumentHandler sv rq s = (resp, s')"
  shows "resp_status resp = 201 \<and>
    (\<exists>doc. resp_body resp = DocumentBody doc \<and> doc_Type doc = ty \<and> doc_Content doc = content \<and>
       doc_ApplicationID doc = i \<and> doc_RetentionUntil doc = AddDuration (doc_UploadedAt doc) year365 \<and>
       s_docs s' = doc_Add i doc (s_docs s)) \<and>
    (if app_State a = StateStarted \<and> HasRequiredDocs i (s_docs s')
     then \<exists>t. apps (s_repo s') = (apps (s_repo s))(i \<mapsto> transition_app t StateDocumentsUploaded a)
     else s_repo s' = s_repo s)"
proof -
  obtain doc s3 where h: "resp = writeJSON 201 (DocumentBody doc)"
    "doc_Type doc = ty" "doc_Content doc = content" "doc_ApplicationID doc = i"
    "doc_RetentionUntil doc = AddDuration (doc_UploadedAt doc) year365"
    and s3: "s_repo s3 = s_repo s" "s_docs s3 = doc_Add i doc (s_docs s)"
    and s': "s' = on_env (Record i ''document_uploaded'' ''system'' [''type'' \<mapsto> AString ty])
      (if app_State a = StateStarted \<and> HasRequiredDocs i (s_docs s3)
       then snd (with_repo (in_repo (UpdateState sink i (app_Version a) StateDocumentsUploaded ''system''
              ''required documents uploaded'')) s3)
       else s3)"
    using upload_handler [OF assms] by blast
  have "s_docs s' = s_docs s3" by (simp add: s')
  moreover have "if app_State a = StateStarted \<and> HasRequiredDocs i (s_docs s3)
     then \<exists>t. apps (s_repo s') = (apps (s_repo s))(i \<mapsto> transition_app t StateDocumentsUploaded a)
     else s_repo s' = s_repo s"
    using with_repo_UpdateState [of s3 i a StateDocumentsUploaded sink "''system''" "''required documents uploaded''"]
      assms(3) by (auto simp: s' s3(1))
  ultimately show ?thesis using h s3(2) by (auto simp: writeJSON_def)
qed

text \<open>A started application whose front document is there already.\<close>

definition demo_front :: "(MemStores, NetEnv) Sys" where
  "demo_front = demo_sys\<lparr>s_store := \<lparr>m_repo = \<lparr>apps = [''x'' \<mapsto> demo_record ''x'' ''u1'' StateStarted 1],
       byUser = [''u1'' \<mapsto> ''x'']\<rparr>,
     m_docs = doc_Add ''x'' \<lparr>doc_ID = ''d'', doc_ApplicationID = ''x'', doc_Type = ''ID_FRONT'', doc_Content = [],
       doc_UploadedAt = 1, doc_RetentionUntil = 2\<rparr> NewDocumentStore, m_live = NewLivenessStore\<rparr>\<rparr>"

theorem upload_handler_exact_witness:
  "\<exists>t. apps (s_repo (snd (uploadDocumentHandler demo_sv (demo_request ''selfie'' ''x'') demo_front))) =
     [''x'' \<mapsto> transition_app t StateDocumentsUploaded (demo_record ''x'' ''u1'' StateStarted 1)]"
proof -
  obtain resp s' where u: "uploadDocumentHandler demo_sv (demo_request ''selfie'' ''x'') demo_front = (resp, s')"
    by force
  have parse: "parseDocRequest (sv_lib demo_sv) (demo_request ''selfie'' ''x'') = Inr (''SELFIE'', [115])"
    by code_simp
  have apps: "apps (s_repo demo_front) = [''x'' \<mapsto> demo_record ''x'' ''u1'' StateStarted 1]"
    by (simp add: demo_front_def)
  have "HasRequiredDocs ''x'' (doc_Add ''x'' doc (s_docs demo_front))" if "doc_Type doc = ''SELFIE''" for doc
    using that by (simp add: demo_front_def HasRequiredDocs_def doc_Add_def NewDocumentStore_def)
  then show ?thesis
    using upload_handler_exact [OF _ _ _ _ parse _ u, of "event_sink_for False" "''x''" "demo_record ''x'' ''u1'' StateStarted 1"] u
    by (auto simp: memory_services_def apps demo_start_def demo_request_def path_value_def validDocTypes_def
        demo_record_def)
qed

section \<open>Screening\<close>

text \<open>
  Over the in-memory list and without a context's end, the service screens with exactly the listed
  names that occur, and compares their number with the threshold.
\<close>

lemma screening_Run_mem:
  assumes "screening_Run (mem_Screen c) env True None a w (h, e) = (res, h', e')"
  defines "names \<equiv> filter (\<lambda>m. Contains (ToUpper (TrimSpace w)) (ToUpper m)) (listed c)"
  obtains ps where "res = Inr (ps, ScreeningThreshold env \<le> int (length names))"
    and "map san_MatchedName ps = names"
    and "\<And>j. hit_List j h' = hit_List j h @ (if j = app_ID a then ps else [])"
proof -
  have "\<exists>ps m. res = Inr (ps, m)"
    using assms(1) by (auto simp: screening_Run_def mem_Screen_def Let_def split: prod.splits)
  then obtain ps m where res: "res = Inr (ps, m)" by blast
  obtain hs e1 where hs: "mem_Screen c None w e = (Inr hs, e1)"
    "map san_MatchedName ps = map sh_MatchedName hs" "m \<longleftrightarrow> ScreeningThreshold env \<le> int (length hs)"
    "\<And>j. index_list (hits h') j = index_list (hits h) j @ (if j = app_ID a then ps else [])"
    using mem_screen.screening_Run_ok [OF assms(1) [unfolded res]] by blast
  have names: "map sh_MatchedName hs = names"
    using hs(1) by (auto simp: mem_Screen_def screen_loop_hits names_def comp_def)
  then have "length hs = length names" by (metis length_map)
  with res hs names show ?thesis by (intro that [of ps]) (simp_all add: hit_List_def)
qed

text \<open>The handler without the outcome of its transition; \<open>s2\<close> is the state it is made in.\<close>

lemma screening_handler:
  assumes "sv_Repo sv = stored_repo (mem_repo sink)" and "sv_Screener sv = mem_Screen c" and "req_ctx rq = None"
    and "apps (s_repo s) i = Some a" and "app_ID a = i" and "req_path rq ''id'' = i"
    and "decodeJSON (sv_lib sv) [''full_name''] rq = Inr req"
  defines "found \<equiv> filter (\<lambda>m. Contains (ToUpper (TrimSpace (req ''full_name''))) (ToUpper m)) (listed c)"
  defines "manual \<equiv> ScreeningThreshold (sv_environ sv) \<le> int (length found)"
  defines "to \<equiv> if manual then StateManualReview else StateScreening"
  obtains ps s2 where "map san_MatchedName ps = found" and "s_repo s2 = s_repo s"
    and "hit_List i (s_hits s2) = hit_List i (s_hits s) @ ps"
    and "runScreeningHandler sv rq s =
      (writeJSON 200 (ScreeningBody ps manual (app_State a)),
       if CanTransition (app_State a) to
       then snd (with_repo (in_repo (UpdateState sink i (app_Version a) to ''system'' ''screening run'')) s2) else s2)"
proof -
  obtain res h e where run: "screening_Run (mem_Screen c) (sv_environ sv) True None a (req ''full_name'')
      (s_hits s, s_env s) = (res, h, e)"
    by (metis prod_cases3)
  obtain ps where ps: "res = Inr (ps, manual)" "map san_MatchedName ps = found"
    "\<And>j. hit_List j h = hit_List j (s_hits s) @ (if j = i then ps else [])"
    using screening_Run_mem [OF run] assms(5) unfolding manual_def found_def by blast
  define s2 where "s2 = on_env (Metrics.count screeningHits_update (of_nat (length ps)))
      (on_env (Metrics.count screeningTotal_update 1) (s\<lparr>s_hits := h, s_env := e\<rparr>))"
  show ?thesis
  proof (rule that [of ps s2])
    show "map san_MatchedName ps = found" by (rule ps(2))
    show "s_repo s2 = s_repo s" "hit_List i (s_hits s2) = hit_List i (s_hits s) @ ps"
      by (simp_all add: s2_def ps(3))
    show "runScreeningHandler sv rq s = (writeJSON 200 (ScreeningBody ps manual (app_State a)),
       if CanTransition (app_State a) to
       then snd (with_repo (in_repo (UpdateState sink i (app_Version a) to ''system'' ''screening run'')) s2) else s2)"
      using assms(1-4,6,7) run
      by (simp add: runScreeningHandler_def Get_def ps(1) s2_def to_def Let_def)
  qed
qed

text \<open>
  C9. A screening answers 200 with the listed names that occur in the name given, appends exactly
  these to the application's hits, and moves the application to \<open>MANUAL_REVIEW\<close> from as many
  hits as the threshold says, otherwise to \<open>SCREENING\<close>, if the state machine has that
  transition; and changes no other application.
\<close>

theorem screening_handler_exact:
  assumes "sv_Repo sv = stored_repo (mem_repo sink)" and "sv_Screener sv = mem_Screen c" and "req_ctx rq = None"
    and "apps (s_repo s) i = Some a" and "app_ID a = i" and "req_path rq ''id'' = i"
    and "decodeJSON (sv_lib sv) [''full_name''] rq = Inr req"
    and "runScreeningHandler sv rq s = (resp, s')"
  defines "names \<equiv> filter (\<lambda>m. Contains (ToUpper (TrimSpace (req ''full_name''))) (ToUpper m)) (listed c)"
  defines "manual \<equiv> ScreeningThreshold (sv_environ sv) \<le> int (length names)"
  defines "to \<equiv> if manual then StateManualReview else StateScreening"
  shows "resp_status resp = 200 \<and>
    (\<exists>ps. resp_body resp = ScreeningBody ps manual (app_State a) \<and> map san_MatchedName ps = names \<and>
       hit_List i (s_hits s') = hit_List i (s_hits s) @ ps) \<and>
    (if CanTransition (app_State a) to
     then \<exists>t. apps (s_repo s') = (apps (s_repo s))(i \<mapsto> transition_app t to a)
     else s_repo s' = s_repo s)"
proof -
  obtain ps s2 where ps: "map san_MatchedName ps = names" "s_repo s2 = s_repo s"
    "hit_List i (s_hits s2) = hit_List i (s_hits s) @ ps"
    and h: "runScreeningHandler sv rq s = (writeJSON 200 (ScreeningBody ps manual (app_State a)),
       if CanTransition (app_State a) to
       then snd (with_repo (in_repo (UpdateState sink i (app_Version a) to ''system'' ''screening run'')) s2) else s2)"
    using screening_handler [OF assms(1-7)] unfolding names_def manual_def to_def by blast
  show ?thesis
    using with_repo_UpdateState [of s2 i a to sink "''system''" "''screening run''"] assms(4,8) ps
    unfolding h by (auto simp: writeJSON_def)
qed

theorem screening_handler_exact_witness:
  "\<exists>t. apps (s_repo (snd (runScreeningHandler demo_sv (demo_request ''screen'' ''xxx'') demo_sys))) ''xxx'' =
     Some (transition_app t StateManualReview (demo_record ''xxx'' ''u3'' StateScreening 4))"
proof -
  have "map_sum id (\<lambda>req. req ''full_name'') (decodeJSON (sv_lib demo_sv) [''full_name'']
      (demo_request ''screen'' ''xxx'')) = Inr ''Mr. Bad Actor''"
    by code_simp
  then obtain req where req: "decodeJSON (sv_lib demo_sv) [''full_name''] (demo_request ''screen'' ''xxx'') = Inr req"
    "req ''full_name'' = ''Mr. Bad Actor''"
    by (auto simp: map_sum_def split: sum.splits)
  obtain resp s' where r: "runScreeningHandler demo_sv (demo_request ''screen'' ''xxx'') demo_sys = (resp, s')"
    by force
  have "filter (\<lambda>m. Contains (ToUpper (TrimSpace ''Mr. Bad Actor'')) (ToUpper m)) (listed NewInMemoryScreeningClient) =
      [''BAD ACTOR'']"
    by code_simp
  moreover have "ScreeningThreshold demo_env \<le> 1" by code_simp
  ultimately show ?thesis
    using screening_handler_exact [OF _ _ _ _ _ _ req(1) r, of "event_sink_for False" NewInMemoryScreeningClient "''xxx''"
        "demo_record ''xxx'' ''u3'' StateScreening 4"] r req(2)
    by (auto simp: memory_services_def screening_client_for_def demo_start_def demo_request_def
        path_value_def demo_record_def demo_sys_def)
qed

section \<open>Webhooks\<close>

text \<open>The ingestion of a webhook over the in-memory repository, which is what the handler runs.\<close>

interpretation mem_hooks: webhook_client "mem_repo (event_sink_for p)" apps repo_inv "vendor_client lib parse env c"
    for p lib parse env c
  by (simp add: webhook_client_def chosen_sink.mem.application_repo_axioms vendor_contract_chosen)

lemmas mem_Ingest_cases = mem_hooks.Ingest_cases

lemma reconcile_stored:
  "reconcile (stored_repo R) b v eid evt (m, e) =
     (case reconcile R b v eid evt (m_repo m, e) of (r, e') \<Rightarrow> (m\<lparr>m_repo := r\<rparr>, e'))"
  by (simp add: reconcile_def in_repo_def Let_def split: prod.split sum.split)

lemma Ingest_stored:
  "Ingest lib (stored_repo R) V ws ctx v raw sh th i (m, w, e) =
     (case Ingest lib R V ws ctx v raw sh th i (m_repo m, w, e) of
        (res, r, w', e') \<Rightarrow> (res, m\<lparr>m_repo := r\<rparr>, w', e'))"
  by (simp add: Ingest_def reconcile_stored Let_def split: prod.split sum.split option.split)

text \<open>An event that is accepted, in the service under way.\<close>

definition demo_hook :: "IngestResult \<times> ApplicationRepository \<times> WebhookStore \<times> NetEnv" where
  "demo_hook = Ingest demo_lib (mem_repo (event_sink_for (st_policy demo_start)))
     (vendor_client demo_lib (\<lambda>_. None) demo_env (st_vendor demo_start)) (NewWebhookService demo_env True)
     None ''stub'' ''hook'' ''v1=ab'' ''0'' ''e1'' (s_repo demo_sys, NewWebhookStore, s_env demo_sys)"

text \<open>A verified new event with a legal target moves the application it names.\<close>

lemma Ingest_advances:
  assumes "VerifyWebhook lib raw sh th (ws_secret ws) (ws_tolerance ws) e = (None, e1)"
    and "i \<noteq> ''''" and "seen w i = None" and "vc_ParseWebhook V ctx v raw e1 = (Inr evt, e2)"
    and "apps r (we_ApplicationID evt) = Some a" and "app_ID a = we_ApplicationID evt"
    and "we_ApplicationID evt \<noteq> ''''"
    and "to = reconcileOutcomeToState (we_Outcome evt) (app_State a)" and "to \<noteq> ''''"
    and "CanTransition (app_State a) to"
    and "Ingest lib (mem_repo sink) V ws ctx v raw sh th i (r, w, e) = (res, r', w', e')"
  shows "Accepted res \<and> w' = w\<lparr>seen := (seen w)(i \<mapsto> ())\<rparr> \<and>
    (\<exists>t. apps r' = (apps r)(we_ApplicationID evt \<mapsto> transition_app t to a))"
proof -
  have "\<exists>t e3. reconcile (mem_repo sink) (ws_audited ws) v i evt (r, e2) =
      (r\<lparr>apps := (apps r)(we_ApplicationID evt \<mapsto> transition_app t to a)\<rparr>, e3)"
    using assms(5-10)
    by (auto simp: reconcile_def mem_repo_def Get_def UpdateState_def ValidateTransition_def time_Now_def Let_def)
  then obtain t e3 where "reconcile (mem_repo sink) (ws_audited ws) v i evt (r, e2) =
      (r\<lparr>apps := (apps r)(we_ApplicationID evt \<mapsto> transition_app t to a)\<rparr>, e3)" by blast
  with assms(1-4,11) show ?thesis by (auto simp: Ingest_def Seen_def Let_def)
qed

lemma demo_hook_result:
  assumes "demo_hook = (res, r, w, e)"
  shows "Accepted res \<and> (\<exists>t. apps r = (apps (s_repo demo_sys))(''xxx'' \<mapsto>
    transition_app t StateVendorDecision (demo_record ''xxx'' ''u3'' StateScreening 4)))"
proof -
  let ?V = "vendor_client demo_lib (\<lambda>_. None) demo_env (st_vendor demo_start)"
  let ?ws = "NewWebhookService demo_env True"
  have parts: "webhook_parts ''v1=ab'' ''0'' = (''0'', ''ab'')" "ParseInt 64 (TrimSpace ''0'') = Some 0"
    "TrimSpace ''ab'' = ''ab''"
    by code_simp+
  then have "\<exists>e1. VerifyWebhook demo_lib ''hook'' ''v1=ab'' ''0'' (ws_secret ?ws) (ws_tolerance ?ws)
      (s_env demo_sys) = (None, e1)"
    unfolding VerifyWebhook_None
    by (simp add: demo_sys_def demo_world_def demo_lib_def Unix_def NewWebhookService_def Seconds_300 abs64_def
        word_sless_alt)
  then obtain e1 where v: "VerifyWebhook demo_lib ''hook'' ''v1=ab'' ''0'' (ws_secret ?ws) (ws_tolerance ?ws)
      (s_env demo_sys) = (None, e1)" by blast
  have "map_sum id (\<lambda>m. (m ''application_id'', m ''outcome''))
      (unmarshal_strings [''application_id'', ''outcome'']
        (JObject [(''application_id'', JString ''xxx''), (''outcome'', JString ''CLEAR'')])) = Inr (''xxx'', ''CLEAR'')"
    by code_simp
  then have "\<exists>evt. vc_ParseWebhook ?V None ''stub'' ''hook'' e1 = (Inr evt, e1) \<and>
      we_ApplicationID evt = ''xxx'' \<and> we_Outcome evt = ''CLEAR''"
    by (auto simp: vendor_client_def demo_start_def StubVendorClient_def stub_ParseWebhook_def Let_def demo_lib_def
        map_sum_def split: sum.splits)
  then obtain evt where p: "vc_ParseWebhook ?V None ''stub'' ''hook'' e1 = (Inr evt, e1)"
    and evt: "we_ApplicationID evt = ''xxx''" "we_Outcome evt = ''CLEAR''" by blast
  have to: "reconcileOutcomeToState ''CLEAR'' StateScreening = StateVendorDecision"
    "CanTransition StateScreening StateVendorDecision"
    by code_simp+
  let ?a = "demo_record ''xxx'' ''u3'' StateScreening 4"
  have a: "apps (s_repo demo_sys) (we_ApplicationID evt) = Some ?a" "app_ID ?a = we_ApplicationID evt"
    "we_ApplicationID evt \<noteq> ''''"
    by (simp_all add: evt demo_sys_def demo_record_def)
  have st: "StateVendorDecision = reconcileOutcomeToState (we_Outcome evt) (app_State ?a)"
    "CanTransition (app_State ?a) StateVendorDecision" "StateVendorDecision \<noteq> ''''"
    using to by (simp_all add: evt demo_record_def)
  have seen: "''e1'' \<noteq> ''''" "seen NewWebhookStore ''e1'' = None" by (simp_all add: NewWebhookStore_def)
  from Ingest_advances [OF v seen p a st(1,3,2) assms [unfolded demo_hook_def]]
  show ?thesis by (simp add: evt)
qed

text \<open>The stores of the started application.\<close>

lemma demo_orders:
  "range_order (docs (s_docs demo_front)) [''x'']" "range_order (sessions (s_live demo_front)) []"
  by (simp_all add: range_order_def demo_front_def demo_sys_def doc_Add_def NewDocumentStore_def
      NewLivenessStore_def)

lemma demo_doc:
  "index_list (docs (s_docs demo_front)) i = (if i = ''x'' then
     [\<lparr>doc_ID = ''d'', doc_ApplicationID = ''x'', doc_Type = ''ID_FRONT'', doc_Content = [],
       doc_UploadedAt = 1, doc_RetentionUntil = 2\<rparr>] else [])"
  by (simp add: demo_front_def doc_Add_def NewDocumentStore_def index_list_def)

end
