(* ===== verification/Onboarding.thy ===== *)
theory Onboarding
  imports Handlers
begin

text \<open>
  The way of one applicant through the service: the six requests from the first document to the
  vendor's confirmation, each through the middleware and over the in-memory services, and where they
  lead. The facts on single handlers are those of \<open>Handlers\<close>.
\<close>

section \<open>A request through the middleware\<close>

definition same_stores :: "('s, 'e) Sys \<Rightarrow> ('s, 'e) Sys \<Rightarrow> bool" where
  "same_stores s s' \<longleftrightarrow> s_store s' = s_store s \<and> s_hits s' = s_hits s \<and> s_seen s' = s_seen s"

lemma serve_around:
  assumes "newMux verb segs = (rt, pv)"
  obtains rid s0 where "same_stores s s0" and "logs None (s_env s) (s_env s0)"
    and "same_stores (snd (handle sv V rt (rq\<lparr>req_rid := rid, req_path := pv\<rparr>) s0)) (snd (serve sv V verb segs rq s))"
    and "logs None (s_env (snd (handle sv V rt (rq\<lparr>req_rid := rid, req_path := pv\<rparr>) s0)))
      (s_env (snd (serve sv V verb segs rq s)))"
proof -
  define p where "p = (if req_header rq ''X-Correlation-Id'' = '''' then with_env newUUID s
      else (req_header rq ''X-Correlation-Id'', s))"
  define s0 where "s0 = snd (with_env time_Now (snd p))"
  define h where "h = snd (handle sv V rt (rq\<lparr>req_rid := fst p, req_path := pv\<rparr>) s0)"
  have served: "snd (serve sv V verb segs rq s) =
      snd (with_env time_Now (on_env (\<lambda>e. e\<lparr>globalMetrics := observeLatency
        (Since (fst (with_env time_Now (on_env (Metrics.count requestsTotal_update 1) h)))
               (fst (with_env time_Now (snd p)))) (globalMetrics e)\<rparr>)
        (snd (with_env time_Now (on_env (Metrics.count requestsTotal_update 1) h)))))"
    by (simp add: serve_def correlationMiddleware_def loggingMiddleware_def assms split_beta Let_def p_def
        s0_def h_def)
  have "logs None (s_env s) (s_env (snd p))" "same_stores s (snd p)"
    by (simp_all add: p_def with_env_def newUUID_def same_stores_def)
  then have "same_stores s s0" "logs None (s_env s) (s_env s0)"
    by (auto simp: s0_def same_stores_def with_env_def time_Now_def intro: logs_trans_quiet)
  moreover have "same_stores h (snd (serve sv V verb segs rq s))"
    unfolding served by (simp add: same_stores_def)
  moreover have "logs None (s_env h) (s_env (snd (serve sv V verb segs rq s)))"
    unfolding served by (rule logs_frame) (simp_all add: with_env_def on_env_def split_beta)
  ultimately show ?thesis using that [of s0 "fst p"] by (simp add: h_def)
qed

text \<open>The middleware and the router do not touch what the handlers decode.\<close>

lemma decode_routed [simp]:
  "decodeJSON lib ns (rq\<lparr>req_rid := r, req_path := p\<rparr>) = decodeJSON lib ns rq"
  "parseDocRequest lib (rq\<lparr>req_rid := r, req_path := p\<rparr>) = parseDocRequest lib rq"
  "header_or (rq\<lparr>req_rid := r, req_path := p\<rparr>) n m = header_or rq n m"
proof -
  show "header_or (rq\<lparr>req_rid := r, req_path := p\<rparr>) n m = header_or rq n m" by (simp add: header_or_def)
  have d: "decodeJSON lib ks (rq\<lparr>req_rid := r, req_path := p\<rparr>) = decodeJSON lib ks rq" for ks
    by (simp add: decodeJSON_def)
  show "decodeJSON lib ns (rq\<lparr>req_rid := r, req_path := p\<rparr>) = decodeJSON lib ns rq" by (rule d)
  show "parseDocRequest lib (rq\<lparr>req_rid := r, req_path := p\<rparr>) = parseDocRequest lib rq"
    by (simp add: parseDocRequest_def d)
qed

section \<open>Steps of one application\<close>

text \<open>The view \<open>v'\<close> is \<open>v\<close> with the application \<open>i\<close>, still the same user's, in state \<open>st\<close>.\<close>

definition takes :: "string \<Rightarrow> State \<Rightarrow> view \<Rightarrow> view \<Rightarrow> bool" where
  "takes i st v v' \<longleftrightarrow>
     (\<exists>a b. v i = Some a \<and> v' = v(i \<mapsto> b) \<and> app_State b = st \<and> app_UserID b = app_UserID a)"

lemma takes_trans: "takes i st v v' \<Longrightarrow> takes i st' v' v'' \<Longrightarrow> takes i st' v v''"
  by (auto simp: takes_def)

lemma takes_same: "v i = Some a \<Longrightarrow> takes i (app_State a) v v"
  unfolding takes_def by (intro exI [of _ a]) (simp add: fun_upd_idem)

lemma takes_transition: "v i = Some a \<Longrightarrow> takes i st v (v(i \<mapsto> transition_app t st a))"
  by (auto simp: takes_def)

lemma takes_at: "takes i st v v' \<Longrightarrow> \<exists>a. v' i = Some a \<and> app_State a = st"
  by (auto simp: takes_def)

text \<open>
  The services of the claim, and what a request keeps of them: the invariant, the clock, and the
  identifiers of webhooks unless it is one.
\<close>

lemma sys_ok_id:
  assumes "sys_ok mem_view mem_good s" and "apps (s_repo s) i = Some a"
  shows "app_ID a = i \<and> i \<noteq> ''''"
proof -
  have "app_ok (s_env s) i a" using app_invD [of "apps (s_repo s)" "s_env s" i a] assms by (simp add: sys_ok_def repo_ok_def)
  then obtain k where "app_ID a = i" "i = uuids (s_env s) k" by (auto simp: app_ok_def issued_id_def)
  with assms(1) show ?thesis by (simp add: sys_ok_def repo_ok_def)
qed

lemma mem_serve:
  fixes lib :: Lib and parse env and st :: StartUp
    and s :: "(MemStores, 'e NetEnv_scheme) Sys"
  defines "sv \<equiv> memory_services lib parse env st" and "V \<equiv> vendor_client lib parse env (st_vendor st)"
  assumes "sys_ok mem_view mem_good s" and "newMux verb segs = (rt, pv)"
  obtains rid s0 where "same_stores s s0" and "sys_ok mem_view mem_good s0" and "env_le (s_env s) (s_env s0)"
    and "same_stores (snd (handle sv V rt (rq\<lparr>req_rid := rid, req_path := pv\<rparr>) s0)) (snd (serve sv V verb segs rq s))"
    and "env_le (s_env (snd (handle sv V rt (rq\<lparr>req_rid := rid, req_path := pv\<rparr>) s0))) (s_env (snd (serve sv V verb segs rq s)))"
    and "sys_ok mem_view mem_good (snd (serve sv V verb segs rq s))"
proof -
  obtain rid s0 where a: "same_stores s s0" "logs None (s_env s) (s_env s0)"
    "same_stores (snd (handle sv V rt (rq\<lparr>req_rid := rid, req_path := pv\<rparr>) s0)) (snd (serve sv V verb segs rq s))"
    "logs None (s_env (snd (handle sv V rt (rq\<lparr>req_rid := rid, req_path := pv\<rparr>) s0)))
      (s_env (snd (serve sv V verb segs rq s)))"
    using serve_around [OF assms(4)] .
  have "runs mem_view mem_good s s0" using a(1,2) by (intro runs_quiet) (simp_all add: same_stores_def)
  moreover have "runs mem_view mem_good s (snd (serve sv V verb segs rq s))"
    unfolding sv_def V_def by (rule mem_service.runs_serve)
  ultimately show ?thesis using that [of s0 rid] a assms(3) by (auto simp: runs_def dest: logs_env_le)
qed

lemma env_of_serve:
  assumes "sys_ok mem_view mem_good s"
  shows "env_le (s_env s) (s_env (snd (serve (memory_services lib parse env st)
    (vendor_client lib parse env (st_vendor st)) verb segs rq s)))"
proof -
  have "app_steps (apps (s_repo s), s_env s)
     (apps (s_repo (snd (serve (memory_services lib parse env st) (vendor_client lib parse env (st_vendor st)) verb segs rq s))),
      s_env (snd (serve (memory_services lib parse env st) (vendor_client lib parse env (st_vendor st)) verb segs rq s)))"
    using mem_service.runs_serve [of s lib parse env st verb segs rq] assms by (simp add: runs_def)
  from app_steps_env_le [OF this] show ?thesis by simp
qed

lemma with_env_seen: "with_env f s = (x, s') \<Longrightarrow> s_seen s' = s_seen s"
  using with_env_frame(3) by (metis snd_conv)

lemma seen_kept:
  "s_seen (snd (uploadDocumentHandler sv rq s)) = s_seen s"
  "s_seen (snd (startLivenessHandler sv rq s)) = s_seen s"
  "s_seen (snd (runScreeningHandler sv rq s)) = s_seen s"
proof -
  have v: "s_seen (upload_vendor sv ctx app i ty content s) = s_seen s" for ctx app i ty content s
    by (auto simp: upload_vendor_def Let_def split: option.split sum.split prod.split dest: with_env_seen)
  show "s_seen (snd (uploadDocumentHandler sv rq s)) = s_seen s"
    by (auto simp: uploadDocumentHandler_def Let_def split_beta v split: sum.split)
  show "s_seen (snd (startLivenessHandler sv rq s)) = s_seen s"
    by (auto simp: startLivenessHandler_def Let_def split_beta split: sum.split option.split)
  show "s_seen (snd (runScreeningHandler sv rq s)) = s_seen s"
    by (auto simp: runScreeningHandler_def Let_def split_beta split: sum.split)
qed

lemma HasRequiredDocs_iff:
  "HasRequiredDocs i d \<longleftrightarrow>
     (\<exists>x \<in> set (index_list (docs d) i). doc_Type x = ''ID_FRONT'') \<and>
     (\<exists>x \<in> set (index_list (docs d) i). doc_Type x = ''SELFIE'')"
  by (simp add: HasRequiredDocs_def required_loop_iff)

lemma upload_step:
  fixes lib :: Lib and parse env rq i and st :: StartUp
    and s :: "(MemStores, 'e NetEnv_scheme) Sys"
  defines "sv \<equiv> memory_services lib parse env st" and "V \<equiv> vendor_client lib parse env (st_vendor st)"
  defines "s' \<equiv> snd (serve sv V ''POST'' [''v1'', ''kyc'', ''applications'', i, ''documents''] rq s)"
  assumes "sys_ok mem_view mem_good s" and "apps (s_repo s) i = Some a"
    and "parseDocRequest lib rq = Inr (ty, content)" and "index_bool validDocTypes ty"
  shows "sys_ok mem_view mem_good s'" and "s_seen s' = s_seen s"
    and "\<exists>doc. doc_Type doc = ty \<and> s_docs s' = doc_Add i doc (s_docs s)"
    and "takes i (if app_State a = StateStarted \<and> HasRequiredDocs i (s_docs s') then StateDocumentsUploaded
      else app_State a) (apps (s_repo s)) (apps (s_repo s'))"
proof -
  have "newMux ''POST'' [''v1'', ''kyc'', ''applications'', i, ''documents''] = (UploadDocument, path_value ''id'' i)"
    using sys_ok_id [OF assms(4,5)] by (simp add: newMux_def by_method_def)
  from mem_serve [OF assms(4) this, of lib parse env st rq, folded sv_def V_def, folded s'_def]
  obtain rid s0 where s0: "same_stores s s0" and ok: "sys_ok mem_view mem_good s'"
    and h: "same_stores (snd (handle sv V UploadDocument (rq\<lparr>req_rid := rid, req_path := path_value ''id'' i\<rparr>) s0)) s'"
    by metis
  let ?rq = "rq\<lparr>req_rid := rid, req_path := path_value ''id'' i\<rparr>"
  obtain resp s1 where u: "uploadDocumentHandler sv ?rq s0 = (resp, s1)" by force
  then have s1: "same_stores s1 s'" using h by (simp add: handle_def)
  have sv: "sv_Repo sv = stored_repo (mem_repo (event_sink_for (st_policy st)))" "sv_Docs sv = mem_docs" "sv_lib sv = lib"
    by (simp_all add: sv_def memory_services_def)
  have pre: "apps (s_repo s0) i = Some a" "req_path ?rq ''id'' = i" "parseDocRequest (sv_lib sv) ?rq = Inr (ty, content)"
    using assms(5,6) s0 by (simp_all add: same_stores_def path_value_def sv)
  obtain doc s3 where d: "doc_Type doc = ty" "s_repo s3 = s_repo s0" "s_docs s3 = doc_Add i doc (s_docs s0)"
    "s1 = on_env (Record i ''document_uploaded'' ''system'' [''type'' \<mapsto> AString ty])
      (if app_State a = StateStarted \<and> HasRequiredDocs i (s_docs s3)
       then snd (with_repo (in_repo (UpdateState (event_sink_for (st_policy st)) i (app_Version a) StateDocumentsUploaded ''system''
              ''required documents uploaded'')) s3)
       else s3)"
    using upload_handler [OF sv(1,2) pre assms(7) u] by metis
  show "sys_ok mem_view mem_good s'" by (rule ok)
  show "s_seen s' = s_seen s"
    using s0 s1 seen_kept(1) [of sv ?rq s0] by (simp add: same_stores_def u)
  have docs: "s_docs s' = doc_Add i doc (s_docs s)" using s0 s1 d(3) by (simp add: same_stores_def d(4))
  then show "\<exists>doc. doc_Type doc = ty \<and> s_docs s' = doc_Add i doc (s_docs s)" using d(1) by blast
  have req: "HasRequiredDocs i (s_docs s3) \<longleftrightarrow> HasRequiredDocs i (s_docs s')"
    using s0 by (simp add: docs d(3) same_stores_def)
  have eqs: "s_repo s' = s_repo s1" "s_repo s3 = s_repo s" using s0 s1 d(2) by (simp_all add: same_stores_def)
  show "takes i (if app_State a = StateStarted \<and> HasRequiredDocs i (s_docs s') then StateDocumentsUploaded
      else app_State a) (apps (s_repo s)) (apps (s_repo s'))"
  proof (cases "app_State a = StateStarted \<and> HasRequiredDocs i (s_docs s')")
    case True
    obtain t where "apps (s_repo s1) = (apps (s_repo s))(i \<mapsto> transition_app t StateDocumentsUploaded a)"
      using with_repo_UpdateState [of s3 i a StateDocumentsUploaded "event_sink_for (st_policy st)" "''system''"
          "''required documents uploaded''"] assms(5) True by (auto simp: d(4) req eqs(2))
    then show ?thesis using True takes_transition [of "apps (s_repo s)", OF assms(5)] by (simp add: eqs(1))
  next
    case False
    then have "s_repo s1 = s_repo s" by (auto simp: d(4) req eqs(2))
    then show ?thesis using False takes_same [of "apps (s_repo s)", OF assms(5)] by (auto simp: eqs(1))
  qed
qed

lemma liveness_handler:
  assumes "sv_Repo sv = stored_repo (mem_repo sink)" and "sv_Liveness sv = mem_live" and "sv_Vendor sv = Some V"
    and "apps (s_repo s) i = Some a"
    and "app_State a = StateDocumentsUploaded" and "req_path rq ''id'' = i"
    and "fst (vc_StartLiveness V (req_ctx5 rq) (app_VendorApplicantID a) (s_env s)) = Inr sid"
  shows "\<exists>t. apps (s_repo (snd (startLivenessHandler sv rq s))) =
    (apps (s_repo s))(i \<mapsto> transition_app t StateLivenessPassed a)"
proof -
  define s1 where "s1 = snd (with_env (vc_StartLiveness V (req_ctx5 rq) (app_VendorApplicantID a)) s)"
  have v: "with_env (vc_StartLiveness V (req_ctx5 rq) (app_VendorApplicantID a)) s = (Inr sid, s1)"
    using assms(7) by (cases "vc_StartLiveness V (req_ctx5 rq) (app_VendorApplicantID a) (s_env s)")
      (simp add: s1_def with_env_def)
  define now where "now = fst (with_env time_Now s1)"
  define s2 where "s2 = snd (with_env newUUID (snd (with_env time_Now s1)))"
  define sess where "sess = \<lparr>ls_ID = fst (with_env newUUID (snd (with_env time_Now s1))), ls_ApplicationID = i,
      ls_VendorSessionID = sid, ls_Status = ''PASSED'', ls_StartedAt = now, ls_CompletedAt = now,
      ls_Result = ''PASS'', ls_RetentionUntil = AddDuration now year365\<rparr>"
  define s3 where "s3 = on_env (Record i ''liveness_started'' ''system'' [''vendor_session_id'' \<mapsto> AString sid])
      (on_env (Metrics.count livenessTotal_update 1) (s2\<lparr>s_store := lives_Add mem_live i sess (s_store s2)\<rparr>))"
  have handler: "snd (startLivenessHandler sv rq s) = on_env (Record i ''liveness_passed'' ''system'' Map.empty)
      (snd (with_repo (in_repo (UpdateState sink i (app_Version a) StateLivenessPassed ''system'' ''liveness passed'')) s3))"
    unfolding startLivenessHandler_def Let_def assms(1-3,5,6) stored_repo_simps mem_repo_simps memory_reads Get_def
      fst_conv snd_conv assms(4) option.case sum.case v prod.case split_beta now_def s2_def sess_def s3_def
    by simp
  have "s_repo s3 = s_repo s" by (simp add: s3_def s2_def s1_def)
  moreover have "CanTransition (app_State a) StateLivenessPassed" unfolding assms(5) by code_simp
  ultimately show ?thesis
    using with_repo_UpdateState [of s3 i a StateLivenessPassed sink "''system''" "''liveness passed''"] assms(4)
    by (simp add: handler)
qed

lemma liveness_step:
  fixes lib :: Lib and parse env rq i and st :: StartUp
    and s :: "(MemStores, 'e NetEnv_scheme) Sys"
  defines "sv \<equiv> memory_services lib parse env st" and "V \<equiv> vendor_client lib parse env (st_vendor st)"
  defines "s' \<equiv> snd (serve sv V ''POST'' [''v1'', ''kyc'', ''applications'', i, ''liveness''] rq s)"
  assumes "sys_ok mem_view mem_good s" and "apps (s_repo s) i = Some a" and "app_State a = StateDocumentsUploaded"
    and "\<And>w e. \<exists>sid. fst (vc_StartLiveness V (req_ctx5 rq) w e) = Inr sid"
  shows "sys_ok mem_view mem_good s'" and "s_seen s' = s_seen s"
    and "takes i StateLivenessPassed (apps (s_repo s)) (apps (s_repo s'))"
proof -
  have "newMux ''POST'' [''v1'', ''kyc'', ''applications'', i, ''liveness''] = (StartLiveness, path_value ''id'' i)"
    using sys_ok_id [OF assms(4,5)] by (simp add: newMux_def by_method_def)
  from mem_serve [OF assms(4) this, of lib parse env st rq, folded sv_def V_def, folded s'_def]
  obtain rid s0 where s0: "same_stores s s0" and ok: "sys_ok mem_view mem_good s'"
    and h: "same_stores (snd (handle sv V StartLiveness (rq\<lparr>req_rid := rid, req_path := path_value ''id'' i\<rparr>) s0)) s'"
    by metis
  let ?rq = "rq\<lparr>req_rid := rid, req_path := path_value ''id'' i\<rparr>"
  have s1: "same_stores (snd (startLivenessHandler sv ?rq s0)) s'" using h by (simp add: handle_def)
  have sv: "sv_Repo sv = stored_repo (mem_repo (event_sink_for (st_policy st)))" "sv_Liveness sv = mem_live"
    "sv_Vendor sv = Some V"
    by (simp_all add: sv_def V_def memory_services_def)
  have pre: "apps (s_repo s0) i = Some a" "req_path ?rq ''id'' = i"
    using assms(5) s0 by (simp_all add: same_stores_def path_value_def)
  obtain sid where sid: "fst (vc_StartLiveness V (req_ctx5 ?rq) (app_VendorApplicantID a) (s_env s0)) = Inr sid"
    using assms(7) [of "app_VendorApplicantID a" "s_env s0"] by auto
  obtain t where "apps (s_repo (snd (startLivenessHandler sv ?rq s0))) =
      (apps (s_repo s0))(i \<mapsto> transition_app t StateLivenessPassed a)"
    using liveness_handler [OF sv pre(1) assms(6) pre(2) sid] by blast
  then show "takes i StateLivenessPassed (apps (s_repo s)) (apps (s_repo s'))"
    using s0 s1 takes_transition [of "apps (s_repo s)", OF assms(5)] by (simp add: same_stores_def)
  show "s_seen s' = s_seen s" using s0 s1 seen_kept(2) [of sv ?rq s0] by (simp add: same_stores_def)
  show "sys_ok mem_view mem_good s'" by (rule ok)
qed

lemma screening_step:
  fixes lib :: Lib and parse env rq i and st :: StartUp
    and s :: "(MemStores, 'e NetEnv_scheme) Sys"
  defines "sv \<equiv> memory_services lib parse env st" and "V \<equiv> vendor_client lib parse env (st_vendor st)"
  defines "s' \<equiv> snd (serve sv V ''POST'' [''v1'', ''kyc'', ''applications'', i, ''screening''] rq s)"
  assumes "sys_ok mem_view mem_good s" and "apps (s_repo s) i = Some a" and "app_State a = StateLivenessPassed"
    and "st_screening st = UseMemoryList" and "req_ctx rq = None" and "decodeJSON lib [''full_name''] rq = Inr req"
    and "int (length (filter (\<lambda>m. Contains (ToUpper (TrimSpace (req ''full_name''))) (ToUpper m))
           (listed NewInMemoryScreeningClient))) < ScreeningThreshold env"
  shows "sys_ok mem_view mem_good s'" and "s_seen s' = s_seen s"
    and "takes i StateScreening (apps (s_repo s)) (apps (s_repo s'))"
proof -
  have "newMux ''POST'' [''v1'', ''kyc'', ''applications'', i, ''screening''] = (RunScreening, path_value ''id'' i)"
    using sys_ok_id [OF assms(4,5)] by (simp add: newMux_def by_method_def)
  from mem_serve [OF assms(4) this, of lib parse env st rq, folded sv_def V_def, folded s'_def]
  obtain rid s0 where s0: "same_stores s s0" and ok: "sys_ok mem_view mem_good s'"
    and h: "same_stores (snd (handle sv V RunScreening (rq\<lparr>req_rid := rid, req_path := path_value ''id'' i\<rparr>) s0)) s'"
    by metis
  let ?rq = "rq\<lparr>req_rid := rid, req_path := path_value ''id'' i\<rparr>"
  have s1: "same_stores (snd (runScreeningHandler sv ?rq s0)) s'" using h by (simp add: handle_def)
  have sv: "sv_Repo sv = stored_repo (mem_repo (event_sink_for (st_policy st)))" "sv_lib sv = lib" "sv_environ sv = env"
    "sv_Screener sv = mem_Screen NewInMemoryScreeningClient"
    using assms(7) by (simp_all add: sv_def memory_services_def screening_client_for_def)
  have pre: "apps (s_repo s0) i = Some a" "req_path ?rq ''id'' = i" "req_ctx ?rq = None"
    "decodeJSON (sv_lib sv) [''full_name''] ?rq = Inr req"
    using assms(5,8,9) s0 by (simp_all add: same_stores_def path_value_def sv)
  have id: "app_ID a = i" using sys_ok_id [OF assms(4,5)] by simp
  have can: "CanTransition StateLivenessPassed StateScreening" by code_simp
  obtain ps s2 where s2: "s_repo s2 = s_repo s0" and run: "runScreeningHandler sv ?rq s0 =
      (writeJSON 200 (ScreeningBody ps False (app_State a)),
       snd (with_repo (in_repo (UpdateState (event_sink_for (st_policy st)) i (app_Version a) StateScreening ''system''
         ''screening run'')) s2))"
    using screening_handler [OF sv(1,4) pre(3,1) id pre(2,4)] assms(6,10) can by (simp add: sv) blast
  obtain t where "apps (s_repo (snd (runScreeningHandler sv ?rq s0))) =
      (apps (s_repo s0))(i \<mapsto> transition_app t StateScreening a)"
    using with_repo_UpdateState [of s2 i a StateScreening "event_sink_for (st_policy st)" "''system''" "''screening run''"]
      pre(1) can assms(6) unfolding run snd_conv s2 by auto
  then show "takes i StateScreening (apps (s_repo s)) (apps (s_repo s'))"
    using s0 s1 takes_transition [of "apps (s_repo s)", OF assms(5)] by (simp add: same_stores_def)
  show "s_seen s' = s_seen s" using s0 s1 seen_kept(3) [of sv ?rq s0] by (simp add: same_stores_def)
  show "sys_ok mem_view mem_good s'" by (rule ok)
qed

section \<open>A signed event\<close>

text \<open>
  A request with the identifier \<open>eid\<close> that the vendor \<open>v\<close>, whose name stands in the path, sends to
  report \<open>CLEAR\<close> for the application \<open>i\<close>, signed with the shared secret and with a time stamp at most 300 s from all the
  instants \<open>T\<close>.
\<close>

definition clear_event ::
  "Lib \<Rightarrow> ('e AuditEnv_scheme) VendorClient \<Rightarrow> environ \<Rightarrow> string \<Rightarrow> time set \<Rightarrow> string \<Rightarrow> string \<Rightarrow> Request \<Rightarrow> bool" where
  "clear_event lib V env v T i eid rq \<longleftrightarrow>
     v \<noteq> '''' \<and> eid \<noteq> '''' \<and> header_or rq ''X-Webhook-Id'' ''X-Event-Id'' = eid \<and>
     (\<exists>raw ts. req_body rq = Inr raw \<and> - (2 ^ 63) \<le> ts \<and> ts < 2 ^ 63 \<and>
        header_or rq ''X-Webhook-Signature'' ''X-Signature'' =
          stripe_header ts (hmac_hex lib (ws_secret (NewWebhookService env True)) (signed_message ts raw)) \<and>
        (\<forall>t \<in> T. \<bar>sint (Unix t - word_of_int ts)\<bar> \<le> 300) \<and>
        (\<forall>e. \<exists>evt. fst (vc_ParseWebhook V (req_ctx rq) v raw e) = Inr evt \<and>
           we_ApplicationID evt = i \<and> we_Outcome evt = ''CLEAR''))"

lemma webhook_step:
  fixes lib :: Lib and parse env rq i v and st :: StartUp
    and s :: "(MemStores, 'e NetEnv_scheme) Sys"
  defines "sv \<equiv> memory_services lib parse env st" and "V \<equiv> vendor_client lib parse env (st_vendor st)"
  assumes "s' = snd (serve sv V ''POST'' [''v1'', ''webhooks'', v] rq s)"
    and "sys_ok mem_view mem_good s" and "apps (s_repo s) i = Some a"
    and "hmac_is_hex lib" and "clear_event lib V env v T i eid rq" and "seen (s_seen s) eid = None"
    and "clock (s_env s) ` {ticks (s_env s)..<ticks (s_env s')} \<subseteq> T"
    and "to = reconcileOutcomeToState ''CLEAR'' (app_State a)" and "to \<noteq> ''''" and "CanTransition (app_State a) to"
  shows "sys_ok mem_view mem_good s'" and "seen (s_seen s') = (seen (s_seen s))(eid \<mapsto> ())"
    and "takes i to (apps (s_repo s)) (apps (s_repo s'))"
proof -
  have "newMux ''POST'' [''v1'', ''webhooks'', v] = (Webhook, path_value ''vendor'' v)"
    using assms(7) by (simp add: newMux_def by_method_def clear_event_def)
  from mem_serve [OF assms(4) this, of lib parse env st rq, folded sv_def V_def, folded assms(3)]
  obtain rid s0 where s0: "same_stores s s0" "sys_ok mem_view mem_good s0" "env_le (s_env s) (s_env s0)"
    and ok: "sys_ok mem_view mem_good s'"
    and h: "same_stores (snd (handle sv V Webhook (rq\<lparr>req_rid := rid, req_path := path_value ''vendor'' v\<rparr>) s0)) s'"
      "env_le (s_env (snd (handle sv V Webhook (rq\<lparr>req_rid := rid, req_path := path_value ''vendor'' v\<rparr>) s0))) (s_env s')"
    by metis
  let ?rq = "rq\<lparr>req_rid := rid, req_path := path_value ''vendor'' v\<rparr>"
  let ?ws = "NewWebhookService env True"
  obtain raw ts where rq: "req_body rq = Inr raw" "- (2 ^ 63) \<le> ts" "ts < 2 ^ 63"
    "header_or rq ''X-Webhook-Signature'' ''X-Signature'' = stripe_header ts (hmac_hex lib (ws_secret ?ws) (signed_message ts raw))"
    "\<And>t. t \<in> T \<Longrightarrow> \<bar>sint (Unix t - word_of_int ts)\<bar> \<le> 300"
    "\<And>e. \<exists>evt. fst (vc_ParseWebhook V (req_ctx rq) v raw e) = Inr evt \<and> we_ApplicationID evt = i \<and> we_Outcome evt = ''CLEAR''"
    "eid \<noteq> ''''" "header_or rq ''X-Webhook-Id'' ''X-Event-Id'' = eid"
    using assms(7) unfolding clear_event_def by blast
  define sh where "sh = stripe_header ts (hmac_hex lib (ws_secret ?ws) (signed_message ts raw))"
  define th where "th = header_or rq ''X-Webhook-Timestamp'' ''X-Timestamp''"
  have sv: "sv_Repo sv = stored_repo (mem_repo (event_sink_for (st_policy st)))" "sv_lib sv = lib" "sv_Webhook sv = ?ws"
    by (simp_all add: sv_def memory_services_def)
  obtain res r w e where ing: "Ingest lib (mem_repo (event_sink_for (st_policy st))) V ?ws (req_ctx rq) v raw sh th eid
      (s_repo s0, s_seen s0, s_env s0) = (res, r, w, e)"
    by (metis prod_cases4)
  have "snd (handle sv V Webhook ?rq s0) \<in>
      (\<lambda>f. on_env (Metrics.count f 1) (s0\<lparr>s_store := (s_store s0)\<lparr>m_repo := r\<rparr>, s_seen := w, s_env := e\<rparr>)) `
        {webhookAccept_update, webhookDuplicate_update, webhookReject_update}"
    using ing by (simp add: handle_def webhookHandler_def Ingest_stored Let_def rq(1,4,8) sv path_value_def sh_def [symmetric]
        th_def [symmetric])
  then have after: "s_repo s' = r" "s_seen s' = w" "env_le e (s_env s')"
    using h by (auto simp: same_stores_def on_env_def intro: env_le_trans [OF logs_env_le [OF logs_count]])
  have secret: "ws_secret ?ws \<noteq> ''''" "ws_tolerance ?ws = 300 * second" by (simp_all add: NewWebhookService_def)
  have hex: "hex_text (hmac_hex lib (ws_secret ?ws) (signed_message ts raw))" using assms(6) by (simp add: hmac_is_hex_def)
  have mac: "hmac_hex lib (ws_secret ?ws) (signed_message ts raw) = hmac_hex lib
      (if ws_secret ?ws = '''' then ''dev-webhook-secret'' else ws_secret ?ws) (signed_message ts raw)"
    using secret(1) by simp
  have "sh \<noteq> ''''" by (simp add: sh_def stripe_header_def)
  note verify = VerifyWebhook_signed [OF assms(6) rq(2,3) webhook_parts_stripe [OF hex, of ts th, folded sh_def] this,
      of "ws_secret ?ws" raw "s_env s0", OF mac]
  have "env_le ((s_env s0)\<lparr>ticks := Suc (ticks (s_env s0))\<rparr>) e"
    using mem_hooks.Ingest_env [OF _ ing [unfolded V_def]] s0(2) verify(1) secret by (simp add: sys_ok_def repo_ok_def)
  then have "ticks (s_env s0) < ticks (s_env s')" "ticks (s_env s) \<le> ticks (s_env s0)" "clock (s_env s0) = clock (s_env s)"
    using after(3) s0(3) by (auto simp: env_le_def)
  then have now: "clock (s_env s0) (ticks (s_env s0)) \<in> T" using assms(9) by auto
  have ver: "VerifyWebhook lib raw sh th (ws_secret ?ws) (ws_tolerance ?ws) (s_env s0) =
      (None, (s_env s0)\<lparr>ticks := Suc (ticks (s_env s0))\<rparr>)"
    unfolding secret(2) prod_eq_iff fst_conv snd_conv using verify(1) verify(2) [OF rq(5) [OF now]] by blast
  obtain evt e2 where evt: "vc_ParseWebhook V (req_ctx rq) v raw ((s_env s0)\<lparr>ticks := Suc (ticks (s_env s0))\<rparr>) = (Inr evt, e2)"
    "we_ApplicationID evt = i" "we_Outcome evt = ''CLEAR''"
    using rq(6) [of "(s_env s0)\<lparr>ticks := Suc (ticks (s_env s0))\<rparr>"] by (auto simp: fst_def split: prod.splits)
  have a: "apps (s_repo s0) (we_ApplicationID evt) = Some a" using assms(5) s0(1) by (simp add: evt same_stores_def)
  have id: "app_ID a = we_ApplicationID evt" "we_ApplicationID evt \<noteq> ''''"
    using sys_ok_id [OF assms(4,5)] by (simp_all add: evt)
  have new: "seen (s_seen s0) eid = None" using assms(8) s0(1) by (simp add: same_stores_def)
  have "w = (s_seen s0)\<lparr>seen := (seen (s_seen s0))(eid \<mapsto> ())\<rparr>" "\<exists>t. apps r = (apps (s_repo s0))(i \<mapsto> transition_app t to a)"
    using Ingest_advances [OF ver rq(7) new evt(1) a id _ assms(11,12) ing] assms(10) by (simp_all add: evt)
  then show "seen (s_seen s') = (seen (s_seen s))(eid \<mapsto> ())" "takes i to (apps (s_repo s)) (apps (s_repo s'))"
    using s0(1) after takes_transition [of "apps (s_repo s)", OF assms(5)] by (auto simp: same_stores_def)
  show "sys_ok mem_view mem_good s'" by (rule ok)
qed

section \<open>From the first document to the decision\<close>

text \<open>The applicant's four requests, and the vendor's two reports.\<close>

definition applicant_requests :: "string \<Rightarrow> Request \<Rightarrow> Request \<Rightarrow> Request \<Rightarrow> Request \<Rightarrow> sys_event list" where
  "applicant_requests i front selfie live screen =
     [HttpRequest ''POST'' [''v1'', ''kyc'', ''applications'', i, ''documents''] front,
      HttpRequest ''POST'' [''v1'', ''kyc'', ''applications'', i, ''documents''] selfie,
      HttpRequest ''POST'' [''v1'', ''kyc'', ''applications'', i, ''liveness''] live,
      HttpRequest ''POST'' [''v1'', ''kyc'', ''applications'', i, ''screening''] screen]"

definition vendor_reports :: "string \<Rightarrow> Request \<Rightarrow> Request \<Rightarrow> sys_event list" where
  "vendor_reports v decide confirm =
     [HttpRequest ''POST'' [''v1'', ''webhooks'', v] decide, HttpRequest ''POST'' [''v1'', ''webhooks'', v] confirm]"

lemma requests_reach_screening:
  fixes s :: "(MemStores, 'e NetEnv_scheme) Sys"
    and V :: "('e NetEnv_scheme) VendorClient"
  assumes V: "V = vendor_client lib parse env (st_vendor st)"
    and ok: "sys_ok mem_view mem_good s" and at: "apps (s_repo s) i = Some a" "app_State a = StateStarted"
    and run: "s' = sys_run (memory_services lib parse env st) V
        (applicant_requests i front selfie live screen) s"
    and documents: "parseDocRequest lib front = Inr (''ID_FRONT'', c1)" "parseDocRequest lib selfie = Inr (''SELFIE'', c2)"
    and liveness: "\<And>w e. \<exists>sid. fst (vc_StartLiveness V (req_ctx5 live) w e) = Inr sid"
    and screening: "st_screening st = UseMemoryList" "req_ctx screen = None" "decodeJSON lib [''full_name''] screen = Inr req"
      "int (length (filter (\<lambda>m. Contains (ToUpper (TrimSpace (req ''full_name''))) (ToUpper m))
         (listed NewInMemoryScreeningClient))) < ScreeningThreshold env"
  shows "sys_ok mem_view mem_good s' \<and> s_seen s' = s_seen s \<and> takes i StateScreening (apps (s_repo s)) (apps (s_repo s'))"
proof -
  let ?serve = "serve (memory_services lib parse env st) (vendor_client lib parse env (st_vendor st)) ''POST''"
  let ?docs = "[''v1'', ''kyc'', ''applications'', i, ''documents'']"
  define s1 where "s1 = snd (?serve ?docs front s)"
  define s2 where "s2 = snd (?serve ?docs selfie s1)"
  define s3 where "s3 = snd (?serve [''v1'', ''kyc'', ''applications'', i, ''liveness''] live s2)"
  have s': "s' = snd (?serve [''v1'', ''kyc'', ''applications'', i, ''screening''] screen s3)"
    by (simp add: run V applicant_requests_def s1_def s2_def s3_def)
  have valid: "index_bool validDocTypes ''ID_FRONT''" "index_bool validDocTypes ''SELFIE''"
    by (simp_all add: validDocTypes_def)
  note u1 = upload_step [where parse = parse and env = env and st = st, OF ok at(1) documents(1) valid(1), folded s1_def]
  obtain a1 where a1: "apps (s_repo s1) i = Some a1"
    "app_State a1 = (if HasRequiredDocs i (s_docs s1) then StateDocumentsUploaded else StateStarted)"
    using takes_at [OF u1(4)] at(2) by auto
  note u2 = upload_step [where parse = parse and env = env and st = st, OF u1(1) a1(1) documents(2) valid(2), folded s2_def]
  have "HasRequiredDocs i (s_docs s2)"
    using u1(3) u2(3) by (auto simp: HasRequiredDocs_iff doc_Add_def index_list_def)
  then have t2: "takes i StateDocumentsUploaded (apps (s_repo s)) (apps (s_repo s2))"
    using takes_trans [OF u1(4) u2(4)] a1(2) by (auto split: if_splits)
  obtain a2 where a2: "apps (s_repo s2) i = Some a2" "app_State a2 = StateDocumentsUploaded"
    using takes_at [OF t2] by auto
  note l = liveness_step [OF u2(1) a2 liveness [unfolded V], folded s3_def]
  obtain a3 where a3: "apps (s_repo s3) i = Some a3" "app_State a3 = StateLivenessPassed"
    using takes_at [OF l(3)] by auto
  note sc = screening_step [where parse = parse, OF l(1) a3 screening, folded s']
  show ?thesis
    using sc l(2) u1(2) u2(2) takes_trans [OF takes_trans [OF t2 l(3)] sc(3)] by simp
qed

lemma reports_reach_pass:
  fixes s :: "(MemStores, 'e NetEnv_scheme) Sys"
    and V :: "('e NetEnv_scheme) VendorClient"
  assumes V: "V = vendor_client lib parse env (st_vendor st)"
    and ok: "sys_ok mem_view mem_good s" and at: "apps (s_repo s) i = Some a" "app_State a = StateScreening"
    and run: "s' = sys_run (memory_services lib parse env st) V
        (vendor_reports v decide confirm) s"
    and T: "clock (s_env s) ` {ticks (s_env s)..<ticks (s_env s')} \<subseteq> T"
    and hooks: "hmac_is_hex lib" "e1 \<noteq> e2" "seen (s_seen s) e1 = None" "seen (s_seen s) e2 = None"
      "clear_event lib V env v T i e1 decide"
      "clear_event lib V env v T i e2 confirm"
  shows "sys_ok mem_view mem_good s' \<and> takes i StatePass (apps (s_repo s)) (apps (s_repo s'))"
proof -
  let ?serve = "serve (memory_services lib parse env st) (vendor_client lib parse env (st_vendor st)) ''POST''
    [''v1'', ''webhooks'', v]"
  define s1 where "s1 = snd (?serve decide s)"
  have s1: "s1 = snd (?serve decide s)" and s': "s' = snd (?serve confirm s1)"
    by (simp_all add: run V vendor_reports_def s1_def)
  note env = env_of_serve [OF ok, of lib parse env st "''POST''" "[''v1'', ''webhooks'', v]" decide, folded s1_def]
  have targets: "StateVendorDecision = reconcileOutcomeToState ''CLEAR'' StateScreening"
    "StatePass = reconcileOutcomeToState ''CLEAR'' StateVendorDecision"
    "StateVendorDecision \<noteq> ''''" "StatePass \<noteq> ''''"
    "CanTransition StateScreening StateVendorDecision" "CanTransition StateVendorDecision StatePass"
    by code_simp+
  have sys1: "sys_ok mem_view mem_good s1" using mem_service.runs_serve [of s] ok by (auto simp: runs_def s1_def)
  note env' = env_of_serve [OF sys1, of lib parse env st "''POST''" "[''v1'', ''webhooks'', v]" confirm, folded s']
  have T': "clock (s_env s) ` {ticks (s_env s)..<ticks (s_env s1)} \<subseteq> T"
    "clock (s_env s1) ` {ticks (s_env s1)..<ticks (s_env s')} \<subseteq> T"
    using T env env' by (auto simp: env_le_def)
  note w1 = webhook_step [where parse = parse and env = env and st = st and v = v and rq = decide,
      OF s1 ok at(1) hooks(1) hooks(5) [unfolded V] hooks(3) T'(1) targets(1) [folded at(2)] targets(3) targets(5) [folded at(2)]]
  obtain a1 where a1: "apps (s_repo s1) i = Some a1" "app_State a1 = StateVendorDecision"
    using takes_at [OF w1(3)] by auto
  have "seen (s_seen s1) e2 = None" using w1(2) hooks(2,4) by simp
  note w2 = webhook_step [where parse = parse and env = env and st = st and v = v and rq = confirm,
      OF s' sys1 a1(1) hooks(1) hooks(6) [unfolded V] this T'(2) targets(2) [folded a1(2)] targets(4) targets(6) [folded a1(2)]]
  show ?thesis using w2(1) takes_trans [OF w1(3) w2(3)] by simp
qed

text \<open>
  C30. An applicant who does every step is let in. In any state of the service that meets the
  invariant, take an application in \<open>STARTED\<close>; let a front document and a selfie be uploaded for
  it, the vendor start the liveness check, the name screened occur in fewer listed names than the
  threshold, and the vendor then report \<open>CLEAR\<close> twice, in signed events with identifiers of their
  own and time stamps at most 300 seconds from the clock of the run. Then it ends in \<open>PASS\<close>, still
  the same user's, its next check due 365 days after the decision, and no other application has
  changed.
\<close>

theorem applicant_reaches_pass:
  fixes s :: "(MemStores, 'e NetEnv_scheme) Sys"
    and V :: "('e NetEnv_scheme) VendorClient"
  assumes V: "V = vendor_client lib parse env (st_vendor st)"
    and ok: "sys_ok mem_view mem_good s" and at: "apps (s_repo s) i = Some a" "app_State a = StateStarted"
    and run: "s' = sys_run (memory_services lib parse env st) V
        (applicant_requests i front selfie live screen @ vendor_reports v decide confirm) s"
    and documents: "parseDocRequest lib front = Inr (''ID_FRONT'', c1)" "parseDocRequest lib selfie = Inr (''SELFIE'', c2)"
    and liveness: "\<And>w e. \<exists>sid. fst (vc_StartLiveness V (req_ctx5 live) w e) = Inr sid"
    and screening: "st_screening st = UseMemoryList" "req_ctx screen = None" "decodeJSON lib [''full_name''] screen = Inr req"
      "int (length (filter (\<lambda>m. Contains (ToUpper (TrimSpace (req ''full_name''))) (ToUpper m))
         (listed NewInMemoryScreeningClient))) < ScreeningThreshold env"
    and T: "T = clock (s_env s) ` {ticks (s_env s)..<ticks (s_env s')}"
    and hooks: "hmac_is_hex lib" "e1 \<noteq> e2" "seen (s_seen s) e1 = None" "seen (s_seen s) e2 = None"
      "clear_event lib V env v T i e1 decide" "clear_event lib V env v T i e2 confirm"
  shows "\<exists>b. apps (s_repo s') = (apps (s_repo s))(i \<mapsto> b) \<and> app_State b = StatePass \<and>
    app_UserID b = app_UserID a \<and> app_ReKYCDueAt b = AddDuration (app_DecidedAt b) year365"
proof -
  define s4 where "s4 = sys_run (memory_services lib parse env st) V (applicant_requests i front selfie live screen) s"
  have run4: "s' = sys_run (memory_services lib parse env st) V (vendor_reports v decide confirm) s4"
    by (simp add: run s4_def sys_run_append)
  have up: "sys_ok mem_view mem_good s4" "s_seen s4 = s_seen s" "takes i StateScreening (apps (s_repo s)) (apps (s_repo s4))"
    using requests_reach_screening [OF V ok at s4_def documents liveness screening] by auto
  obtain a4 where a4: "apps (s_repo s4) i = Some a4" "app_State a4 = StateScreening" using takes_at [OF up(3)] by auto
  have "env_le (s_env s) (s_env s4)"
    using mem_service.runs_sys_run [of s lib parse env st] ok app_steps_env_le unfolding s4_def V runs_def by fastforce
  then have "clock (s_env s4) ` {ticks (s_env s4)..<ticks (s_env s')} \<subseteq> T" by (auto simp: env_le_def T)
  from reports_reach_pass [OF V up(1) a4 run4 this hooks(1,2) _ _ hooks(5,6)] up(2) hooks(3,4)
  have "sys_ok mem_view mem_good s'" and "takes i StatePass (apps (s_repo s4)) (apps (s_repo s'))" by simp_all
  moreover from this(2) up(3) have "takes i StatePass (apps (s_repo s)) (apps (s_repo s'))" by (rule takes_trans [rotated])
  then obtain b where b: "apps (s_repo s') = (apps (s_repo s))(i \<mapsto> b)" "app_State b = StatePass" "app_UserID b = app_UserID a"
    using at(1) by (auto simp: takes_def)
  ultimately have "app_ok (s_env s') i b" using app_invD [of "apps (s_repo s')" "s_env s'" i b] by (simp add: sys_ok_def repo_ok_def)
  then have "app_ReKYCDueAt b = AddDuration (app_DecidedAt b) year365"
    by (simp add: app_ok_def dates_ok_def b(2) IsTerminal_iff)
  with b show ?thesis by blast
qed

text \<open>
  The way of the applicant of \<open>demo_run\<close>, whose clock stands still, with a parser that knows the
  bodies.
\<close>

definition easy_lib :: Lib where
  "easy_lib = demo_lib\<lparr>json_parse := (\<lambda>raw.
     if raw = ''create'' then Inr (JObject [(''user_id'', JString ''u1''), (''vendor'', JString ''stub'')])
     else if raw = ''front'' then Inr (JObject [(''type'', JString ''ID_FRONT''), (''content'', JString ''f'')])
     else if raw = ''selfie'' then Inr (JObject [(''type'', JString ''SELFIE''), (''content'', JString ''s'')])
     else if raw = ''screen'' then Inr (JObject [(''full_name'', JString ''Ada Lovelace'')])
     else if raw = ''clear'' then Inr (JObject [(''application_id'', JString ''xx''), (''outcome'', JString ''CLEAR'')])
     else Inl (Plain ''syntax''))\<rparr>"

definition easy_run :: "(MemStores, NetEnv) Sys" where
  "easy_run = memory_run easy_lib (\<lambda>_. None) demo_env demo_start
     [HttpRequest ''POST'' [''v1'', ''kyc'', ''applications''] (demo_request ''create'' '''')]
     (demo_world\<lparr>clock := (\<lambda>_. 62135596800000000000)\<rparr>)"

definition easy_event :: "string \<Rightarrow> Request" where
  "easy_event eid = (demo_request ''clear'' '''')\<lparr>req_header :=
     (\<lambda>n. if n = ''X-Webhook-Signature'' then ''t=0,v1=ab'' else if n = ''X-Webhook-Id'' then eid else '''')\<rparr>"

lemma easy_run_ok: "sys_ok mem_view mem_good easy_run" "env_le (demo_world\<lparr>clock := (\<lambda>_. 62135596800000000000)\<rparr>) (s_env easy_run)"
proof -
  have "fresh_world (demo_world\<lparr>clock := (\<lambda>_. 62135596800000000000)\<rparr>)"
    using demo_world_fresh(1) by (simp add: fresh_world_def)
  from memory_run_ok [OF this] show "sys_ok mem_view mem_good easy_run"
    "env_le (demo_world\<lparr>clock := (\<lambda>_. 62135596800000000000)\<rparr>) (s_env easy_run)"
    unfolding easy_run_def using app_steps_env_le by fastforce+
qed

lemma easy_clear:
  fixes V :: "NetEnv VendorClient"
  assumes "V = vendor_client easy_lib (\<lambda>_. None) demo_env UseStub" and "eid \<noteq> ''''" and "T \<subseteq> {62135596800000000000}"
  shows "clear_event easy_lib V demo_env ''stub'' T ''xx'' eid (easy_event eid)"
proof -
  have "map_sum id (\<lambda>m. (m ''application_id'', m ''outcome''))
      (unmarshal_strings [''application_id'', ''outcome'']
        (JObject [(''application_id'', JString ''xx''), (''outcome'', JString ''CLEAR'')])) = Inr (''xx'', ''CLEAR'')"
    by code_simp
  then have parse: "\<exists>evt. fst (vc_ParseWebhook V None ''stub'' ''clear'' e) = Inr evt \<and>
      we_ApplicationID evt = ''xx'' \<and> we_Outcome evt = ''CLEAR''" for e
    by (auto simp: assms(1) vendor_client_def StubVendorClient_def stub_ParseWebhook_def Let_def easy_lib_def
        map_sum_def split: sum.splits)
  have head: "stripe_header 0 ''ab'' = ''t=0,v1=ab''" by code_simp
  show ?thesis
    unfolding clear_event_def
    by (intro conjI exI [of _ "''clear''"] exI [of _ "0 :: int"])
       (use assms(2,3) parse head in \<open>auto simp: easy_event_def demo_request_def header_or_def easy_lib_def demo_lib_def Unix_def\<close>)
qed

theorem applicant_reaches_pass_witness:
  "\<exists>b. apps (s_repo (sys_run (memory_services easy_lib (\<lambda>_. None) demo_env demo_start)
        (vendor_client easy_lib (\<lambda>_. None) demo_env UseStub)
        (applicant_requests ''xx'' (demo_request ''front'' '''') (demo_request ''selfie'' '''')
           (demo_request '''' '''') (demo_request ''screen'' '''') @
         vendor_reports ''stub'' (easy_event ''1'') (easy_event ''2'')) easy_run)) ''xx'' = Some b \<and> app_State b = StatePass"
proof -
  let ?V = "vendor_client easy_lib (\<lambda>_. None) demo_env (st_vendor demo_start) :: NetEnv VendorClient"
  have st: "st_vendor demo_start = UseStub" "st_screening demo_start = UseMemoryList" by (simp_all add: demo_start_def)
  have "map_option app_State (apps (s_repo easy_run) ''xx'') = Some StateStarted" by code_simp
  then obtain a where a: "apps (s_repo easy_run) ''xx'' = Some a" "app_State a = StateStarted"
    by (cases "apps (s_repo easy_run) ''xx''") auto
  have docs: "parseDocRequest easy_lib (demo_request ''front'' '''') = Inr (''ID_FRONT'', [102])"
    "parseDocRequest easy_lib (demo_request ''selfie'' '''') = Inr (''SELFIE'', [115])"
    by code_simp+
  have live: "\<exists>sid. fst (vc_StartLiveness ?V (req_ctx5 (demo_request '''' '''')) w e) = Inr sid" for w e
    by (simp add: st vendor_client_def StubVendorClient_def stub_StartLiveness_def demo_request_def Let_def split_beta)
  have "map_sum id (\<lambda>req. req ''full_name'') (decodeJSON easy_lib [''full_name''] (demo_request ''screen'' '''')) =
      Inr ''Ada Lovelace''"
    by code_simp
  then obtain req where req: "decodeJSON easy_lib [''full_name''] (demo_request ''screen'' '''') = Inr req"
    "req ''full_name'' = ''Ada Lovelace''"
    by (auto simp: map_sum_def split: sum.splits)
  have few: "int (length (filter (\<lambda>m. Contains (ToUpper (TrimSpace (req ''full_name''))) (ToUpper m))
         (listed NewInMemoryScreeningClient))) < ScreeningThreshold demo_env"
    unfolding req(2) by code_simp
  have hex: "hmac_is_hex easy_lib" by (simp add: hmac_is_hex_def easy_lib_def demo_lib_def hex_text_def)
  have new: "map_option (\<lambda>_. True) (seen (s_seen easy_run) ''1'') = None" "map_option (\<lambda>_. True) (seen (s_seen easy_run) ''2'') = None"
    by code_simp+
  have clk: "clock (s_env easy_run) = (\<lambda>_. 62135596800000000000)" using easy_run_ok(2) by (simp add: env_le_def)
  have ev: "clear_event easy_lib ?V demo_env ''stub'' (clock (s_env easy_run) ` X) ''xx'' eid (easy_event eid)"
    if "eid \<noteq> ''''" for X eid
    by (rule easy_clear) (use that in \<open>auto simp: st clk\<close>)
  have ids: "''1'' \<noteq> ''2''" "seen (s_seen easy_run) ''1'' = None" "seen (s_seen easy_run) ''2'' = None"
    "''1'' \<noteq> ''''" "''2'' \<noteq> ''''" "req_ctx (demo_request ''screen'' '''') = None"
    using new by (simp_all add: demo_request_def)
  from applicant_reaches_pass [OF refl easy_run_ok(1) a refl docs live st(2) ids(6) req(1) few refl hex ids(1-3)
      ev [OF ids(4)] ev [OF ids(5)]]
  show ?thesis unfolding st(1) by auto
qed

end
