(* ===== verification/Base64.thy ===== *)
theory Base64
  imports Handlers
begin

text \<open>
  The two text codecs of Go's standard library that the service uses on bytes:
  \<open>base64.StdEncoding\<close> (\<open>db/crypto.go\<close>, \<open>internal/db_stores.go\<close>) and the decoder of \<open>encoding/hex\<close>
  (\<open>db/crypto.go\<close>). The decoders return \<open>None\<close> where the library returns an error, whose text the
  callers do not use.
\<close>

section \<open>Base64\<close>

definition b64_alphabet :: string where
  "b64_alphabet = ''ABCDEFGHIJKLMNOPQRSTUVWXYZabcdefghijklmnopqrstuvwxyz0123456789+/''"

definition b64_char :: "nat \<Rightarrow> char" where
  "b64_char n = b64_alphabet ! n"

fun index_of :: "'a \<Rightarrow> 'a list \<Rightarrow> nat option" where
  "index_of x [] = None"
| "index_of x (y # ys) = (if x = y then Some 0 else map_option Suc (index_of x ys))"

definition b64_value :: "char \<Rightarrow> nat option" where
  "b64_value c = index_of c b64_alphabet"

definition byte_of :: "nat \<Rightarrow> byte" where
  "byte_of n = of_nat n"

text \<open>\<open>EncodeToString\<close>: three bytes are four digits of six bits; the last group is padded.\<close>

fun b64_encode :: "byte list \<Rightarrow> string" where
  "b64_encode [] = []"
| "b64_encode [a] = [b64_char (unat a div 4), b64_char (unat a mod 4 * 16), CHR ''='', CHR ''='']"
| "b64_encode [a, b] =
     [b64_char (unat a div 4), b64_char (unat a mod 4 * 16 + unat b div 16),
      b64_char (unat b mod 16 * 4), CHR ''='']"
| "b64_encode (a # b # c # bs) =
     b64_char (unat a div 4) # b64_char (unat a mod 4 * 16 + unat b div 16) #
     b64_char (unat b mod 16 * 4 + unat c div 64) # b64_char (unat c mod 64) # b64_encode bs"

text \<open>
  \<open>DecodeString\<close>, after the line breaks that it skips; padding only ends the text, and the unused
  bits of the last digit are not looked at.
\<close>

fun b64_groups :: "string \<Rightarrow> byte list option" where
  "b64_groups [] = Some []"
| "b64_groups (a # b # c # d # rest) =
     (case (b64_value a, b64_value b) of
        (Some x, Some y) \<Rightarrow>
          if c = CHR ''='' \<and> d = CHR ''='' \<and> rest = []
          then Some [byte_of (x * 4 + y div 16)]
          else (case b64_value c of
                  None \<Rightarrow> None
                | Some z \<Rightarrow>
                    if d = CHR ''='' \<and> rest = []
                    then Some [byte_of (x * 4 + y div 16), byte_of (y mod 16 * 16 + z div 4)]
                    else (case (b64_value d, b64_groups rest) of
                            (Some w, Some bs) \<Rightarrow>
                              Some (byte_of (x * 4 + y div 16) # byte_of (y mod 16 * 16 + z div 4) #
                                    byte_of (z mod 4 * 64 + w) # bs)
                          | _ \<Rightarrow> None))
      | _ \<Rightarrow> None)"
| "b64_groups _ = None"

definition b64_decode :: "string \<Rightarrow> byte list option" where
  "b64_decode s = b64_groups (filter (\<lambda>c. c \<noteq> CHR 0x0A \<and> c \<noteq> CHR 0x0D) s)"

section \<open>Hexadecimal\<close>

definition hex_value :: "char \<Rightarrow> nat option" where
  "hex_value c =
     (case index_of c ''0123456789abcdef'' of
        Some n \<Rightarrow> Some n
      | None \<Rightarrow> index_of c ''0123456789ABCDEF'')"

fun hex_decode :: "string \<Rightarrow> byte list option" where
  "hex_decode [] = Some []"
| "hex_decode [c] = None"
| "hex_decode (c # d # rest) =
     (case (hex_value c, hex_value d, hex_decode rest) of
        (Some x, Some y, Some bs) \<Rightarrow> Some (byte_of (16 * x + y) # bs)
      | _ \<Rightarrow> None)"

section \<open>Decoding undoes encoding\<close>

lemma b64_all_digits:
  "list_all (\<lambda>n. b64_value (b64_char n) = Some n \<and> b64_char n \<noteq> CHR ''='' \<and>
     b64_char n \<noteq> CHR 0x0A \<and> b64_char n \<noteq> CHR 0x0D) [0..<64]"
  by code_simp

lemma b64_digit [simp]:
  assumes "n < 64"
  shows "b64_value (b64_char n) = Some n" "b64_char n \<noteq> CHR ''=''" "b64_char n \<noteq> CHR 0x0A" "b64_char n \<noteq> CHR 0x0D"
  using b64_all_digits assms by (auto simp: list_all_iff)

lemma unat_byte_less [simp]: "unat (a :: byte) < 256"
  using unsigned_less [of a, where ?'a = nat] by simp

lemma byte_of_unat [simp]: "byte_of (unat a) = a"
  by (simp add: byte_of_def)

text \<open>The digits of a group and what the decoder makes of them.\<close>

lemma quotient_small: "(b :: nat) < 256 \<Longrightarrow> b div 16 < 16" "(c :: nat) < 256 \<Longrightarrow> c div 64 < 4"
  by simp_all

lemma pack_div: "(q :: nat) < m \<Longrightarrow> (x * m + q) div m = x"
  by simp

lemma pack_mod: "(q :: nat) < m \<Longrightarrow> (x * m + q) mod m = q"
  by simp

lemma pack_less: "(q :: nat) < m \<Longrightarrow> x < k \<Longrightarrow> x * m + q < k * m"
proof -
  assume "q < m" "x < k"
  then have "x * m + q < Suc x * m" and "Suc x * m \<le> k * m" by (simp, intro mult_le_mono1) simp
  then show ?thesis by simp
qed

lemma digit_bounds [simp]:
  "(a :: nat) < 256 \<Longrightarrow> a div 4 < 64" "(a :: nat) mod 4 * 16 < 64" "(b :: nat) mod 16 * 4 < 64" "(c :: nat) mod 64 < 64"
  "b < 256 \<Longrightarrow> a mod 4 * 16 + b div 16 < 64"
  "c < 256 \<Longrightarrow> b mod 16 * 4 + c div 64 < 64"
  using pack_less [of "b div 16" 16 "a mod 4" 4] pack_less [of "c div 64" 4 "b mod 16" 16] by simp_all

lemma first_byte [simp]:
  "(a :: nat) div 4 * 4 + a mod 4 * 16 div 16 = a"
  "b < 256 \<Longrightarrow> (a :: nat) div 4 * 4 + (a mod 4 * 16 + b div 16) div 16 = a"
  by (simp_all add: pack_div quotient_small)

lemma second_byte [simp]:
  "b < 256 \<Longrightarrow> ((a :: nat) mod 4 * 16 + b div 16) mod 16 * 16 + b mod 16 * 4 div 4 = b"
  "b < 256 \<Longrightarrow> c < 256 \<Longrightarrow>
     ((a :: nat) mod 4 * 16 + b div 16) mod 16 * 16 + (b mod 16 * 4 + c div 64) div 4 = b"
  by (simp_all add: pack_div pack_mod quotient_small)

lemma third_byte [simp]:
  "c < 256 \<Longrightarrow> ((b :: nat) mod 16 * 4 + c div 64) mod 4 * 64 + c mod 64 = c"
  by (simp add: pack_mod quotient_small)

lemma b64_groups_encode: "b64_groups (b64_encode bs) = Some bs"
  by (induction bs rule: b64_encode.induct) (simp_all add: quotient_small)

lemma b64_encode_text: "c \<in> set (b64_encode bs) \<Longrightarrow> c \<noteq> CHR 0x0A \<and> c \<noteq> CHR 0x0D"
  by (induction bs rule: b64_encode.induct) auto

lemma b64_decode_encode: "b64_decode (b64_encode bs) = Some bs"
proof -
  have "filter (\<lambda>c. c \<noteq> CHR 0x0A \<and> c \<noteq> CHR 0x0D) (b64_encode bs) = b64_encode bs"
    using b64_encode_text by (intro filter_True) blast
  then show ?thesis by (simp add: b64_decode_def b64_groups_encode)
qed

end
