(* ===== verification/Crypto.thy ===== *)
theory Crypto
  imports Base64
begin

text \<open>
  \<open>db/crypto.go\<close>: column-level encryption. AES, GCM and SHA-256 are parameters, with what
  \<open>crypto/cipher\<close> documents of an AEAD as a hypothesis where it is needed; so is the random source.
\<close>

section \<open>Parameters\<close>

text \<open>\<open>cipher.AEAD\<close> for one key, and the constructors of \<open>crypto/aes\<close> and \<open>crypto/cipher\<close>.\<close>

record AEAD =
  NonceSize :: nat
  Seal :: "byte list \<Rightarrow> byte list \<Rightarrow> byte list"
  Open :: "byte list \<Rightarrow> byte list \<Rightarrow> go_error + byte list"

record 'b CryptoLib =
  aes_NewCipher :: "byte list \<Rightarrow> go_error + 'b"
  cipher_NewGCM :: "'b \<Rightarrow> go_error + AEAD"
  sha256_Sum256 :: "byte list \<Rightarrow> byte list"

text \<open>\<open>draws k n\<close> is what the \<open>k\<close>-th \<open>rand.Read\<close> gives into a buffer of \<open>n\<close> bytes.\<close>

record Entropy =
  draws :: "nat \<Rightarrow> nat \<Rightarrow> go_error + byte list"
  drawn :: nat

definition rand_Read :: "nat \<Rightarrow> Entropy \<Rightarrow> (go_error + byte list) \<times> Entropy" where
  "rand_Read n r = (draws r (drawn r) n, r\<lparr>drawn := Suc (drawn r)\<rparr>)"

section \<open>The encryptor\<close>

record Encryptor =
  aead :: AEAD

definition NewEncryptor :: "'b CryptoLib \<Rightarrow> byte list \<Rightarrow> go_error + Encryptor" where
  "NewEncryptor lib key =
     (if length key \<noteq> 32
      then Inl (Plain (''encryption key must be 32 bytes, got '' @ FormatInt (int (length key))))
      else (case aes_NewCipher lib key of
              Inl err \<Rightarrow> Inl (Plain (''create cipher: '' @ error_text err))
            | Inr block \<Rightarrow>
                (case cipher_NewGCM lib block of
                   Inl err \<Rightarrow> Inl (Plain (''create gcm: '' @ error_text err))
                 | Inr a \<Rightarrow> Inr \<lparr>aead = a\<rparr>)))"

text \<open>The two attempts to read \<open>ENCRYPTION_KEY\<close>.\<close>

definition key_of_text :: "string \<Rightarrow> byte list option" where
  "key_of_text v =
     (case b64_decode v of
        Some key \<Rightarrow>
          if length key = 32 then Some key
          else (case hex_decode v of Some key \<Rightarrow> if length key = 32 then Some key else None | None \<Rightarrow> None)
      | None \<Rightarrow> (case hex_decode v of Some key \<Rightarrow> if length key = 32 then Some key else None | None \<Rightarrow> None))"

definition NewEncryptorFromEnv ::
  "'b CryptoLib \<Rightarrow> environ \<Rightarrow> Entropy \<Rightarrow> (go_error + Encryptor) \<times> Entropy" where
  "NewEncryptorFromEnv lib env r =
     (case (if env ''ENCRYPTION_KEY'' \<noteq> '''' then key_of_text (env ''ENCRYPTION_KEY'') else None) of
        Some key \<Rightarrow> (NewEncryptor lib key, r)
      | None \<Rightarrow>
          if env ''ENCRYPTION_PASSPHRASE'' \<noteq> ''''
          then (NewEncryptor lib (sha256_Sum256 lib (bytes_of (env ''ENCRYPTION_PASSPHRASE''))), r)
          else (case rand_Read 32 r of
                  (Inl err, r) \<Rightarrow> (Inl (Plain (''generate key: '' @ error_text err)), r)
                | (Inr key, r) \<Rightarrow> (NewEncryptor lib key, r)))"

definition Encrypt :: "Encryptor \<Rightarrow> byte list \<Rightarrow> Entropy \<Rightarrow> (go_error + byte list) \<times> Entropy" where
  "Encrypt enc plaintext r =
     (case rand_Read (NonceSize (aead enc)) r of
        (Inl err, r) \<Rightarrow> (Inl (Plain (''generate nonce: '' @ error_text err)), r)
      | (Inr nonce, r) \<Rightarrow> (Inr (nonce @ Seal (aead enc) nonce plaintext), r))"

definition Decrypt :: "Encryptor \<Rightarrow> byte list \<Rightarrow> go_error + byte list" where
  "Decrypt enc blob =
     (let ns = NonceSize (aead enc)
      in if length blob < ns + 1 then Inl (Plain ''ciphertext too short'')
         else Open (aead enc) (take ns blob) (drop ns blob))"

text \<open>\<open>string(pt)\<close>, the inverse of \<open>[]byte(s)\<close>.\<close>

definition string_of :: "byte list \<Rightarrow> string" where
  "string_of bs = map (\<lambda>b. char_of (unat b)) bs"

definition EncryptString :: "Encryptor \<Rightarrow> string \<Rightarrow> Entropy \<Rightarrow> (go_error + string) \<times> Entropy" where
  "EncryptString enc plaintext r =
     (case Encrypt enc (bytes_of plaintext) r of
        (Inl err, r) \<Rightarrow> (Inl err, r)
      | (Inr blob, r) \<Rightarrow> (Inr (b64_encode blob), r))"

text \<open>The text of a decoding error is abbreviated.\<close>

definition DecryptString :: "Encryptor \<Rightarrow> string \<Rightarrow> go_error + string" where
  "DecryptString enc encoded =
     (case b64_decode encoded of
        None \<Rightarrow> Inl (Plain ''decode base64: illegal base64 data'')
      | Some blob \<Rightarrow>
          (case Decrypt enc blob of
             Inl err \<Rightarrow> Inl err
           | Inr pt \<Rightarrow> Inr (string_of pt)))"

section \<open>What is documented of the parameters\<close>

text \<open>
  An AEAD opens what it sealed under the same nonce, and adds a tag; \<open>rand.Read\<close> fills the buffer.
\<close>

definition aead_opens :: "AEAD \<Rightarrow> bool" where
  "aead_opens a \<longleftrightarrow> (\<forall>nonce pt. length nonce = NonceSize a \<longrightarrow>
     Open a nonce (Seal a nonce pt) = Inr pt \<and> Seal a nonce pt \<noteq> [])"

definition fills :: "Entropy \<Rightarrow> bool" where
  "fills r \<longleftrightarrow> (\<forall>k n bs. draws r k n = Inr bs \<longrightarrow> length bs = n)"

section \<open>Round trips\<close>

lemma string_of_bytes_of [simp]: "string_of (bytes_of s) = s"
proof -
  have "char_of (unat (of_nat (of_char c) :: byte)) = c" for c :: char
    by (simp add: unat_of_nat take_bit_eq_mod)
  then show ?thesis by (simp add: string_of_def bytes_of_def comp_def)
qed

lemma Decrypt_Encrypt:
  assumes "aead_opens (aead enc)" and "fills r" and "Encrypt enc pt r = (Inr blob, r')"
  shows "Decrypt enc blob = Inr pt"
proof -
  let ?a = "aead enc"
  obtain nonce where n: "draws r (drawn r) (NonceSize ?a) = Inr nonce" "blob = nonce @ Seal ?a nonce pt"
    using assms(3) by (auto simp: Encrypt_def rand_Read_def split: sum.splits)
  then have l: "length nonce = NonceSize ?a" using assms(2) by (simp add: fills_def)
  then have "Open ?a nonce (Seal ?a nonce pt) = Inr pt" "Seal ?a nonce pt \<noteq> []"
    using assms(1) by (simp_all add: aead_opens_def)
  then show ?thesis
    using l by (simp add: Decrypt_def n(2) Suc_le_eq)
qed

lemma NewEncryptor_length: "NewEncryptor lib key = Inr enc \<Longrightarrow> length key = 32"
  by (auto simp: NewEncryptor_def split: if_splits)

text \<open>Which key the environment selects.\<close>

lemma key_of_text_base64: "length key = 32 \<Longrightarrow> key_of_text (b64_encode key) = Some key"
  by (simp add: key_of_text_def b64_decode_encode)

lemma key_of_text_length: "key_of_text v = Some key \<Longrightarrow> length key = 32"
  by (auto simp: key_of_text_def split: option.splits if_splits)

section \<open>Properties\<close>

text \<open>
  C33. What \<open>EncryptString\<close> returns, \<open>DecryptString\<close> of an encryptor of the same key gives back
  unchanged, for any text and any nonce the random source produced, with an AEAD that opens what it
  seals; a text that is too short to hold a nonce and a ciphertext is refused.
\<close>

theorem encrypt_string_round_trip:
  assumes "aead_opens (aead enc)" and "fills r" and "EncryptString enc s r = (Inr t, r')"
  shows "DecryptString enc t = Inr s \<and>
    (\<forall>u blob. b64_decode u = Some blob \<and> length blob \<le> NonceSize (aead enc) \<longrightarrow>
       DecryptString enc u = Inl (Plain ''ciphertext too short''))"
proof -
  obtain blob where blob: "Encrypt enc (bytes_of s) r = (Inr blob, r')" "t = b64_encode blob"
    using assms(3) by (auto simp: EncryptString_def split: prod.splits sum.splits)
  from Decrypt_Encrypt [OF assms(1,2) blob(1)] show ?thesis
    by (simp add: DecryptString_def blob(2) b64_decode_encode Decrypt_def)
qed

text \<open>A toy AEAD, to have an instance: the key's work is left out, the tag is one byte.\<close>

definition demo_aead :: AEAD where
  "demo_aead = \<lparr>NonceSize = 2, Seal = (\<lambda>nonce pt. pt @ [sum_list nonce]),
     Open = (\<lambda>nonce ct. if ct \<noteq> [] \<and> last ct = sum_list nonce then Inr (butlast ct) else Inl (Plain ''auth''))\<rparr>"

definition demo_entropy :: Entropy where
  "demo_entropy = \<lparr>draws = (\<lambda>k n. Inr (replicate n (of_nat k + 3))), drawn = 0\<rparr>"

theorem encrypt_string_round_trip_witness:
  "\<exists>t. fst (EncryptString \<lparr>aead = demo_aead\<rparr> ''passport'' demo_entropy) = Inr t \<and>
     DecryptString \<lparr>aead = demo_aead\<rparr> t = Inr ''passport''"
proof -
  have a: "aead_opens (aead \<lparr>aead = demo_aead\<rparr>)" "fills demo_entropy"
    by (simp_all add: aead_opens_def demo_aead_def fills_def demo_entropy_def)
  obtain t r' where "EncryptString \<lparr>aead = demo_aead\<rparr> ''passport'' demo_entropy = (Inr t, r')"
    by (simp add: EncryptString_def Encrypt_def rand_Read_def demo_entropy_def)
  with encrypt_string_round_trip [OF a this] show ?thesis by auto
qed

end
