(* ===== verification/Database.thy ===== *)
theory Database
  imports Crypto
begin

text \<open>
  The PostgreSQL schema of \<open>db/migrations\<close> as far as the repositories of
  \<open>internal/db_stores.go\<close> use it, and the SQL statements they send, each a function on the
  tables. The statements are the text of the Go file; what is used of SQL and of the driver \<open>pgx\<close>
  is documented behaviour: \<open>WHERE\<close> keeps the rows that satisfy it, \<open>ORDER BY\<close> sorts, a primary
  key, a unique index and a foreign key refuse a row, \<open>ON DELETE CASCADE\<close> removes the rows that
  refer to a removed one, a \<open>TIMESTAMPTZ\<close> has microseconds, an \<open>INTEGER\<close> has 32 bits and an
  overflow is an error. Rows that compare equal under \<open>ORDER BY\<close> come in the order of the table,
  which is any order.

  What the server does beyond that is a parameter: how it reads the text of a \<open>uuid\<close>, how it
  prints a \<open>jsonb\<close> value, and which statement fails for a reason of its own (a lost connection, a
  time-out, a text it cannot encode).
\<close>

section \<open>Tables\<close>

type_synonym int4 = "32 word"

record AppRow =
  row_id :: string
  row_user_id :: string
  row_vendor :: "string option"
  row_vendor_application_id :: "string option"
  row_state :: string
  row_created_at :: time
  row_updated_at :: time
  row_expires_at :: "time option"
  row_re_kyc_due_at :: "time option"
  row_decided_at :: "time option"
  row_version :: int4

record DocRow =
  drow_id :: string
  drow_application_id :: string
  drow_type :: string
  drow_object_key :: "string option"
  drow_uploaded_at :: time
  drow_retention_until :: time

record LiveRow =
  lrow_id :: string
  lrow_application_id :: string
  lrow_vendor_session_id :: "string option"
  lrow_status :: string
  lrow_started_at :: time
  lrow_completed_at :: "time option"
  lrow_result :: "json option"
  lrow_retention_until :: "time option"

record Tables =
  kyc_applications :: "AppRow list"
  documents :: "DocRow list"
  liveness_sessions :: "LiveRow list"

section \<open>Sending a statement\<close>

text \<open>
  \<open>Refused err\<close>: the statement is not carried out. \<open>AnswerLost n err\<close>: it is carried out, and the
  connection fails when \<open>n\<close> rows of the answer have arrived.
\<close>

datatype Fault = Refused go_error | AnswerLost nat go_error

record Pg =
  pg_uuid :: "string \<Rightarrow> string option"
  pg_jsonb :: "json \<Rightarrow> string"
  pg_fault :: "nat \<Rightarrow> Fault option"

text \<open>The pool: the tables as the other clients see them, and how many statements were sent.\<close>

record 't Pool =
  tables :: 't
  statements :: nat

type_synonym Database = "Tables Pool"

text \<open>\<open>Exec\<close>: the answer is one message.\<close>

definition Exec ::
  "Pg \<Rightarrow> ('t \<Rightarrow> go_error + 'a \<times> 't) \<Rightarrow> 't Pool \<Rightarrow> (go_error + 'a) \<times> 't Pool" where
  "Exec pg stmt db =
     (let f = pg_fault pg (statements db);
          db = db\<lparr>statements := Suc (statements db)\<rparr>
      in case f of
           Some (Refused err) \<Rightarrow> (Inl err, db)
         | _ \<Rightarrow>
             (case stmt (tables db) of
                Inl err \<Rightarrow> (Inl err, db)
              | Inr (x, t) \<Rightarrow>
                  ((case f of Some (AnswerLost n err) \<Rightarrow> Inl err | _ \<Rightarrow> Inr x), db\<lparr>tables := t\<rparr>)))"

text \<open>
  \<open>QueryRow(...).Scan\<close>: the first row, or \<open>pgx.ErrNoRows\<close>.
\<close>

datatype row_error = NoRows | RowError go_error

definition QueryRow ::
  "Pg \<Rightarrow> ('t \<Rightarrow> go_error + 'a option) \<Rightarrow> 't Pool \<Rightarrow> (row_error + 'a) \<times> 't Pool" where
  "QueryRow pg q db =
     (case Exec pg (\<lambda>t. map_sum id (\<lambda>x. (x, t)) (q t)) db of
        (Inl err, db) \<Rightarrow> (Inl (RowError err), db)
      | (Inr None, db) \<Rightarrow> (Inl NoRows, db)
      | (Inr (Some x), db) \<Rightarrow> (Inr x, db))"

text \<open>
  \<open>Query\<close> and the loop over \<open>rows.Next()\<close>: the callers do not look at \<open>rows.Err()\<close>, so a
  connection that fails on the way ends the loop early, and so does an error of the statement.
\<close>

definition Query :: "Pg \<Rightarrow> ('t \<Rightarrow> go_error + 'a list) \<Rightarrow> 't Pool \<Rightarrow> 'a list \<times> 't Pool" where
  "Query pg q db =
     (let f = pg_fault pg (statements db);
          db = db\<lparr>statements := Suc (statements db)\<rparr>
      in (case (f, q (tables db)) of
            (Some (Refused err), _) \<Rightarrow> []
          | (_, Inl err) \<Rightarrow> []
          | (None, Inr rows) \<Rightarrow> rows
          | (Some (AnswerLost n err), Inr rows) \<Rightarrow> take n rows, db))"

text \<open>
  A transaction works on its own view of the tables; the row lock of \<open>FOR UPDATE\<close> keeps other
  writers of the row out until it ends, so the model runs a transaction as one step. \<open>Rollback\<close>
  forgets the view, whatever becomes of the message; \<open>Commit\<close> makes it the tables, unless it is
  refused.
\<close>

definition Begin :: "Pg \<Rightarrow> 't Pool \<Rightarrow> (go_error + unit) \<times> 't Pool" where
  "Begin pg = Exec pg (\<lambda>t. Inr ((), t))"

definition Rollback :: "'t Pool \<Rightarrow> 't Pool \<Rightarrow> 't Pool" where
  "Rollback db tx = tx\<lparr>tables := tables db\<rparr>"

definition Commit :: "Pg \<Rightarrow> 't Pool \<Rightarrow> 't Pool \<Rightarrow> (go_error + unit) \<times> 't Pool" where
  "Commit pg db tx = Exec pg (\<lambda>_. Inr ((), tables tx)) (Rollback db tx)"

section \<open>Values\<close>

definition micros :: "time \<Rightarrow> time" where
  "micros t = t div 1000 * 1000"

definition nullableString :: "string \<Rightarrow> string option" where
  "nullableString s = (if s = '''' then None else Some s)"

definition nullableTime :: "time \<Rightarrow> time option" where
  "nullableTime t = (if IsZero t then None else Some t)"

definition timestamp :: "time option \<Rightarrow> time option" where
  "timestamp = map_option micros"

definition int4_of :: "goint \<Rightarrow> go_error + int4" where
  "int4_of n =
     (if - (2 ^ 31) \<le> sint n \<and> sint n < 2 ^ 31 then Inr (scast n)
      else Inl (Plain (FormatInt (sint n) @ '' is out of range for int4'')))"

definition int_of_int4 :: "int4 \<Rightarrow> goint" where
  "int_of_int4 v = scast v"

definition uuid_param :: "Pg \<Rightarrow> string \<Rightarrow> (string \<Rightarrow> go_error + 'a) \<Rightarrow> go_error + 'a" where
  "uuid_param pg s f =
     (case pg_uuid pg s of
        None \<Rightarrow> Inl (Plain (''invalid input syntax for type uuid: '' @ s))
      | Some u \<Rightarrow> f u)"

text \<open>\<open>ORDER BY key DESC LIMIT 1\<close>.\<close>

fun latest_by :: "('a \<Rightarrow> time) \<Rightarrow> 'a list \<Rightarrow> 'a option" where
  "latest_by key [] = None"
| "latest_by key (r # rs) =
     (case latest_by key rs of
        None \<Rightarrow> Some r
      | Some q \<Rightarrow> if key r < key q then Some q else Some r)"

section \<open>Statements on applications\<close>

text \<open>The partial unique index \<open>idx_kyc_apps_user_active\<close> and the primary key.\<close>

definition row_active :: "AppRow \<Rightarrow> bool" where
  "row_active r \<longleftrightarrow> row_state r \<notin> {''PASS'', ''FAIL''}"

definition active_unique :: "AppRow list \<Rightarrow> bool" where
  "active_unique rows \<longleftrightarrow> distinct (map row_user_id (filter row_active rows))"

definition unique_violation :: "string \<Rightarrow> go_error" where
  "unique_violation idx = Plain (''duplicate key value violates unique constraint '' @ idx)"

definition sql_app_by_id :: "Pg \<Rightarrow> string \<Rightarrow> Tables \<Rightarrow> go_error + AppRow option" where
  "sql_app_by_id pg i t =
     uuid_param pg i (\<lambda>u. Inr (find (\<lambda>r. row_id r = u) (kyc_applications t)))"

definition sql_app_by_user :: "string \<Rightarrow> Tables \<Rightarrow> go_error + AppRow option" where
  "sql_app_by_user user t =
     Inr (latest_by row_created_at (filter (\<lambda>r. row_user_id r = user) (kyc_applications t)))"

definition sql_insert_app :: "AppRow \<Rightarrow> Tables \<Rightarrow> go_error + unit \<times> Tables" where
  "sql_insert_app r t =
     (if row_id r \<in> row_id ` set (kyc_applications t) then Inl (unique_violation ''kyc_applications_pkey'')
      else if \<not> active_unique (kyc_applications t @ [r])
      then Inl (unique_violation ''idx_kyc_apps_user_active'')
      else Inr ((), t\<lparr>kyc_applications := kyc_applications t @ [r]\<rparr>))"

definition sql_delete_app :: "string \<Rightarrow> Tables \<Rightarrow> Tables" where
  "sql_delete_app u t =
     t\<lparr>kyc_applications := filter (\<lambda>r. row_id r \<noteq> u) (kyc_applications t),
       documents := filter (\<lambda>d. drow_application_id d \<noteq> u) (documents t),
       liveness_sessions := filter (\<lambda>l. lrow_application_id l \<noteq> u) (liveness_sessions t)\<rparr>"

text \<open>An \<open>UPDATE\<close> of the rows that satisfy \<open>p\<close>.\<close>

definition sql_update_apps ::
  "(AppRow \<Rightarrow> bool) \<Rightarrow> (AppRow \<Rightarrow> AppRow) \<Rightarrow> Tables \<Rightarrow> go_error + unit \<times> Tables" where
  "sql_update_apps p f t =
     (let rows = map (\<lambda>r. if p r then f r else r) (kyc_applications t)
      in if active_unique rows then Inr ((), t\<lparr>kyc_applications := rows\<rparr>)
         else Inl (unique_violation ''idx_kyc_apps_user_active''))"

section \<open>Statements on evidence\<close>

definition has_app :: "string \<Rightarrow> Tables \<Rightarrow> bool" where
  "has_app u t \<longleftrightarrow> u \<in> row_id ` set (kyc_applications t)"

definition foreign_key_violation :: go_error where
  "foreign_key_violation = Plain ''insert or update violates foreign key constraint''"

definition sql_insert_doc :: "DocRow \<Rightarrow> Tables \<Rightarrow> go_error + unit \<times> Tables" where
  "sql_insert_doc d t =
     (if drow_id d \<in> drow_id ` set (documents t) then Inl (unique_violation ''documents_pkey'')
      else if \<not> has_app (drow_application_id d) t then Inl foreign_key_violation
      else Inr ((), t\<lparr>documents := documents t @ [d]\<rparr>))"

definition sql_docs :: "Pg \<Rightarrow> string \<Rightarrow> Tables \<Rightarrow> go_error + DocRow list" where
  "sql_docs pg i t =
     uuid_param pg i (\<lambda>u.
       Inr (sort_key drow_uploaded_at (filter (\<lambda>d. drow_application_id d = u) (documents t))))"

definition sql_doc_exists :: "Pg \<Rightarrow> string \<Rightarrow> string \<Rightarrow> Tables \<Rightarrow> go_error + bool option" where
  "sql_doc_exists pg i ty t =
     uuid_param pg i (\<lambda>u.
       Inr (Some (\<exists>d \<in> set (documents t). drow_application_id d = u \<and> drow_type d = ty)))"

definition sql_sweep_docs :: "time \<Rightarrow> Tables \<Rightarrow> go_error + nat \<times> Tables" where
  "sql_sweep_docs now t =
     Inr (length (filter (\<lambda>d. drow_retention_until d \<le> micros now) (documents t)),
       t\<lparr>documents := filter (\<lambda>d. \<not> drow_retention_until d \<le> micros now) (documents t)\<rparr>)"

definition sql_insert_live :: "LiveRow \<Rightarrow> Tables \<Rightarrow> go_error + unit \<times> Tables" where
  "sql_insert_live l t =
     (if lrow_id l \<in> lrow_id ` set (liveness_sessions t) then Inl (unique_violation ''liveness_sessions_pkey'')
      else if \<not> has_app (lrow_application_id l) t then Inl foreign_key_violation
      else Inr ((), t\<lparr>liveness_sessions := liveness_sessions t @ [l]\<rparr>))"

definition sql_latest_live :: "Pg \<Rightarrow> string \<Rightarrow> Tables \<Rightarrow> go_error + LiveRow option" where
  "sql_latest_live pg i t =
     uuid_param pg i (\<lambda>u.
       Inr (latest_by lrow_started_at (filter (\<lambda>l. lrow_application_id l = u) (liveness_sessions t))))"

definition due_by :: "time \<Rightarrow> time option \<Rightarrow> bool" where
  "due_by now t \<longleftrightarrow> (case t of None \<Rightarrow> False | Some t \<Rightarrow> t \<le> micros now)"

definition sql_sweep_live :: "time \<Rightarrow> Tables \<Rightarrow> go_error + nat \<times> Tables" where
  "sql_sweep_live now t =
     Inr (length (filter (\<lambda>l. due_by now (lrow_retention_until l)) (liveness_sessions t)),
       t\<lparr>liveness_sessions :=
           filter (\<lambda>l. \<not> due_by now (lrow_retention_until l)) (liveness_sessions t)\<rparr>)"

end
