(* ===== verification/DBStores.thy ===== *)
theory DBStores
  imports Database
begin

text \<open>
  \<open>internal/db_stores.go\<close>: the repositories over PostgreSQL, statement by statement. They have the
  methods of the in-memory ones; a read also sends statements, so every method returns the pool.
  The methods whose interface has no error drop the one they get.
\<close>

section \<open>Rows\<close>

definition errNoRows :: "row_error \<Rightarrow> go_error" where
  "errNoRows err =
     (case err of
        NoRows \<Rightarrow> Errorf ErrNotFound ''no rows in result set''
      | RowError err \<Rightarrow> err)"

definition text_of :: "string option \<Rightarrow> string" where
  "text_of v = (case v of None \<Rightarrow> '''' | Some s \<Rightarrow> s)"

definition time_of :: "time option \<Rightarrow> time" where
  "time_of v = (case v of None \<Rightarrow> 0 | Some t \<Rightarrow> t)"

definition scanRow :: "AppRow \<Rightarrow> Application" where
  "scanRow r =
     \<lparr>app_ID = row_id r, app_UserID = row_user_id r, app_Vendor = text_of (row_vendor r),
      app_VendorApplicantID = text_of (row_vendor_application_id r), app_State = row_state r,
      app_CreatedAt = row_created_at r, app_UpdatedAt = row_updated_at r,
      app_ExpiresAt = time_of (row_expires_at r), app_ReKYCDueAt = time_of (row_re_kyc_due_at r),
      app_DecidedAt = time_of (row_decided_at r), app_Version = int_of_int4 (row_version r)\<rparr>"

definition scanApp :: "row_error + AppRow \<Rightarrow> go_error + Application" where
  "scanApp row = (case row of Inl err \<Rightarrow> Inl (errNoRows err) | Inr r \<Rightarrow> Inr (scanRow r))"

section \<open>Applications\<close>

text \<open>
  A \<open>DBApplicationRepo\<close> is its pool, which the methods pass along, and its sink; the constructor
  replaces a missing sink.
\<close>

definition NewDBApplicationRepo :: "'e EventSink option \<Rightarrow> 'e EventSink" where
  "NewDBApplicationRepo sink = (case sink of None \<Rightarrow> noopEventSink | Some s \<Rightarrow> s)"

text \<open>The row that the \<open>INSERT\<close> of \<open>Create\<close> makes, once the identifier and the version are encoded.\<close>

definition insert_row :: "string \<Rightarrow> int4 \<Rightarrow> Application \<Rightarrow> AppRow" where
  "insert_row u v app =
     \<lparr>row_id = u, row_user_id = app_UserID app, row_vendor = nullableString (app_Vendor app),
      row_vendor_application_id = nullableString (app_VendorApplicantID app),
      row_state = app_State app, row_created_at = micros (app_CreatedAt app),
      row_updated_at = micros (app_UpdatedAt app),
      row_expires_at = timestamp (nullableTime (app_ExpiresAt app)),
      row_re_kyc_due_at = timestamp (nullableTime (app_ReKYCDueAt app)),
      row_decided_at = timestamp (nullableTime (app_DecidedAt app)), row_version = v\<rparr>"

definition sql_create :: "Pg \<Rightarrow> Application \<Rightarrow> Tables \<Rightarrow> go_error + unit \<times> Tables" where
  "sql_create pg app t =
     (case int4_of (app_Version app) of
        Inl err \<Rightarrow> Inl err
      | Inr v \<Rightarrow> uuid_param pg (app_ID app) (\<lambda>u. sql_insert_app (insert_row u v app) t))"

text \<open>The look-up of the user's latest application, and its removal when it is decided.\<close>

definition db_Create_admit :: "Pg \<Rightarrow> Application \<Rightarrow> Database \<Rightarrow> go_error option \<times> Database" where
  "db_Create_admit pg app db =
     (case QueryRow pg (sql_app_by_user (app_UserID app)) db of
        (Inr r, db) \<Rightarrow>
          if \<not> IsTerminal (row_state r)
          then (Some (Errorf ErrDuplicate
                  (''active application already exists for user '' @ app_UserID app)), db)
          else (case Exec pg (\<lambda>t. uuid_param pg (row_id r) (\<lambda>u. Inr ((), sql_delete_app u t))) db of
                  (Inl derr, db) \<Rightarrow> (Some (Plain (''delete terminal app: '' @ error_text derr)), db)
                | (Inr _, db) \<Rightarrow> (None, db))
      | (Inl NoRows, db) \<Rightarrow> (None, db)
      | (Inl (RowError err), db) \<Rightarrow> (Some err, db))"

definition db_Create ::
  "Pg \<Rightarrow> Application \<Rightarrow> Database \<times> 'e World_scheme \<Rightarrow>
     (go_error option \<times> Application) \<times> Database \<times> 'e World_scheme" where
  "db_Create pg app =
     (\<lambda>(db, e).
       if app_UserID app = ''''
       then ((Some (Errorf ErrInvalidArgument ''user_id is required''), app), db, e)
       else if app_ID app = ''''
       then ((Some (Errorf ErrInvalidArgument ''id is required''), app), db, e)
       else
         (let (t, e) = time_Now e;
              app = Create_fill t app
          in case db_Create_admit pg app db of
               (Some err, db) \<Rightarrow> ((Some err, app), db, e)
             | (None, db) \<Rightarrow>
                 (case Exec pg (sql_create pg app) db of
                    (Inl err, db) \<Rightarrow> ((Some (Errorf ErrDuplicate (error_text err)), app), db, e)
                  | (Inr _, db) \<Rightarrow> ((None, app), db, e))))"

definition db_Get :: "Pg \<Rightarrow> string \<Rightarrow> Database \<Rightarrow> (go_error + Application) \<times> Database" where
  "db_Get pg appID db = (case QueryRow pg (sql_app_by_id pg appID) db of (row, db) \<Rightarrow> (scanApp row, db))"

definition db_GetByUserID :: "Pg \<Rightarrow> string \<Rightarrow> Database \<Rightarrow> (go_error + Application) \<times> Database" where
  "db_GetByUserID pg userID db =
     (case QueryRow pg (sql_app_by_user userID) db of (row, db) \<Rightarrow> (scanApp row, db))"

text \<open>The \<open>UPDATE\<close> of \<open>UpdateState\<close>; the two dates are \<open>nil\<close> unless the new state is terminal.\<close>

definition sql_update_state ::
  "Pg \<Rightarrow> string \<Rightarrow> State \<Rightarrow> time \<Rightarrow> goint \<Rightarrow> time option \<Rightarrow> time option \<Rightarrow> goint \<Rightarrow>
     Tables \<Rightarrow> go_error + unit \<times> Tables" where
  "sql_update_state pg appID newState now newVersion decidedAt reKYCDueAt version t =
     (case (int4_of newVersion, int4_of version) of
        (Inl err, _) \<Rightarrow> Inl err
      | (_, Inl err) \<Rightarrow> Inl err
      | (Inr v', Inr v) \<Rightarrow>
          uuid_param pg appID (\<lambda>u.
            sql_update_apps (\<lambda>r. row_id r = u \<and> row_version r = v)
              (\<lambda>r. r\<lparr>row_state := newState, row_updated_at := micros now, row_version := v',
                     row_decided_at :=
                       (case timestamp decidedAt of None \<Rightarrow> row_decided_at r | Some d \<Rightarrow> Some d),
                     row_re_kyc_due_at :=
                       (case timestamp reKYCDueAt of None \<Rightarrow> row_re_kyc_due_at r | Some d \<Rightarrow> Some d)\<rparr>) t))"

definition sql_reopen ::
  "Pg \<Rightarrow> string \<Rightarrow> time \<Rightarrow> goint \<Rightarrow> goint \<Rightarrow> Tables \<Rightarrow> go_error + unit \<times> Tables" where
  "sql_reopen pg appID now newVersion version t =
     (case (int4_of newVersion, int4_of version) of
        (Inl err, _) \<Rightarrow> Inl err
      | (_, Inl err) \<Rightarrow> Inl err
      | (Inr v', Inr v) \<Rightarrow>
          uuid_param pg appID (\<lambda>u.
            sql_update_apps (\<lambda>r. row_id r = u \<and> row_version r = v)
              (\<lambda>r. r\<lparr>row_state := StateStarted, row_updated_at := micros now, row_version := v',
                     row_decided_at := None, row_re_kyc_due_at := None\<rparr>) t))"

text \<open>
  The two transactions begin and end alike: \<open>begin_locked\<close> opens one and reads the row under its
  lock, giving the application, the pool and the transaction's view; \<open>write_and_commit\<close> sends the
  update and commits. Every early return rolls back.
\<close>

definition begin_locked ::
  "Pg \<Rightarrow> string \<Rightarrow> Database \<Rightarrow> go_error \<times> Database + Application \<times> Database \<times> Database" where
  "begin_locked pg appID db =
     (case Begin pg db of
        (Inl err, db) \<Rightarrow> Inl (err, db)
      | (Inr _, db) \<Rightarrow>
          (case QueryRow pg (sql_app_by_id pg appID) db of
             (Inl err, tx) \<Rightarrow> Inl (errNoRows err, Rollback db tx)
           | (Inr r, tx) \<Rightarrow> Inr (scanRow r, db, tx)))"

definition write_and_commit ::
  "Pg \<Rightarrow> (Tables \<Rightarrow> go_error + unit \<times> Tables) \<Rightarrow> Database \<Rightarrow> Database \<Rightarrow> go_error option \<times> Database" where
  "write_and_commit pg update db tx =
     (case Exec pg update tx of
        (Inl err, tx) \<Rightarrow> (Some err, Rollback db tx)
      | (Inr _, tx) \<Rightarrow>
          (case Commit pg db tx of
             (Inl err, db) \<Rightarrow> (Some err, db)
           | (Inr _, db) \<Rightarrow> (None, db)))"

definition db_UpdateState ::
  "Pg \<Rightarrow> 'e World_scheme EventSink \<Rightarrow> string \<Rightarrow> goint \<Rightarrow> State \<Rightarrow> string \<Rightarrow> string \<Rightarrow>
     Database \<times> 'e World_scheme \<Rightarrow> (go_error + Application) \<times> Database \<times> 'e World_scheme" where
  "db_UpdateState pg sink appID version newState actor reason =
     (\<lambda>(db, e).
       case begin_locked pg appID db of
         Inl (err, db) \<Rightarrow> (Inl err, db, e)
       | Inr (app, db, tx) \<Rightarrow>
           if app_Version app \<noteq> version
           then (Inl (Errorf ErrConflict
                  (''application '' @ appID @ '' version mismatch (have '' @
                   FormatInt (sint (app_Version app)) @ '' want '' @ FormatInt (sint version) @ '')'')),
                 Rollback db tx, e)
           else (case ValidateTransition (app_State app) newState of
                   Some err \<Rightarrow> (Inl err, Rollback db tx, e)
                 | None \<Rightarrow>
                     (let from = app_State app;
                          (now, e) = time_Now e;
                          app = transition_app now newState app;
                          decidedAt = (if IsTerminal newState then Some now else None);
                          reKYCDueAt = (if IsTerminal newState then Some (app_ReKYCDueAt app) else None)
                      in case write_and_commit pg
                                (sql_update_state pg appID newState now (app_Version app) decidedAt
                                   reKYCDueAt version) db tx of
                           (Some err, db) \<Rightarrow> (Inl err, db, e)
                         | (None, db) \<Rightarrow> (Inr app, db, sink appID from newState actor reason e))))"

definition db_Reopen ::
  "Pg \<Rightarrow> 'e World_scheme EventSink \<Rightarrow> string \<Rightarrow> goint \<Rightarrow> string \<Rightarrow>
     Database \<times> 'e World_scheme \<Rightarrow> (go_error + Application) \<times> Database \<times> 'e World_scheme" where
  "db_Reopen pg sink appID version actor =
     (\<lambda>(db, e).
       case begin_locked pg appID db of
         Inl (err, db) \<Rightarrow> (Inl err, db, e)
       | Inr (app, db, tx) \<Rightarrow>
           if app_Version app \<noteq> version
           then (Inl (Errorf ErrConflict (''application '' @ appID @ '' version mismatch'')),
                 Rollback db tx, e)
           else if \<not> IsTerminal (app_State app)
           then (Inl (Bare ErrReKYCNotTerminal), Rollback db tx, e)
           else
             (let from = app_State app;
                  (now, e) = time_Now e;
                  app = reopen_app now app
              in case write_and_commit pg
                        (sql_reopen pg appID now (app_Version app) version) db tx of
                   (Some err, db) \<Rightarrow> (Inl err, db, e)
                 | (None, db) \<Rightarrow> (Inr app, db, sink appID from StateStarted actor ''re-kyc'' e)))"

definition sql_due :: "time \<Rightarrow> Tables \<Rightarrow> go_error + AppRow list" where
  "sql_due now t =
     Inr (filter (\<lambda>r. due_by now (row_re_kyc_due_at r) \<and> row_state r \<in> {''PASS'', ''FAIL''})
            (kyc_applications t))"

definition db_ListDueForReKYC :: "Pg \<Rightarrow> time \<Rightarrow> Database \<Rightarrow> ReKYCDue list \<times> Database" where
  "db_ListDueForReKYC pg now db =
     (case Query pg (sql_due now) db of
        (rows, db) \<Rightarrow>
          (map (\<lambda>r. \<lparr>due_ID = row_id r, due_Version = int_of_int4 (row_version r)\<rparr>) rows, db))"

text \<open>\<open>version=version+1\<close> is computed by the server, whose addition overflows with an error.\<close>

definition sql_set_vendor :: "Pg \<Rightarrow> string \<Rightarrow> string \<Rightarrow> time \<Rightarrow> Tables \<Rightarrow> go_error + unit \<times> Tables" where
  "sql_set_vendor pg appID vendorID now t =
     uuid_param pg appID (\<lambda>u.
       if \<exists>r \<in> set (kyc_applications t). row_id r = u \<and> sint (row_version r) = 2 ^ 31 - 1
       then Inl (Plain ''integer out of range'')
       else sql_update_apps (\<lambda>r. row_id r = u)
              (\<lambda>r. r\<lparr>row_vendor_application_id := Some vendorID, row_version := row_version r + 1,
                     row_updated_at := micros now\<rparr>) t)"

definition db_SetVendorApplicantID ::
  "Pg \<Rightarrow> string \<Rightarrow> string \<Rightarrow> Database \<times> 'e World_scheme \<Rightarrow> Database \<times> 'e World_scheme" where
  "db_SetVendorApplicantID pg appID vendorID =
     (\<lambda>(db, e).
       let (now, e) = time_Now e
       in (snd (Exec pg (sql_set_vendor pg appID vendorID now) db), e))"

section \<open>Documents\<close>

definition doc_row :: "string \<Rightarrow> string \<Rightarrow> Document \<Rightarrow> DocRow" where
  "doc_row u a doc =
     \<lparr>drow_id = u, drow_application_id = a, drow_type = doc_Type doc,
      drow_object_key = Some (b64_encode (doc_Content doc)),
      drow_uploaded_at = micros (doc_UploadedAt doc),
      drow_retention_until = micros (doc_RetentionUntil doc)\<rparr>"

definition sql_add_doc :: "Pg \<Rightarrow> string \<Rightarrow> Document \<Rightarrow> Tables \<Rightarrow> go_error + unit \<times> Tables" where
  "sql_add_doc pg appID doc t =
     uuid_param pg (doc_ID doc) (\<lambda>u. uuid_param pg appID (\<lambda>a. sql_insert_doc (doc_row u a doc) t))"

definition dbdoc_Add :: "Pg \<Rightarrow> string \<Rightarrow> Document \<Rightarrow> Database \<Rightarrow> Database" where
  "dbdoc_Add pg appID doc db = snd (Exec pg (sql_add_doc pg appID doc) db)"

text \<open>The scan of one row; a content that is not base64 stays \<open>nil\<close>.\<close>

definition scanDoc :: "DocRow \<Rightarrow> Document" where
  "scanDoc d =
     \<lparr>doc_ID = drow_id d, doc_ApplicationID = drow_application_id d, doc_Type = drow_type d,
      doc_Content =
        (case drow_object_key d of
           None \<Rightarrow> []
         | Some objKey \<Rightarrow> (case b64_decode objKey of None \<Rightarrow> [] | Some b \<Rightarrow> b)),
      doc_UploadedAt = drow_uploaded_at d, doc_RetentionUntil = drow_retention_until d\<rparr>"

definition dbdoc_List :: "Pg \<Rightarrow> string \<Rightarrow> Database \<Rightarrow> Document list \<times> Database" where
  "dbdoc_List pg appID db =
     (case Query pg (sql_docs pg appID) db of (rows, db) \<Rightarrow> (map scanDoc rows, db))"

fun has_types :: "Pg \<Rightarrow> string \<Rightarrow> string list \<Rightarrow> Database \<Rightarrow> bool \<times> Database" where
  "has_types pg appID [] db = (True, db)"
| "has_types pg appID (ty # types) db =
     (case QueryRow pg (sql_doc_exists pg appID ty) db of
        (Inl err, db) \<Rightarrow> (False, db)
      | (Inr ex, db) \<Rightarrow> if \<not> ex then (False, db) else has_types pg appID types db)"

definition dbdoc_HasRequiredDocs :: "Pg \<Rightarrow> string \<Rightarrow> Database \<Rightarrow> bool \<times> Database" where
  "dbdoc_HasRequiredDocs pg appID = has_types pg appID [''ID_FRONT'', ''SELFIE'']"

definition dbdoc_SweepExpired :: "Pg \<Rightarrow> time \<Rightarrow> Database \<Rightarrow> nat \<times> Database" where
  "dbdoc_SweepExpired pg now db =
     (case Exec pg (sql_sweep_docs now) db of
        (Inl err, db) \<Rightarrow> (0, db)
      | (Inr n, db) \<Rightarrow> (n, db))"

section \<open>Liveness sessions\<close>

text \<open>\<open>json.Marshal\<close> of a string, stored as \<open>jsonb\<close>, is the JSON string.\<close>

definition live_row :: "string \<Rightarrow> string \<Rightarrow> LivenessSession \<Rightarrow> LiveRow" where
  "live_row u a s =
     \<lparr>lrow_id = u, lrow_application_id = a,
      lrow_vendor_session_id = nullableString (ls_VendorSessionID s), lrow_status = ls_Status s,
      lrow_started_at = micros (ls_StartedAt s),
      lrow_completed_at = timestamp (nullableTime (ls_CompletedAt s)),
      lrow_result = Some (JString (ls_Result s)),
      lrow_retention_until = timestamp (nullableTime (ls_RetentionUntil s))\<rparr>"

definition sql_add_live :: "Pg \<Rightarrow> string \<Rightarrow> LivenessSession \<Rightarrow> Tables \<Rightarrow> go_error + unit \<times> Tables" where
  "sql_add_live pg appID s t =
     uuid_param pg (ls_ID s) (\<lambda>u. uuid_param pg appID (\<lambda>a. sql_insert_live (live_row u a s) t))"

definition dblive_Add :: "Pg \<Rightarrow> string \<Rightarrow> LivenessSession \<Rightarrow> Database \<Rightarrow> Database" where
  "dblive_Add pg appID s db = snd (Exec pg (sql_add_live pg appID s) db)"

text \<open>
  \<open>Unmarshal\<close> into the string field: a JSON string is its text, \<open>null\<close> changes nothing, and
  everything else is an error, after which the raw text is kept.
\<close>

definition result_text :: "Pg \<Rightarrow> json option \<Rightarrow> string" where
  "result_text pg v =
     (case v of
        None \<Rightarrow> ''''
      | Some (JString s) \<Rightarrow> s
      | Some JNull \<Rightarrow> ''''
      | Some j \<Rightarrow> pg_jsonb pg j)"

definition scanLive :: "Pg \<Rightarrow> LiveRow \<Rightarrow> LivenessSession" where
  "scanLive pg l =
     \<lparr>ls_ID = lrow_id l, ls_ApplicationID = lrow_application_id l,
      ls_VendorSessionID = text_of (lrow_vendor_session_id l), ls_Status = lrow_status l,
      ls_StartedAt = lrow_started_at l, ls_CompletedAt = time_of (lrow_completed_at l),
      ls_Result = result_text pg (lrow_result l), ls_RetentionUntil = time_of (lrow_retention_until l)\<rparr>"

definition dblive_Latest :: "Pg \<Rightarrow> string \<Rightarrow> Database \<Rightarrow> LivenessSession option \<times> Database" where
  "dblive_Latest pg appID db =
     (case QueryRow pg (sql_latest_live pg appID) db of
        (Inl err, db) \<Rightarrow> (None, db)
      | (Inr l, db) \<Rightarrow> (Some (scanLive pg l), db))"

definition dblive_SweepExpired :: "Pg \<Rightarrow> time \<Rightarrow> Database \<Rightarrow> nat \<times> Database" where
  "dblive_SweepExpired pg now db =
     (case Exec pg (sql_sweep_live now) db of
        (Inl err, db) \<Rightarrow> (0, db)
      | (Inr n, db) \<Rightarrow> (n, db))"

section \<open>The interfaces\<close>

text \<open>
  \<open>internal/stores.go\<close> asserts that the three are repositories. They share the pool; the statements
  range over no map, so the order that the in-memory stores take is not looked at.
\<close>

definition on_pool :: "(Database \<Rightarrow> 'a \<times> Database) \<Rightarrow> Database \<times> 'e \<Rightarrow> 'a \<times> Database \<times> 'e" where
  "on_pool f s = (case s of (db, e) \<Rightarrow> (case f db of (x, db) \<Rightarrow> (x, db, e)))"

definition db_repo :: "Pg \<Rightarrow> 'e World_scheme EventSink \<Rightarrow> (Database, 'e World_scheme) ApplicationRepo" where
  "db_repo pg sink =
     \<lparr>repo_Create = db_Create pg,
      repo_Get = (\<lambda>appID. on_pool (db_Get pg appID)),
      repo_GetByUserID = (\<lambda>userID. on_pool (db_GetByUserID pg userID)),
      repo_UpdateState = db_UpdateState pg sink,
      repo_Reopen = db_Reopen pg sink,
      repo_ListDueForReKYC = (\<lambda>order now. on_pool (db_ListDueForReKYC pg now)),
      repo_SetVendorApplicantID = db_SetVendorApplicantID pg\<rparr>"

definition db_docs :: "Pg \<Rightarrow> Database DocumentRepo" where
  "db_docs pg =
     \<lparr>docs_Add = dbdoc_Add pg, docs_List = dbdoc_List pg, docs_HasRequiredDocs = dbdoc_HasRequiredDocs pg,
      docs_SweepExpired = (\<lambda>order. dbdoc_SweepExpired pg)\<rparr>"

definition db_live :: "Pg \<Rightarrow> Database LivenessRepo" where
  "db_live pg =
     \<lparr>lives_Add = dblive_Add pg, lives_Latest = dblive_Latest pg,
      lives_SweepExpired = (\<lambda>order. dblive_SweepExpired pg)\<rparr>"

end
