(* ===== verification/DBFacts.thy ===== *)
theory DBFacts
  imports DBStores
begin

text \<open>
  Facts about the statements of \<open>DBStores\<close> that the theories after it share: look-ups in lists of
  rows, statements with and without faults, versions and instants as the columns hold them.
\<close>

section \<open>Finding rows\<close>

lemma find_Some_in: "find p xs = Some x \<Longrightarrow> x \<in> set xs \<and> p x"
  by (induction xs) (auto split: if_splits)

lemma find_key:
  "distinct (map key xs) \<Longrightarrow> find (\<lambda>x. key x = k) xs = Some x \<longleftrightarrow> x \<in> set xs \<and> key x = k"
  by (induction xs) auto

lemma find_None_key: "find (\<lambda>x. key x = k) xs = None \<longleftrightarrow> k \<notin> key ` set xs"
  by (induction xs) auto

lemma find_append: "find p (xs @ ys) = (case find p xs of None \<Rightarrow> find p ys | Some x \<Rightarrow> Some x)"
  by (induction xs) auto

lemma find_map_key:
  "(\<And>x. key (f x) = key x) \<Longrightarrow>
     find (\<lambda>x. key x = k) (map f xs) = map_option f (find (\<lambda>x. key x = k) xs)"
  by (induction xs) auto

lemma find_filter_key:
  "find (\<lambda>x. key x = k) (filter (\<lambda>x. key x \<noteq> u) xs) =
     (if k = u then None else find (\<lambda>x. key x = k) xs)"
  by (induction xs) auto

lemma latest_by_in: "latest_by key xs = Some x \<Longrightarrow> x \<in> set xs"
  by (induction xs arbitrary: x) (auto split: option.splits if_splits)

lemma latest_by_None [simp]: "latest_by key xs = None \<longleftrightarrow> xs = []"
  by (cases xs) (auto split: option.splits)

text \<open>With one row to choose from, the order does not matter.\<close>

lemma latest_by_only:
  assumes "\<And>y. y \<in> set xs \<Longrightarrow> y = x" and "xs \<noteq> []"
  shows "latest_by key xs = Some x"
  using assms latest_by_in [of key xs] by (cases "latest_by key xs") auto

section \<open>Statements with and without faults\<close>

lemma Exec_tables:
  assumes "Exec pg stmt db = (res, db')"
  shows "(tables db' = tables db \<and> (\<exists>err. res = Inl err)) \<or>
    (\<exists>x. stmt (tables db) = Inr (x, tables db') \<and> (res = Inr x \<or> (\<exists>err. res = Inl err)))"
  using assms by (auto simp: Exec_def Let_def split: option.splits Fault.splits sum.splits prod.splits)

lemma Exec_Inr: "Exec pg stmt db = (Inr x, db') \<Longrightarrow> stmt (tables db) = Inr (x, tables db')"
  by (auto simp: Exec_def Let_def split: option.splits Fault.splits sum.splits prod.splits)

lemma QueryRow_tables: "QueryRow pg q db = (res, db') \<Longrightarrow> tables db' = tables db"
  by (cases "q (tables db)") (auto simp: QueryRow_def Exec_def Let_def split: option.splits Fault.splits sum.splits prod.splits)

lemma QueryRow_Inr: "QueryRow pg q db = (Inr x, db') \<Longrightarrow> q (tables db) = Inr (Some x)"
  by (cases "q (tables db)")
     (auto simp: QueryRow_def Exec_def Let_def split: option.splits Fault.splits sum.splits prod.splits)

lemma Begin_tables: "Begin pg db = (res, db') \<Longrightarrow> tables db' = tables db"
  by (auto simp: Begin_def Exec_def Let_def split: option.splits Fault.splits)

lemma Rollback_tables [simp]: "tables (Rollback db tx) = tables db"
  by (simp add: Rollback_def)

lemma Commit_tables:
  "Commit pg db tx = (res, db') \<Longrightarrow>
     (case res of Inl err \<Rightarrow> tables db' = tables db \<or> tables db' = tables tx
                | Inr _ \<Rightarrow> tables db' = tables tx)"
  by (auto simp: Commit_def Exec_def Let_def split: option.splits Fault.splits)

lemma Exec_statements: "Exec pg stmt db = (res, db') \<Longrightarrow> statements db' = Suc (statements db)"
  by (auto simp: Exec_def Let_def split: option.splits Fault.splits sum.splits prod.splits)

lemma QueryRow_statements: "QueryRow pg q db = (res, db') \<Longrightarrow> statements db' = Suc (statements db)"
  by (auto simp: QueryRow_def split: prod.splits sum.splits option.splits dest: Exec_statements)

text \<open>The one way in which a commit that reports an error can have happened.\<close>

lemma Commit_lost:
  "Commit pg db tx = (Inl err, db') \<Longrightarrow>
     tables db' = tables db \<or>
     tables db' = tables tx \<and> (\<exists>k. pg_fault pg (statements tx) = Some (AnswerLost k err))"
  by (auto simp: Commit_def Exec_def Let_def Rollback_def split: option.splits Fault.splits)

text \<open>A connection without a fault from here on.\<close>

definition calm :: "Pg \<Rightarrow> 't Pool \<Rightarrow> bool" where
  "calm pg db \<longleftrightarrow> (\<forall>k \<ge> statements db. pg_fault pg k = None)"

definition bump :: "nat \<Rightarrow> 't Pool \<Rightarrow> 't Pool" where
  "bump n db = db\<lparr>statements := statements db + n\<rparr>"

lemma bump_simps [simp]:
  "tables (bump n db) = tables db" "statements (bump n db) = statements db + n"
  "bump m (bump n db) = bump (n + m) db"
  "bump m (db\<lparr>tables := t\<rparr>) = (bump m db)\<lparr>tables := t\<rparr>"
  "(bump m db)\<lparr>tables := tables db\<rparr> = bump m db"
  by (simp_all add: bump_def)

lemma calm_bump [simp]: "calm pg db \<Longrightarrow> calm pg (bump n db)"
  by (simp add: calm_def)

lemma calm_tables [simp]: "calm pg (db\<lparr>tables := t\<rparr>) = calm pg db"
  by (simp add: calm_def)

lemma Exec_calm:
  "calm pg db \<Longrightarrow> Exec pg stmt db =
     (case stmt (tables db) of
        Inl err \<Rightarrow> (Inl err, bump 1 db)
      | Inr (x, t) \<Rightarrow> (Inr x, (bump 1 db)\<lparr>tables := t\<rparr>))"
  by (auto simp: Exec_def calm_def bump_def Let_def split: sum.splits)

lemma QueryRow_calm:
  "calm pg db \<Longrightarrow> QueryRow pg q db =
     (case q (tables db) of
        Inl err \<Rightarrow> Inl (RowError err)
      | Inr None \<Rightarrow> Inl NoRows
      | Inr (Some x) \<Rightarrow> Inr x, bump 1 db)"
  by (cases "q (tables db)") (auto simp: QueryRow_def Exec_calm bump_def split: option.splits)

lemma Query_calm:
  "calm pg db \<Longrightarrow> Query pg q db =
     (case q (tables db) of Inl err \<Rightarrow> [] | Inr rows \<Rightarrow> rows, bump 1 db)"
  by (simp add: Query_def calm_def bump_def Let_def split: sum.splits)

lemma Query_tables: "tables (snd (Query pg q db)) = tables db"
  by (simp add: Query_def Let_def)

lemma Begin_calm: "calm pg db \<Longrightarrow> Begin pg db = (Inr (), bump 1 db)"
  by (simp add: Begin_def Exec_calm)

lemma Commit_calm:
  "calm pg tx \<Longrightarrow> Commit pg db tx = (Inr (), bump 1 tx)"
  by (simp add: Commit_def Exec_calm Rollback_def)

section \<open>Numbers and times\<close>

lemma micros_idem [simp]: "micros (micros t) = micros t"
  by (simp add: micros_def)

lemma micros_0 [simp]: "micros 0 = 0"
  by (simp add: micros_def)

lemma micros_le_iff: "micros t \<le> micros u \<longleftrightarrow> t \<le> micros u + 999"
proof -
  have "t = t div 1000 * 1000 + t mod 1000" "0 \<le> t mod 1000" "t mod 1000 < 1000" by simp_all
  then have "micros t \<le> t" "t \<le> micros t + 999" unfolding micros_def by linarith+
  moreover have "micros t \<le> micros u" if "t \<le> micros u + 999"
  proof -
    have "t div 1000 \<le> (u div 1000 * 1000 + 999) div 1000"
      using that by (intro zdiv_mono1) (simp_all add: micros_def)
    also have "\<dots> = u div 1000" by simp
    finally show ?thesis by (simp add: micros_def)
  qed
  ultimately show ?thesis by linarith
qed

lemma sint_scast_small: "- (2 ^ 31) \<le> sint (n :: goint) \<Longrightarrow> sint n < 2 ^ 31 \<Longrightarrow> sint (scast n :: int4) = sint n"
  unfolding scast_eq sint_sbintrunc' by (simp add: signed_take_bit_int_eq_self)

lemma sint_int_of_int4 [simp]: "sint (int_of_int4 v) = sint v"
proof -
  have "- (2 ^ 63) \<le> sint v" "sint v < 2 ^ 63"
    using sint_ge [of v] sint_lt [of v] by simp_all
  then show ?thesis
    unfolding int_of_int4_def scast_eq sint_sbintrunc' by (simp add: signed_take_bit_int_eq_self)
qed

lemma int4_of_Inr: "int4_of n = Inr v \<Longrightarrow> int_of_int4 v = n"
  by (metis Inl_Inr_False Inr_inject int4_of_def signed_word_eqI sint_int_of_int4 sint_scast_small)

lemma int_of_int4_eq_iff [simp]: "int_of_int4 v = int_of_int4 w \<longleftrightarrow> v = w"
  by (metis signed_word_eqI sint_int_of_int4)

lemma int4_of_int [simp]: "int4_of (int_of_int4 v) = Inr v"
proof -
  have "- (2 ^ 31) \<le> sint v" "sint v < 2 ^ 31"
    using sint_ge [of v] sint_lt [of v] by simp_all
  then obtain w where "int4_of (int_of_int4 v) = Inr w" by (simp add: int4_of_def)
  then show ?thesis using int4_of_Inr [of "int_of_int4 v" w] by simp
qed

end
