(* ===== verification/DBSchema.thy ===== *)
theory DBSchema
  imports DBFacts
begin

text \<open>
  The constraints of the schema as an invariant of the tables. Every statement keeps them, so every
  method does, whichever of its statements fail, and so does any interleaving with the statements
  of other connections.
\<close>

section \<open>The constraints\<close>

text \<open>What the server prints for a \<open>uuid\<close> it reads back as the same, and is not empty.\<close>

definition uuid_text :: "Pg \<Rightarrow> bool" where
  "uuid_text pg \<longleftrightarrow> (\<forall>s u. pg_uuid pg s = Some u \<longrightarrow> pg_uuid pg u = Some u \<and> u \<noteq> '''')"

definition tables_ok :: "Pg \<Rightarrow> Tables \<Rightarrow> bool" where
  "tables_ok pg t \<longleftrightarrow>
     distinct (map row_id (kyc_applications t)) \<and>
     (\<forall>r \<in> set (kyc_applications t). pg_uuid pg (row_id r) = Some (row_id r)) \<and>
     active_unique (kyc_applications t) \<and>
     distinct (map drow_id (documents t)) \<and>
     distinct (map lrow_id (liveness_sessions t)) \<and>
     (\<forall>d \<in> set (documents t). has_app (drow_application_id d) t) \<and>
     (\<forall>l \<in> set (liveness_sessions t). has_app (lrow_application_id l) t)"

definition no_tables :: Tables where
  "no_tables = \<lparr>kyc_applications = [], documents = [], liveness_sessions = []\<rparr>"

lemma no_tables_ok: "tables_ok pg no_tables"
  by (simp add: tables_ok_def no_tables_def active_unique_def)

section \<open>The statements keep them\<close>

inductive sql_step :: "Pg \<Rightarrow> Tables \<Rightarrow> Tables \<Rightarrow> bool" for pg where
  create: "sql_create pg app t = Inr ((), t') \<Longrightarrow> sql_step pg t t'"
| delete: "sql_step pg t (sql_delete_app u t)"
| transition:
    "sql_update_state pg i s now v' decided due v t = Inr ((), t') \<Longrightarrow> sql_step pg t t'"
| reopen: "sql_reopen pg i now v' v t = Inr ((), t') \<Longrightarrow> sql_step pg t t'"
| vendor: "sql_set_vendor pg i w now t = Inr ((), t') \<Longrightarrow> sql_step pg t t'"
| add_doc: "sql_add_doc pg i doc t = Inr ((), t') \<Longrightarrow> sql_step pg t t'"
| sweep_docs: "sql_sweep_docs now t = Inr (n, t') \<Longrightarrow> sql_step pg t t'"
| add_live: "sql_add_live pg i s t = Inr ((), t') \<Longrightarrow> sql_step pg t t'"
| sweep_live: "sql_sweep_live now t = Inr (n, t') \<Longrightarrow> sql_step pg t t'"

lemma uuid_param_Inr: "uuid_param pg s f = Inr x \<longleftrightarrow> (\<exists>u. pg_uuid pg s = Some u \<and> f u = Inr x)"
  by (simp add: uuid_param_def split: option.splits)

lemma distinct_map_filter: "distinct (map f xs) \<Longrightarrow> distinct (map f (filter p xs))"
  by (induction xs) auto

lemma active_unique_filter: "active_unique rows \<Longrightarrow> active_unique (filter p rows)"
proof -
  have "filter row_active (filter p rows) = filter p (filter row_active rows)"
    by (simp add: filter_filter conj_commute)
  then show "active_unique rows \<Longrightarrow> active_unique (filter p rows)"
    unfolding active_unique_def by (simp only: distinct_map_filter)
qed

text \<open>An update that keeps the identifiers.\<close>

lemma sql_update_apps_ok:
  assumes "tables_ok pg t" and "sql_update_apps p f t = Inr ((), t')" and "\<And>r. row_id (f r) = row_id r"
  shows "tables_ok pg t'"
proof -
  let ?g = "\<lambda>r. if p r then f r else r"
  have t': "t' = t\<lparr>kyc_applications := map ?g (kyc_applications t)\<rparr>" "active_unique (kyc_applications t')"
    using assms(2) by (auto simp: sql_update_apps_def Let_def split: if_splits)
  have id: "row_id (?g r) = row_id r" for r by (simp add: assms(3))
  have "row_id \<circ> ?g = row_id" by (rule ext) (simp add: id)
  then have ids: "map row_id (kyc_applications t') = map row_id (kyc_applications t)" by (simp add: t'(1))
  then have "row_id ` set (kyc_applications t') = row_id ` set (kyc_applications t)"
    by (metis set_map)
  then have "has_app u t' = has_app u t" for u by (simp add: has_app_def)
  moreover have "\<forall>r \<in> set (kyc_applications t'). pg_uuid pg (row_id r) = Some (row_id r)"
    using assms(1) by (auto simp: tables_ok_def t'(1) id simp del: if_image_distrib)
  moreover have "documents t' = documents t" "liveness_sessions t' = liveness_sessions t" by (simp_all add: t'(1))
  ultimately show ?thesis
    using assms(1) t'(2) by (simp add: tables_ok_def ids)
qed

lemma sql_create_ok:
  assumes "uuid_text pg" and "tables_ok pg t" and "sql_create pg app t = Inr ((), t')"
  shows "tables_ok pg t'"
proof -
  obtain u v where u: "pg_uuid pg (app_ID app) = Some u"
    and ins: "sql_insert_app (insert_row u v app) t = Inr ((), t')"
    using assms(3) by (auto simp: sql_create_def uuid_param_Inr split: sum.splits)
  have "pg_uuid pg u = Some u" using assms(1) u by (auto simp: uuid_text_def)
  moreover have "u \<notin> row_id ` set (kyc_applications t)"
    "active_unique (kyc_applications t @ [insert_row u v app])"
    "t' = t\<lparr>kyc_applications := kyc_applications t @ [insert_row u v app]\<rparr>"
    using ins by (auto simp: sql_insert_app_def insert_row_def split: if_splits)
  ultimately show ?thesis
    using assms(2) by (auto simp: tables_ok_def has_app_def insert_row_def)
qed

lemma sql_delete_app_ok: "tables_ok pg t \<Longrightarrow> tables_ok pg (sql_delete_app u t)"
  by (auto simp: tables_ok_def sql_delete_app_def has_app_def distinct_map_filter active_unique_filter)

lemma sql_add_doc_ok: "tables_ok pg t \<Longrightarrow> sql_add_doc pg i doc t = Inr ((), t') \<Longrightarrow> tables_ok pg t'"
  by (auto simp: sql_add_doc_def uuid_param_Inr sql_insert_doc_def tables_ok_def has_app_def doc_row_def
      split: if_splits)

lemma sql_add_live_ok: "tables_ok pg t \<Longrightarrow> sql_add_live pg i s t = Inr ((), t') \<Longrightarrow> tables_ok pg t'"
  by (auto simp: sql_add_live_def uuid_param_Inr sql_insert_live_def tables_ok_def has_app_def live_row_def
      split: if_splits)

lemma sql_sweep_docs_ok: "tables_ok pg t \<Longrightarrow> sql_sweep_docs now t = Inr (n, t') \<Longrightarrow> tables_ok pg t'"
  by (auto simp: sql_sweep_docs_def tables_ok_def has_app_def distinct_map_filter)

lemma sql_sweep_live_ok: "tables_ok pg t \<Longrightarrow> sql_sweep_live now t = Inr (n, t') \<Longrightarrow> tables_ok pg t'"
  by (auto simp: sql_sweep_live_def tables_ok_def has_app_def distinct_map_filter)

lemma sql_step_ok:
  assumes "uuid_text pg" and "sql_step pg t t'" and "tables_ok pg t"
  shows "tables_ok pg t'"
  using assms(2,3)
proof cases
  case transition
  with assms(3) show ?thesis
    by (auto simp: sql_update_state_def uuid_param_Inr split: sum.splits elim!: sql_update_apps_ok)
next
  case reopen
  with assms(3) show ?thesis
    by (auto simp: sql_reopen_def uuid_param_Inr split: sum.splits elim!: sql_update_apps_ok)
next
  case vendor
  with assms(3) show ?thesis
    by (auto simp: sql_set_vendor_def uuid_param_Inr split: if_splits elim!: sql_update_apps_ok)
qed (use assms in \<open>auto intro: sql_create_ok sql_delete_app_ok sql_add_doc_ok sql_add_live_ok
      sql_sweep_docs_ok sql_sweep_live_ok\<close>)

lemma sql_steps_ok:
  assumes "uuid_text pg" and "(sql_step pg)\<^sup>*\<^sup>* t t'" and "tables_ok pg t"
  shows "tables_ok pg t'"
  using assms(2,3) by (induction) (auto intro: sql_step_ok [OF assms(1)])

section \<open>So do the methods\<close>

datatype db_method =
    MCreate Application
  | MGet string
  | MGetByUserID string
  | MUpdateState string goint State string string
  | MReopen string goint string
  | MListDue time
  | MSetVendor string string
  | MAddDoc string Document
  | MListDocs string
  | MHasDocs string
  | MSweepDocs time
  | MAddLive string LivenessSession
  | MLatest string
  | MSweepLive time

text \<open>The pool and the world after a call.\<close>

fun db_after ::
  "Pg \<Rightarrow> 'e World_scheme EventSink \<Rightarrow> db_method \<Rightarrow> Database \<times> 'e World_scheme \<Rightarrow> Database \<times> 'e World_scheme" where
  "db_after pg sink (MCreate app) s = snd (db_Create pg app s)"
| "db_after pg sink (MGet i) (db, e) = (snd (db_Get pg i db), e)"
| "db_after pg sink (MGetByUserID u) (db, e) = (snd (db_GetByUserID pg u db), e)"
| "db_after pg sink (MUpdateState i n st actor reason) s = snd (db_UpdateState pg sink i n st actor reason s)"
| "db_after pg sink (MReopen i n actor) s = snd (db_Reopen pg sink i n actor s)"
| "db_after pg sink (MListDue now) (db, e) = (snd (db_ListDueForReKYC pg now db), e)"
| "db_after pg sink (MSetVendor i w) s = db_SetVendorApplicantID pg i w s"
| "db_after pg sink (MAddDoc i d) (db, e) = (dbdoc_Add pg i d db, e)"
| "db_after pg sink (MListDocs i) (db, e) = (snd (dbdoc_List pg i db), e)"
| "db_after pg sink (MHasDocs i) (db, e) = (snd (dbdoc_HasRequiredDocs pg i db), e)"
| "db_after pg sink (MSweepDocs now) (db, e) = (snd (dbdoc_SweepExpired pg now db), e)"
| "db_after pg sink (MAddLive i l) (db, e) = (dblive_Add pg i l db, e)"
| "db_after pg sink (MLatest i) (db, e) = (snd (dblive_Latest pg i db), e)"
| "db_after pg sink (MSweepLive now) (db, e) = (snd (dblive_SweepExpired pg now db), e)"

text \<open>Executing a statement is such a step, or nothing.\<close>

lemma Exec_step:
  assumes "Exec pg stmt db = (res, db')" and "\<And>x t'. stmt (tables db) = Inr (x, t') \<Longrightarrow> sql_step pg (tables db) t'"
  shows "(sql_step pg)\<^sup>*\<^sup>* (tables db) (tables db')"
  using Exec_tables [OF assms(1)] assms(2) by auto

lemma begin_locked_tables:
  "begin_locked pg i db = Inl (err, db') \<Longrightarrow> tables db' = tables db"
  "begin_locked pg i db = Inr (app, db', tx) \<Longrightarrow>
     tables db' = tables db \<and> tables tx = tables db \<and> statements tx = statements db + 2 \<and>
     (\<exists>r. sql_app_by_id pg i (tables db) = Inr (Some r) \<and> app = scanRow r)"
proof -
  show "begin_locked pg i db = Inl (err, db') \<Longrightarrow> tables db' = tables db"
    by (auto simp: begin_locked_def split: prod.splits sum.splits dest!: Begin_tables)
  assume b: "begin_locked pg i db = Inr (app, db', tx)"
  then obtain r where r: "Begin pg db = (Inr (), db')" "QueryRow pg (sql_app_by_id pg i) db' = (Inr r, tx)"
    "app = scanRow r"
    by (auto simp: begin_locked_def split: prod.splits sum.splits)
  then show "tables db' = tables db \<and> tables tx = tables db \<and> statements tx = statements db + 2 \<and>
     (\<exists>r. sql_app_by_id pg i (tables db) = Inr (Some r) \<and> app = scanRow r)"
    using Begin_tables [OF r(1)] QueryRow_tables [OF r(2)] QueryRow_Inr [OF r(2)]
      Exec_statements [OF r(1) [unfolded Begin_def]] QueryRow_statements [OF r(2)] by auto
qed

lemma write_and_commit_tables:
  assumes "write_and_commit pg update db tx = (res, db')" and "tables tx = tables db"
  shows "(res \<noteq> None \<and> tables db' = tables db) \<or>
    update (tables db) = Inr ((), tables db') \<and>
    (\<forall>err. res = Some err \<longrightarrow> (\<exists>k. pg_fault pg (Suc (statements tx)) = Some (AnswerLost k err)))"
proof (cases "Exec pg update tx")
  case (Pair x tx')
  show ?thesis
  proof (cases x)
    case (Inl err)
    then show ?thesis using assms Pair by (auto simp: write_and_commit_def)
  next
    case (Inr u)
    then have "update (tables db) = Inr ((), tables tx')"
      using Exec_Inr [of pg update tx u tx'] Pair assms(2) by simp
    then show ?thesis
      using assms Pair Inr Commit_tables [of pg db tx'] Commit_lost [of pg db tx']
        Exec_statements [of pg update tx x tx']
      by (auto simp: write_and_commit_def split: prod.splits sum.splits)
  qed
qed

lemma db_UpdateState_tables:
  assumes "db_UpdateState pg sink i n s actor reason (db, e) = (res, db', e')"
  shows "(\<exists>err. res = Inl err) \<and> tables db' = tables db \<and> (e' = e \<or> e' = snd (time_Now e)) \<or>
    (\<exists>r. sql_app_by_id pg i (tables db) = Inr (Some r) \<and> app_Version (scanRow r) = n \<and>
       CanTransition (row_state r) s \<and>
       (let (now, e1) = time_Now e; app = transition_app now s (scanRow r)
        in sql_update_state pg i s now (app_Version app) (if IsTerminal s then Some now else None)
             (if IsTerminal s then Some (app_ReKYCDueAt app) else None) n (tables db) = Inr ((), tables db') \<and>
           (res = Inr app \<and> e' = sink i (row_state r) s actor reason e1 \<or>
            (\<exists>err k. res = Inl err \<and> pg_fault pg (statements db + 3) = Some (AnswerLost k err)) \<and> e' = e1)))"
proof (cases "begin_locked pg i db")
  case (Inl p)
  then show ?thesis
    using assms begin_locked_tables(1) [of pg i db] by (auto simp: db_UpdateState_def split: prod.splits)
next
  case (Inr p)
  obtain app db1 tx where p: "p = (app, db1, tx)" by (cases p)
  obtain r where r: "tables db1 = tables db" "tables tx = tables db" "Suc (statements tx) = statements db + 3"
    "sql_app_by_id pg i (tables db) = Inr (Some r)" "app = scanRow r"
    using begin_locked_tables(2) [of pg i db app db1 tx] Inr p by auto
  obtain now e1 where now: "time_Now e = (now, e1)" by fastforce
  let ?app = "transition_app now s app"
  let ?up = "sql_update_state pg i s now (app_Version ?app) (if IsTerminal s then Some now else None)
             (if IsTerminal s then Some (app_ReKYCDueAt ?app) else None) n"
  obtain w db2 where w: "write_and_commit pg ?up db1 tx = (w, db2)" by fastforce
  have st: "app_State app = row_state r" by (simp add: r(5) scanRow_def)
  show ?thesis
    using assms Inr r now w write_and_commit_tables [OF w] st
    by (auto simp: db_UpdateState_def p Let_def numeral_3_eq_3 split: if_splits option.splits dest: ValidateTransition_Some)
qed

lemma db_Reopen_tables:
  assumes "db_Reopen pg sink i n actor (db, e) = (res, db', e')"
  shows "(\<exists>err. res = Inl err) \<and> tables db' = tables db \<and> (e' = e \<or> e' = snd (time_Now e)) \<or>
    (\<exists>r. sql_app_by_id pg i (tables db) = Inr (Some r) \<and> app_Version (scanRow r) = n \<and>
       IsTerminal (row_state r) \<and>
       (let (now, e1) = time_Now e; app = reopen_app now (scanRow r)
        in sql_reopen pg i now (app_Version app) n (tables db) = Inr ((), tables db') \<and>
           (res = Inr app \<and> e' = sink i (row_state r) StateStarted actor ''re-kyc'' e1 \<or>
            (\<exists>err k. res = Inl err \<and> pg_fault pg (statements db + 3) = Some (AnswerLost k err)) \<and> e' = e1)))"
proof (cases "begin_locked pg i db")
  case (Inl p)
  then show ?thesis
    using assms begin_locked_tables(1) [of pg i db] by (auto simp: db_Reopen_def split: prod.splits)
next
  case (Inr p)
  obtain app db1 tx where p: "p = (app, db1, tx)" by (cases p)
  obtain r where r: "tables db1 = tables db" "tables tx = tables db" "Suc (statements tx) = statements db + 3"
    "sql_app_by_id pg i (tables db) = Inr (Some r)" "app = scanRow r"
    using begin_locked_tables(2) [of pg i db app db1 tx] Inr p by auto
  obtain now e1 where now: "time_Now e = (now, e1)" by fastforce
  let ?app = "reopen_app now app"
  obtain w db2 where w: "write_and_commit pg (sql_reopen pg i now (app_Version ?app) n) db1 tx = (w, db2)"
    by fastforce
  have st: "app_State app = row_state r" by (simp add: r(5) scanRow_def)
  show ?thesis
    using assms Inr r now w write_and_commit_tables [OF w] st
    by (auto simp: db_Reopen_def p Let_def numeral_3_eq_3 split: if_splits option.splits)
qed

lemma db_Create_admit_steps:
  assumes "db_Create_admit pg app db = (res, db')"
  shows "(sql_step pg)\<^sup>*\<^sup>* (tables db) (tables db')"
proof (cases "QueryRow pg (sql_app_by_user (app_UserID app)) db")
  case (Pair row db1)
  have t: "tables db1 = tables db" using Pair by (rule QueryRow_tables)
  have "(sql_step pg)\<^sup>*\<^sup>* (tables db1) (tables db2)"
    if "Exec pg (\<lambda>t. uuid_param pg u (\<lambda>u. Inr ((), sql_delete_app u t))) db1 = (r, db2)" for u r db2
    using that by (rule Exec_step) (auto simp: uuid_param_Inr intro: sql_step.delete)
  then show ?thesis
    using assms Pair t
    by (auto simp: db_Create_admit_def split: sum.splits row_error.splits if_splits prod.splits)
qed

lemma db_Create_steps: "(sql_step pg)\<^sup>*\<^sup>* (tables db) (tables (fst (snd (db_Create pg app (db, e)))))"
proof -
  obtain now e1 where now: "time_Now e = (now, e1)" by fastforce
  let ?app = "Create_fill now app"
  obtain x db1 where a: "db_Create_admit pg ?app db = (x, db1)" by fastforce
  obtain y db2 where c: "Exec pg (sql_create pg ?app) db1 = (y, db2)" by fastforce
  have "(sql_step pg)\<^sup>*\<^sup>* (tables db) (tables db1)" using a by (rule db_Create_admit_steps)
  moreover have "(sql_step pg)\<^sup>*\<^sup>* (tables db1) (tables db2)"
    using c by (rule Exec_step) (auto intro: sql_step.create)
  ultimately show ?thesis
    using a c now
    by (auto simp: db_Create_def Let_def split: option.splits sum.splits intro: rtranclp_trans)
qed

lemma has_types_tables: "tables (snd (has_types pg i types db)) = tables db"
  by (induction types arbitrary: db) (auto split: prod.splits sum.splits dest: QueryRow_tables)

lemma db_after_steps:
  "(sql_step pg)\<^sup>*\<^sup>* (tables db) (tables (fst (db_after pg sink m (db, e))))"
proof (cases m)
  case (MUpdateState i n s actor reason)
  obtain res db' e' where c: "db_UpdateState pg sink i n s actor reason (db, e) = (res, db', e')"
    by (cases "db_UpdateState pg sink i n s actor reason (db, e)") auto
  show ?thesis
    using db_UpdateState_tables [OF c] c MUpdateState
    by (auto simp: Let_def time_Now_def intro: sql_step.transition)
next
  case (MReopen i n actor)
  obtain res db' e' where c: "db_Reopen pg sink i n actor (db, e) = (res, db', e')"
    by (cases "db_Reopen pg sink i n actor (db, e)") auto
  show ?thesis
    using db_Reopen_tables [OF c] c MReopen
    by (auto simp: Let_def time_Now_def intro: sql_step.reopen)
next
  case (MSetVendor i w)
  then show ?thesis
    by (auto simp: db_SetVendorApplicantID_def time_Now_def intro!: Exec_step [OF surjective_pairing] sql_step.vendor)
next
  case (MAddDoc i d)
  then show ?thesis by (auto simp: dbdoc_Add_def intro!: Exec_step [OF surjective_pairing] sql_step.add_doc)
next
  case (MAddLive i l)
  then show ?thesis by (auto simp: dblive_Add_def intro!: Exec_step [OF surjective_pairing] sql_step.add_live)
next
  case (MSweepDocs now)
  then show ?thesis
    by (auto simp: dbdoc_SweepExpired_def split: prod.splits sum.splits
        intro: sql_step.sweep_docs dest: Exec_step [where pg = pg])
next
  case (MSweepLive now)
  then show ?thesis
    by (auto simp: dblive_SweepExpired_def split: prod.splits sum.splits
        intro: sql_step.sweep_live dest: Exec_step [where pg = pg])
next
  case (MHasDocs i)
  then show ?thesis by (simp add: dbdoc_HasRequiredDocs_def has_types_tables del: has_types.simps)
next
  case (MListDue now)
  then show ?thesis
    using Query_tables [of pg "sql_due now" db] by (simp add: db_ListDueForReKYC_def case_prod_unfold)
next
  case (MListDocs i)
  then show ?thesis
    using Query_tables [of pg "sql_docs pg i" db] by (simp add: dbdoc_List_def case_prod_unfold)
qed (auto simp: db_Create_steps db_Get_def db_GetByUserID_def dblive_Latest_def
    split: prod.splits sum.splits dest: QueryRow_tables)

section \<open>The invariant\<close>

text \<open>
  A run over one pool: calls of methods, between which other connections may execute any of the
  statements. The statements of a method can be such steps of another process.
\<close>

inductive db_run ::
  "Pg \<Rightarrow> 'e World_scheme EventSink \<Rightarrow> Database \<times> 'e World_scheme \<Rightarrow> Database \<times> 'e World_scheme \<Rightarrow> bool"
  for pg sink s where
  start: "db_run pg sink s s"
| call: "db_run pg sink s s' \<Longrightarrow> db_run pg sink s (db_after pg sink m s')"
| other: "db_run pg sink s (db, e) \<Longrightarrow> sql_step pg (tables db) t \<Longrightarrow> db_run pg sink s (db\<lparr>tables := t\<rparr>, e)"

lemma db_run_steps:
  assumes "db_run pg sink s s'"
  shows "(sql_step pg)\<^sup>*\<^sup>* (tables (fst s)) (tables (fst s'))"
  using assms
proof induction
  case start
  show ?case by simp
next
  case (call s' m)
  then show ?case
    using db_after_steps [of pg "fst s'" sink m "snd s'"] by simp
next
  case (other db e t)
  then show ?case by simp
qed

lemma active_unique_rows:
  assumes "active_unique rows" and "r \<in> set rows" and "q \<in> set rows" and "row_active r" and "row_active q"
    and "row_user_id r = row_user_id q"
  shows "r = q"
  using assms by (auto simp: active_unique_def distinct_map inj_on_def)

lemma row_active_iff: "row_active r \<longleftrightarrow> \<not> IsTerminal (row_state r)"
  by (simp add: row_active_def IsTerminal_iff StatePass_def StateFail_def)

text \<open>
  C20. Whatever methods are called with whatever arguments, whichever of their statements fail or
  lose their answer, and whichever of these statements other connections execute in between, a
  database that started with satisfied constraints has no two applications of one user that the
  code's \<open>IsTerminal\<close> takes for undecided, no two rows with one identifier, and no document or
  liveness session without its application.
\<close>

theorem database_constraints_hold:
  assumes "uuid_text pg" and "tables_ok pg (tables db)" and "db_run pg sink (db, e) (db', e')"
  shows "tables_ok pg (tables db') \<and>
    (\<forall>r \<in> set (kyc_applications (tables db')). \<forall>q \<in> set (kyc_applications (tables db')).
       row_id r = row_id q \<or>
       row_user_id r = row_user_id q \<and> \<not> IsTerminal (row_state r) \<and> \<not> IsTerminal (row_state q) \<longrightarrow> r = q) \<and>
    (\<forall>d \<in> set (documents (tables db')). \<exists>r \<in> set (kyc_applications (tables db')). row_id r = drow_application_id d) \<and>
    (\<forall>l \<in> set (liveness_sessions (tables db')).
       \<exists>r \<in> set (kyc_applications (tables db')). row_id r = lrow_application_id l)"
proof -
  have ok: "tables_ok pg (tables db')"
    using sql_steps_ok [OF assms(1) _ assms(2)] db_run_steps [OF assms(3)] by simp
  then have "distinct (map row_id (kyc_applications (tables db')))" "active_unique (kyc_applications (tables db'))"
    by (simp_all add: tables_ok_def)
  then have "\<forall>r \<in> set (kyc_applications (tables db')). \<forall>q \<in> set (kyc_applications (tables db')).
      row_id r = row_id q \<or>
      row_user_id r = row_user_id q \<and> \<not> IsTerminal (row_state r) \<and> \<not> IsTerminal (row_state q) \<longrightarrow> r = q"
    by (auto simp: distinct_map inj_on_def row_active_iff [symmetric] intro: active_unique_rows)
  then show ?thesis using ok by (simp add: tables_ok_def has_app_def image_iff eq_commute)
qed

text \<open>A server that accepts any non-empty text as an identifier, and never fails.\<close>

definition demo_pg :: Pg where
  "demo_pg = \<lparr>pg_uuid = (\<lambda>s. if s = '''' then None else Some s), pg_jsonb = (\<lambda>_. ''null''), pg_fault = (\<lambda>_. None)\<rparr>"

definition demo_db :: Database where
  "demo_db = \<lparr>tables = no_tables, statements = 0\<rparr>"

lemma demo_pg_uuid_text: "uuid_text demo_pg"
  by (simp add: uuid_text_def demo_pg_def)

text \<open>The server loses the answer to the \<open>INSERT\<close>, which is carried out all the same.\<close>

definition demo_lossy :: Pg where
  "demo_lossy = demo_pg\<lparr>pg_fault := (\<lambda>k. if k = 1 then Some (AnswerLost 0 (Plain ''eof'')) else None)\<rparr>"

definition demo_created :: "Database \<times> NetEnv" where
  "demo_created = db_after demo_lossy noopEventSink (MCreate (demo_record ''x'' ''u1'' '''' 0)) (demo_db, demo_world)"

theorem database_constraints_hold_witness:
  "tables_ok demo_lossy (tables (fst demo_created)) \<and>
     map row_state (kyc_applications (tables (fst demo_created))) = [StateStarted] \<and>
     fst (fst (db_Create demo_lossy (demo_record ''x'' ''u1'' '''' 0) (demo_db, demo_world))) \<noteq> None"
proof -
  have "db_run demo_lossy noopEventSink (demo_db, demo_world) (fst demo_created, snd demo_created)"
    unfolding demo_created_def prod.collapse by (intro db_run.call db_run.start)
  moreover have "uuid_text demo_lossy" by (simp add: uuid_text_def demo_lossy_def demo_pg_def)
  moreover have "tables_ok demo_lossy (tables demo_db)" by (simp add: demo_db_def no_tables_ok)
  ultimately have "tables_ok demo_lossy (tables (fst demo_created))"
    using database_constraints_hold by blast
  moreover have "map row_state (kyc_applications (tables (fst demo_created))) = [StateStarted] \<and>
     fst (fst (db_Create demo_lossy (demo_record ''x'' ''u1'' '''' 0) (demo_db, demo_world))) \<noteq> None"
    by code_simp
  ultimately show ?thesis by blast
qed

end
