(* ===== verification/DBMemory.thy ===== *)
theory DBMemory
  imports DBSchema
begin

text \<open>
  The application repository over PostgreSQL against the in-memory one of \<open>Repo\<close>: on a working
  connection every method answers alike, up to the microseconds of a stored instant and the texts of
  errors, and keeps the tables a mirror of the map.
\<close>

section \<open>The mirror\<close>

definition micros_app :: "Application \<Rightarrow> Application" where
  "micros_app a =
     a\<lparr>app_CreatedAt := micros (app_CreatedAt a), app_UpdatedAt := micros (app_UpdatedAt a),
       app_ExpiresAt := micros (app_ExpiresAt a), app_ReKYCDueAt := micros (app_ReKYCDueAt a),
       app_DecidedAt := micros (app_DecidedAt a)\<rparr>"

definition stored :: "AppRow \<Rightarrow> Application \<Rightarrow> bool" where
  "stored q a \<longleftrightarrow> scanRow q = micros_app a \<and> row_re_kyc_due_at q = timestamp (nullableTime (app_ReKYCDueAt a))"

definition mirrors :: "Pg \<Rightarrow> Tables \<Rightarrow> ApplicationRepository \<Rightarrow> bool" where
  "mirrors pg t r \<longleftrightarrow> tables_ok pg t \<and> repo_inv r \<and>
     (\<forall>i. rel_option stored (find (\<lambda>q. row_id q = i) (kyc_applications t)) (apps r i))"

lemma stored_iff:
  "stored q a \<longleftrightarrow>
     row_id q = app_ID a \<and> row_user_id q = app_UserID a \<and> row_state q = app_State a \<and>
     int_of_int4 (row_version q) = app_Version a \<and> row_created_at q = micros (app_CreatedAt a) \<and>
     row_updated_at q = micros (app_UpdatedAt a) \<and> text_of (row_vendor q) = app_Vendor a \<and>
     text_of (row_vendor_application_id q) = app_VendorApplicantID a \<and>
     time_of (row_expires_at q) = micros (app_ExpiresAt a) \<and>
     time_of (row_re_kyc_due_at q) = micros (app_ReKYCDueAt a) \<and>
     time_of (row_decided_at q) = micros (app_DecidedAt a) \<and>
     row_re_kyc_due_at q = timestamp (nullableTime (app_ReKYCDueAt a))"
  by (cases a) (auto simp: stored_def scanRow_def micros_app_def)

lemma stored_ids: "stored q a \<Longrightarrow> row_id q = app_ID a \<and> row_user_id q = app_UserID a"
  by (simp add: stored_iff)

lemma micros_app_idem [simp]: "micros_app (micros_app a) = micros_app a"
  by (simp add: micros_app_def)

lemma mirrors_find:
  assumes "mirrors pg t r"
  shows "find (\<lambda>q. row_id q = i) (kyc_applications t) = Some q \<Longrightarrow> \<exists>a. apps r i = Some a \<and> stored q a"
    and "apps r i = Some a \<Longrightarrow> \<exists>q. find (\<lambda>q. row_id q = i) (kyc_applications t) = Some q \<and> stored q a"
    and "find (\<lambda>q. row_id q = i) (kyc_applications t) = None \<longleftrightarrow> apps r i = None"
proof -
  have R: "rel_option stored (find (\<lambda>q. row_id q = i) (kyc_applications t)) (apps r i)"
    using assms by (simp add: mirrors_def)
  show "find (\<lambda>q. row_id q = i) (kyc_applications t) = Some q \<Longrightarrow> \<exists>a. apps r i = Some a \<and> stored q a"
    using R by (auto simp: option_rel_Some1)
  show "apps r i = Some a \<Longrightarrow> \<exists>q. find (\<lambda>q. row_id q = i) (kyc_applications t) = Some q \<and> stored q a"
    using R by (auto simp: option_rel_Some2)
  show "find (\<lambda>q. row_id q = i) (kyc_applications t) = None \<longleftrightarrow> apps r i = None"
    using R by (cases "apps r i") (auto simp: option_rel_Some2)
qed

lemma mirrors_row:
  assumes "mirrors pg t r" and "q \<in> set (kyc_applications t)"
  shows "\<exists>a. apps r (row_id q) = Some a \<and> stored q a"
proof -
  have "distinct (map row_id (kyc_applications t))" using assms(1) by (simp add: mirrors_def tables_ok_def)
  then have "find (\<lambda>x. row_id x = row_id q) (kyc_applications t) = Some q"
    using assms(2) by (simp add: find_key)
  then show ?thesis using mirrors_find(1) [OF assms(1)] by blast
qed

lemma mirrors_one_row:
  assumes "mirrors pg t r" and "q \<in> set (kyc_applications t)" and "p \<in> set (kyc_applications t)"
    and "row_user_id p = row_user_id q"
  shows "p = q"
proof -
  obtain a b where a: "apps r (row_id q) = Some a" "stored q a" and b: "apps r (row_id p) = Some b" "stored p b"
    using mirrors_row assms by meson
  have inv: "repo_inv r" and d: "distinct (map row_id (kyc_applications t))"
    using assms(1) by (simp_all add: mirrors_def tables_ok_def)
  have "row_id p = row_id q"
    using repo_inv_app [OF inv a(1)] repo_inv_app [OF inv b(1)] assms(4)
      stored_ids [OF a(2)] stored_ids [OF b(2)] by simp
  with d assms(2,3) show ?thesis by (auto simp: distinct_map dest: inj_onD)
qed

lemma mirrors_users:
  assumes "mirrors pg t r"
  shows "distinct (map row_user_id (kyc_applications t))"
proof -
  have "distinct (kyc_applications t)"
    using assms by (simp add: mirrors_def tables_ok_def distinct_map)
  then show ?thesis using mirrors_one_row [OF assms] by (auto simp: distinct_map inj_on_def)
qed

text \<open>What the look-ups by identifier and by user find.\<close>

lemma mirrors_by_user:
  assumes "mirrors pg t r"
  shows "rel_option stored
    (latest_by row_created_at (filter (\<lambda>q. row_user_id q = u) (kyc_applications t)))
    (case byUser r u of None \<Rightarrow> None | Some i \<Rightarrow> apps r i)"
proof (cases "byUser r u")
  case None
  have "row_user_id q \<noteq> u" if "q \<in> set (kyc_applications t)" for q
    using mirrors_row [OF assms that] None assms repo_inv_app stored_ids
    by (metis mirrors_def option.distinct(1))
  then have "filter (\<lambda>q. row_user_id q = u) (kyc_applications t) = []" by (simp add: filter_empty_conv)
  then show ?thesis using None by simp
next
  case (Some i)
  have inv: "repo_inv r" using assms by (simp add: mirrors_def)
  obtain a where a: "apps r i = Some a" "app_UserID a = u" using repo_inv_user [OF inv Some] by blast
  obtain q where q: "find (\<lambda>q. row_id q = i) (kyc_applications t) = Some q" "stored q a"
    using mirrors_find(2) [OF assms a(1)] by blast
  then have "q \<in> set (kyc_applications t)" "row_user_id q = u"
    using find_Some_in [OF q(1)] a(2) by (simp_all add: stored_iff)
  then have "latest_by row_created_at (filter (\<lambda>q. row_user_id q = u) (kyc_applications t)) = Some q"
    using mirrors_one_row [OF assms] by (intro latest_by_only) (auto simp: filter_empty_conv)
  then show ?thesis using Some a(1) q(2) by simp
qed

section \<open>Updates\<close>

lemma sql_update_mirrors:
  assumes m: "mirrors pg t r" and a: "apps r i = Some a"
    and q: "find (\<lambda>q. row_id q = i) (kyc_applications t) = Some q"
    and p: "\<And>x. x \<in> set (kyc_applications t) \<Longrightarrow> p x \<longleftrightarrow> row_id x = i"
    and f: "\<And>x. row_id (f x) = row_id x" "\<And>x. row_user_id (f x) = row_user_id x"
    and s: "stored (f q) a'" and a': "app_ID a' = app_ID a" "app_UserID a' = app_UserID a"
  shows "\<exists>t'. sql_update_apps p f t = Inr ((), t') \<and> mirrors pg t' (r\<lparr>apps := (apps r)(i \<mapsto> a')\<rparr>)"
proof -
  let ?g = "\<lambda>x. if row_id x = i then f x else x"
  have rows: "map (\<lambda>x. if p x then f x else x) (kyc_applications t) = map ?g (kyc_applications t)"
    using p by simp
  have "row_user_id \<circ> ?g = row_user_id" by (rule ext) (simp add: f)
  then have "distinct (map row_user_id (map ?g (kyc_applications t)))"
    using mirrors_users [OF m] by simp
  then have "active_unique (map ?g (kyc_applications t))"
    unfolding active_unique_def by (rule distinct_map_filter)
  then have up: "sql_update_apps p f t = Inr ((), t\<lparr>kyc_applications := map ?g (kyc_applications t)\<rparr>)"
    by (simp add: sql_update_apps_def Let_def rows)
  have "find (\<lambda>x. row_id x = k) (map ?g (kyc_applications t)) =
      map_option ?g (find (\<lambda>x. row_id x = k) (kyc_applications t))" for k
    by (rule find_map_key) (simp add: f)
  moreover have "rel_option stored (map_option ?g (find (\<lambda>x. row_id x = k) (kyc_applications t)))
      (((apps r)(i \<mapsto> a')) k)" for k
  proof (cases "k = i")
    case True
    then show ?thesis using q s find_Some_in [OF q] by simp
  next
    case False
    have R: "rel_option stored (find (\<lambda>x. row_id x = k) (kyc_applications t)) (apps r k)"
      using m by (simp add: mirrors_def)
    then show ?thesis
      using False find_Some_in
      by (cases "find (\<lambda>x. row_id x = k) (kyc_applications t)") (fastforce simp: option_rel_Some1)+
  qed
  moreover have "tables_ok pg (t\<lparr>kyc_applications := map ?g (kyc_applications t)\<rparr>)"
    using sql_update_apps_ok [OF _ up] m f(1) by (simp add: mirrors_def)
  moreover have "repo_inv (r\<lparr>apps := (apps r)(i \<mapsto> a')\<rparr>)"
    using m a a' by (intro repo_inv_set) (auto simp: mirrors_def)
  ultimately show ?thesis using up by (simp add: mirrors_def)
qed

section \<open>The methods on a working connection\<close>

text \<open>Both succeed with the same application up to microseconds, or both fail with the same sentinel.\<close>

definition same_outcome :: "go_error + Application \<Rightarrow> go_error + Application \<Rightarrow> bool" where
  "same_outcome = rel_sum (\<lambda>a b. \<exists>k. errors_Is a k \<and> errors_Is b k) (\<lambda>a b. micros_app a = micros_app b)"

lemma same_outcome_simps [simp]:
  "same_outcome (Inl c) (Inl d) \<longleftrightarrow> (\<exists>k. errors_Is c k \<and> errors_Is d k)"
  "same_outcome (Inr a) (Inr b) \<longleftrightarrow> micros_app a = micros_app b"
  "\<not> same_outcome (Inl c) (Inr b)" "\<not> same_outcome (Inr a) (Inl d)"
  by (simp_all add: same_outcome_def)

text \<open>Every stored version can still be counted up in 32 bits.\<close>

definition version_room :: "ApplicationRepository \<Rightarrow> bool" where
  "version_room r \<longleftrightarrow> (\<forall>i a. apps r i = Some a \<longrightarrow> sint (app_Version a) < 2 ^ 31 - 1)"

lemma sint_next:
  assumes "- (2 ^ 31) \<le> sint (n :: goint)" and "sint n < 2 ^ 31 - 1"
  shows "sint (n + 1) = sint n + 1"
proof -
  have "sint (n + 1) = signed_take_bit 63 (sint n + 1)" by (simp add: sint_word_ariths)
  also have "\<dots> = sint n + 1" using assms by (intro signed_take_bit_int_eq_self) simp_all
  finally show ?thesis .
qed

lemma int4_of_next:
  assumes "stored q a" and "sint (app_Version a) < 2 ^ 31 - 1"
  shows "int4_of (app_Version a) = Inr (row_version q)"
    and "\<exists>v. int4_of (app_Version a + 1) = Inr v \<and> int_of_int4 v = app_Version a + 1"
    and "int_of_int4 (row_version q + 1) = app_Version a + 1"
proof -
  have v: "app_Version a = int_of_int4 (row_version q)" using assms(1) by (simp add: stored_iff)
  have "- (2 ^ 31) \<le> sint (row_version q)" using sint_ge [of "row_version q"] by simp
  then have s: "sint (app_Version a + 1) = sint (row_version q) + 1" and lo: "- (2 ^ 31) \<le> sint (app_Version a)"
    using sint_next [of "app_Version a"] assms(2) v by simp_all
  show "int4_of (app_Version a) = Inr (row_version q)" by (simp add: v)
  have "int4_of (app_Version a + 1) = Inr (scast (app_Version a + 1))"
    using s lo assms(2) v by (simp add: int4_of_def)
  then show "\<exists>v. int4_of (app_Version a + 1) = Inr v \<and> int_of_int4 v = app_Version a + 1"
    using int4_of_Inr by blast
  have "sint (row_version q + 1) = sint (row_version q) + 1"
  proof -
    have "sint (row_version q + 1) = signed_take_bit 31 (sint (row_version q) + 1)" by (simp add: sint_word_ariths)
    also have "\<dots> = sint (row_version q) + 1"
      using assms(2) lo v by (intro signed_take_bit_int_eq_self) simp_all
    finally show ?thesis .
  qed
  then show "int_of_int4 (row_version q + 1) = app_Version a + 1"
    using s by (metis signed_word_eqI sint_int_of_int4)
qed

lemma begin_locked_calm:
  assumes "calm pg db" and "pg_uuid pg i = Some i"
  shows "begin_locked pg i db =
    (case find (\<lambda>q. row_id q = i) (kyc_applications (tables db)) of
       None \<Rightarrow> Inl (Errorf ErrNotFound ''no rows in result set'', bump 2 db)
     | Some q \<Rightarrow> Inr (scanRow q, bump 1 db, bump 2 db))"
  using assms
  by (simp add: begin_locked_def Begin_calm QueryRow_calm sql_app_by_id_def uuid_param_def errNoRows_def
      Rollback_def numeral_2_eq_2 split: option.splits)

lemma write_and_commit_calm:
  assumes "calm pg tx"
  shows "write_and_commit pg up db tx =
    (case up (tables tx) of
       Inl err \<Rightarrow> (Some err, Rollback db (bump 1 tx))
     | Inr (_, t) \<Rightarrow> (None, (bump 2 tx)\<lparr>tables := t\<rparr>))"
  using assms by (auto simp: write_and_commit_def Exec_calm Commit_calm numeral_2_eq_2 split: sum.splits)

lemma scanRow_stored: "stored q a \<Longrightarrow> scanRow q = micros_app a"
  by (simp add: stored_def)

lemma transition_app_micros: "micros_app (transition_app t s (micros_app a)) = micros_app (transition_app t s a)"
  by (simp add: micros_app_def transition_app_def Let_def)

lemma reopen_app_micros: "micros_app (reopen_app t (micros_app a)) = micros_app (reopen_app t a)"
  by (simp add: micros_app_def reopen_app_def)

lemma micros_app_keeps [simp]:
  "app_ID (micros_app a) = app_ID a" "app_UserID (micros_app a) = app_UserID a"
  "app_State (micros_app a) = app_State a" "app_Version (micros_app a) = app_Version a"
  by (simp_all add: micros_app_def)

lemma sql_update_state_mirrors:
  assumes m: "mirrors pg t r" and i: "pg_uuid pg i = Some i" and a: "apps r i = Some a"
    and q: "find (\<lambda>q. row_id q = i) (kyc_applications t) = Some q" "stored q a"
    and room: "sint (app_Version a) < 2 ^ 31 - 1" and now: "0 \<le> now"
  shows "\<exists>t'. sql_update_state pg i s now (app_Version a + 1) (if IsTerminal s then Some now else None)
       (if IsTerminal s then Some (AddDuration now year365) else None) (app_Version a) t = Inr ((), t') \<and>
     mirrors pg t' (r\<lparr>apps := (apps r)(i \<mapsto> transition_app now s a)\<rparr>)"
proof -
  obtain v where v: "int4_of (app_Version a) = Inr (row_version q)" "int4_of (app_Version a + 1) = Inr v"
    "int_of_int4 v = app_Version a + 1"
    using int4_of_next [OF q(2) room] by blast
  have only: "x \<in> set (kyc_applications t) \<Longrightarrow> row_id x = i \<and> row_version x = row_version q \<longleftrightarrow> row_id x = i" for x
    using q(1) m by (auto simp: mirrors_def tables_ok_def find_key distinct_map inj_on_def)
  have "AddDuration now year365 \<noteq> 0" using now by (simp add: AddDuration_year365)
  then show ?thesis
    using sql_update_mirrors [OF m a q(1) only] q(2)
    by (simp add: sql_update_state_def v uuid_param_def i)
       (auto simp: stored_iff v transition_app_def Let_def timestamp_def nullableTime_def IsZero_def time_of_def
        intro!: sql_update_mirrors [OF m a q(1) only])
qed

lemma sql_reopen_mirrors:
  assumes m: "mirrors pg t r" and i: "pg_uuid pg i = Some i" and a: "apps r i = Some a"
    and q: "find (\<lambda>q. row_id q = i) (kyc_applications t) = Some q" "stored q a"
    and room: "sint (app_Version a) < 2 ^ 31 - 1"
  shows "\<exists>t'. sql_reopen pg i now (app_Version a + 1) (app_Version a) t = Inr ((), t') \<and>
     mirrors pg t' (r\<lparr>apps := (apps r)(i \<mapsto> reopen_app now a)\<rparr>)"
proof -
  obtain v where v: "int4_of (app_Version a) = Inr (row_version q)" "int4_of (app_Version a + 1) = Inr v"
    "int_of_int4 v = app_Version a + 1"
    using int4_of_next [OF q(2) room] by blast
  have only: "x \<in> set (kyc_applications t) \<Longrightarrow> row_id x = i \<and> row_version x = row_version q \<longleftrightarrow> row_id x = i" for x
    using q(1) m by (auto simp: mirrors_def tables_ok_def find_key distinct_map inj_on_def)
  show ?thesis
    using q(2)
    by (simp add: sql_reopen_def v uuid_param_def i)
       (auto simp: stored_iff v reopen_app_def timestamp_def nullableTime_def IsZero_def time_of_def
        intro!: sql_update_mirrors [OF m a q(1) only])
qed

lemma sql_set_vendor_mirrors:
  assumes m: "mirrors pg t r" and i: "pg_uuid pg i = Some i" and a: "apps r i = Some a"
    and q: "find (\<lambda>q. row_id q = i) (kyc_applications t) = Some q" "stored q a"
    and room: "sint (app_Version a) < 2 ^ 31 - 1"
  shows "\<exists>t'. sql_set_vendor pg i w now t = Inr ((), t') \<and>
     mirrors pg t' (r\<lparr>apps := (apps r)(i \<mapsto> vendor_app now w a)\<rparr>)"
proof -
  have v: "int_of_int4 (row_version q + 1) = app_Version a + 1" "sint (row_version q) < 2 ^ 31 - 1"
    using int4_of_next(3) [OF q(2) room] room q(2) by (simp_all add: stored_iff flip: sint_int_of_int4)
  have "\<not> (\<exists>x \<in> set (kyc_applications t). row_id x = i \<and> sint (row_version x) = 2 ^ 31 - 1)"
    using q(1) m v(2) by (auto simp: mirrors_def tables_ok_def find_key distinct_map inj_on_def)
  then show ?thesis
    using q(2)
    by (simp add: sql_set_vendor_def uuid_param_def i)
       (auto simp: stored_iff v(1) vendor_app_def text_of_def intro!: sql_update_mirrors [OF m a q(1)])
qed

lemma db_UpdateState_mirrors:
  assumes "calm pg db" and m: "mirrors pg (tables db) r" and i: "pg_uuid pg i = Some i"
    and "version_room r" and "0 \<le> clock e (ticks e)"
    and d: "db_UpdateState pg sink i n s actor reason (db, e) = (x, db', e1)"
    and u: "UpdateState sink i n s actor reason (r, e) = (y, r', e2)"
  shows "same_outcome x y \<and> mirrors pg (tables db') r' \<and> calm pg db' \<and> e1 = e2"
proof (cases "apps r i")
  case None
  then have "find (\<lambda>q. row_id q = i) (kyc_applications (tables db)) = None"
    using mirrors_find(3) [OF m] by simp
  then show ?thesis
    using assms None by (auto simp: db_UpdateState_def begin_locked_calm UpdateState_def)
next
  case (Some a)
  then obtain q where q: "find (\<lambda>q. row_id q = i) (kyc_applications (tables db)) = Some q" "stored q a"
    using mirrors_find(2) [OF m] by blast
  show ?thesis
  proof (cases "app_Version a = n \<and> CanTransition (app_State a) s")
    case False
    then show ?thesis
      using assms Some q
      by (auto simp: db_UpdateState_def begin_locked_calm UpdateState_def scanRow_stored Rollback_def
          bump_def ValidateTransition_def calm_def split: if_splits)
  next
    case True
    let ?now = "clock e (ticks e)"
    have "sint (app_Version a) < 2 ^ 31 - 1" using assms(4) Some by (simp add: version_room_def)
    then obtain t' where t': "sql_update_state pg i s ?now (app_Version a + 1) (if IsTerminal s then Some ?now else None)
        (if IsTerminal s then Some (AddDuration ?now year365) else None) (app_Version a) (tables db) = Inr ((), t')"
      "mirrors pg t' (r\<lparr>apps := (apps r)(i \<mapsto> transition_app ?now s a)\<rparr>)"
      using sql_update_state_mirrors [OF m i Some q _ assms(5)] by blast
    have due: "(if IsTerminal s then Some (app_ReKYCDueAt (transition_app ?now s b)) else None) =
        (if IsTerminal s then Some (AddDuration ?now year365) else None)"
      "app_Version (transition_app ?now s b) = app_Version b + 1" for b
      by (simp_all add: transition_app_def Let_def)
    show ?thesis
      using assms(1) d u Some q True t'
      by (auto simp: db_UpdateState_def begin_locked_calm [OF assms(1) i] UpdateState_def scanRow_stored
          ValidateTransition_def write_and_commit_calm time_Now_def Let_def due transition_app_micros)
  qed
qed

lemma db_Reopen_mirrors:
  assumes "calm pg db" and m: "mirrors pg (tables db) r" and i: "pg_uuid pg i = Some i"
    and "version_room r"
    and d: "db_Reopen pg sink i n actor (db, e) = (x, db', e1)"
    and u: "Reopen sink i n actor (r, e) = (y, r', e2)"
  shows "same_outcome x y \<and> mirrors pg (tables db') r' \<and> calm pg db' \<and> e1 = e2"
proof (cases "apps r i")
  case None
  then have "find (\<lambda>q. row_id q = i) (kyc_applications (tables db)) = None"
    using mirrors_find(3) [OF m] by simp
  then show ?thesis
    using assms None by (auto simp: db_Reopen_def begin_locked_calm Reopen_def)
next
  case (Some a)
  then obtain q where q: "find (\<lambda>q. row_id q = i) (kyc_applications (tables db)) = Some q" "stored q a"
    using mirrors_find(2) [OF m] by blast
  show ?thesis
  proof (cases "app_Version a = n \<and> IsTerminal (app_State a)")
    case False
    then show ?thesis
      using assms Some q
      by (auto simp: db_Reopen_def begin_locked_calm Reopen_def scanRow_stored Rollback_def
          bump_def calm_def split: if_splits)
  next
    case True
    let ?now = "clock e (ticks e)"
    have "sint (app_Version a) < 2 ^ 31 - 1" using assms(4) Some by (simp add: version_room_def)
    then obtain t' where t': "sql_reopen pg i ?now (app_Version a + 1) (app_Version a) (tables db) = Inr ((), t')"
      "mirrors pg t' (r\<lparr>apps := (apps r)(i \<mapsto> reopen_app ?now a)\<rparr>)"
      using sql_reopen_mirrors [OF m i Some q] by blast
    have v: "app_Version (reopen_app ?now b) = app_Version b + 1" for b by (simp add: reopen_app_def)
    show ?thesis
      using assms(1) d u Some q True t'
      by (auto simp: db_Reopen_def begin_locked_calm [OF assms(1) i] Reopen_def scanRow_stored
          write_and_commit_calm time_Now_def Let_def v reopen_app_micros)
  qed
qed

lemma db_SetVendor_mirrors:
  assumes "calm pg db" and m: "mirrors pg (tables db) r" and i: "pg_uuid pg i = Some i" and "version_room r"
    and d: "db_SetVendorApplicantID pg i w (db, e) = (db', e1)"
    and u: "SetVendorApplicantID i w (r, e) = (r', e2)"
  shows "mirrors pg (tables db') r' \<and> calm pg db' \<and> e1\<lparr>ticks := 0\<rparr> = e2\<lparr>ticks := 0\<rparr>"
proof (cases "apps r i")
  case None
  have no: "x \<in> set (kyc_applications (tables db)) \<Longrightarrow> row_id x \<noteq> i" for x
    using mirrors_find(3) [OF m, of i] None by (auto simp: find_None_key)
  then have "map (\<lambda>x. if row_id x = i then f x else x) (kyc_applications (tables db)) = kyc_applications (tables db)" for f
    by (intro map_idI) simp
  moreover have "active_unique (kyc_applications (tables db))" using m by (simp add: mirrors_def tables_ok_def)
  ultimately have "sql_set_vendor pg i w now (tables db) = Inr ((), tables db)" for now
    using no by (simp add: sql_set_vendor_def uuid_param_def i sql_update_apps_def)
  then show ?thesis
    using assms None
    by (auto simp: db_SetVendorApplicantID_def SetVendorApplicantID_def time_Now_def Exec_calm)
next
  case (Some a)
  then obtain q where q: "find (\<lambda>q. row_id q = i) (kyc_applications (tables db)) = Some q" "stored q a"
    using mirrors_find(2) [OF m] by blast
  have "sint (app_Version a) < 2 ^ 31 - 1" using assms(4) Some by (simp add: version_room_def)
  then obtain t' where t': "sql_set_vendor pg i w (clock e (ticks e)) (tables db) = Inr ((), t')"
    "mirrors pg t' (r\<lparr>apps := (apps r)(i \<mapsto> vendor_app (clock e (ticks e)) w a)\<rparr>)"
    using sql_set_vendor_mirrors [OF m i Some q] by blast
  then show ?thesis
    using assms(1) d u Some
    by (auto simp: db_SetVendorApplicantID_def SetVendorApplicantID_def time_Now_def Exec_calm)
qed

lemma scanApp_outcome:
  assumes "rel_option stored v w" and "errors_Is err ErrNotFound"
  shows "same_outcome (scanApp (case v of None \<Rightarrow> Inl NoRows | Some q \<Rightarrow> Inr q))
    (case w of None \<Rightarrow> Inl err | Some a \<Rightarrow> Inr a)"
  using assms by (cases v) (auto simp: scanApp_def errNoRows_def option_rel_Some1 scanRow_stored)

lemma db_Get_mirrors:
  assumes "calm pg db" and m: "mirrors pg (tables db) r" and i: "pg_uuid pg i = Some i"
  shows "same_outcome (fst (db_Get pg i db)) (Get i r) \<and> snd (db_Get pg i db) = bump 1 db"
proof -
  have "rel_option stored (find (\<lambda>q. row_id q = i) (kyc_applications (tables db))) (apps r i)"
    using m by (simp add: mirrors_def)
  from scanApp_outcome [OF this, of "Errorf ErrNotFound (''application '' @ i)"] show ?thesis
    by (simp add: db_Get_def QueryRow_calm [OF assms(1)] sql_app_by_id_def uuid_param_def i Get_def)
qed

lemma db_GetByUserID_mirrors:
  assumes "calm pg db" and m: "mirrors pg (tables db) r"
  shows "same_outcome (fst (db_GetByUserID pg u db)) (GetByUserID u r) \<and> snd (db_GetByUserID pg u db) = bump 1 db"
proof -
  have "GetByUserID u r = (case (case byUser r u of None \<Rightarrow> None | Some i \<Rightarrow> apps r i) of
      None \<Rightarrow> Inl (Errorf ErrNotFound (''application for user '' @ u)) | Some a \<Rightarrow> Inr a)"
    by (simp add: GetByUserID_def split: option.splits)
  with scanApp_outcome [OF mirrors_by_user [OF m, of u], of "Errorf ErrNotFound (''application for user '' @ u)"]
  show ?thesis
    by (simp add: db_GetByUserID_def QueryRow_calm [OF assms(1)] sql_app_by_user_def)
qed

section \<open>Creating and listing\<close>

lemma find_filter_distinct:
  "distinct (map key xs) \<Longrightarrow>
     find (\<lambda>x. key x = k) (filter P xs) =
       (case find (\<lambda>x. key x = k) xs of None \<Rightarrow> None | Some x \<Rightarrow> if P x then Some x else None)"
proof (induction xs)
  case (Cons x xs)
  show ?case
  proof (cases "key x = k")
    case True
    then have "k \<notin> key ` set xs" "k \<notin> key ` set (filter P xs)" using Cons.prems by auto
    then have "find (\<lambda>y. key y = k) xs = None" "find (\<lambda>y. key y = k) (filter P xs) = None"
      by (simp_all add: find_None_key)
    with True show ?thesis by simp
  next
    case False
    with Cons show ?thesis by simp
  qed
qed simp

lemma mirrors_all_terminal:
  assumes "mirrors pg t r"
  shows "all_terminal u (apps r) \<longleftrightarrow>
    (\<forall>q \<in> set (kyc_applications t). row_user_id q = u \<longrightarrow> IsTerminal (row_state q))"
proof
  assume "all_terminal u (apps r)"
  then show "\<forall>q \<in> set (kyc_applications t). row_user_id q = u \<longrightarrow> IsTerminal (row_state q)"
    using mirrors_row [OF assms] by (fastforce simp: all_terminal_def stored_iff)
next
  assume rows: "\<forall>q \<in> set (kyc_applications t). row_user_id q = u \<longrightarrow> IsTerminal (row_state q)"
  show "all_terminal u (apps r)"
    unfolding all_terminal_def
  proof (intro allI impI)
    fix i a assume a: "apps r i = Some a" "app_UserID a = u"
    then obtain q where q: "find (\<lambda>q. row_id q = i) (kyc_applications t) = Some q" "stored q a"
      using mirrors_find(2) [OF assms] by blast
    then show "IsTerminal (app_State a)"
      using rows a(2) find_Some_in [OF q(1)] by (auto simp: stored_iff)
  qed
qed

lemma mirrors_forget:
  assumes "mirrors pg t r"
  shows "rel_option stored (find (\<lambda>q. row_id q = i) (filter (\<lambda>q. row_user_id q \<noteq> u) (kyc_applications t)))
    (forget_user u (apps r) i)"
proof -
  have "distinct (map row_id (kyc_applications t))" using assms by (simp add: mirrors_def tables_ok_def)
  moreover have "rel_option stored (find (\<lambda>q. row_id q = i) (kyc_applications t)) (apps r i)"
    using assms by (simp add: mirrors_def)
  ultimately show ?thesis
    by (cases "apps r i")
       (auto simp: find_filter_distinct forget_user_def option_rel_Some2 stored_iff)
qed

lemma db_Create_admit_calm:
  assumes c: "calm pg db" and m: "mirrors pg (tables db) r"
  shows "if all_terminal (app_UserID app) (apps r)
    then \<exists>db1. db_Create_admit pg app db = (None, db1) \<and> calm pg db1 \<and> tables_ok pg (tables db1) \<and>
      kyc_applications (tables db1) = filter (\<lambda>q. row_user_id q \<noteq> app_UserID app) (kyc_applications (tables db))
    else \<exists>err. db_Create_admit pg app db = (Some err, bump 1 db) \<and> errors_Is err ErrDuplicate"
proof -
  let ?u = "app_UserID app" and ?rows = "kyc_applications (tables db)"
  have ok: "tables_ok pg (tables db)" using m by (simp add: mirrors_def)
  show ?thesis
  proof (cases "latest_by row_created_at (filter (\<lambda>q. row_user_id q = ?u) ?rows)")
    case None
    then have none: "\<forall>q \<in> set ?rows. row_user_id q \<noteq> ?u" by (simp add: filter_empty_conv)
    then have "filter (\<lambda>q. row_user_id q \<noteq> ?u) ?rows = ?rows" by simp
    then show ?thesis
      using none None c ok
      by (auto simp: mirrors_all_terminal [OF m] db_Create_admit_def QueryRow_calm sql_app_by_user_def)
  next
    case (Some q)
    then have q: "q \<in> set ?rows" "row_user_id q = ?u" using latest_by_in by fastforce+
    then have only: "x \<in> set ?rows \<Longrightarrow> row_user_id x = ?u \<longleftrightarrow> x = q" for x
      using mirrors_one_row [OF m, of q x] by auto
    have ids: "x \<in> set ?rows \<Longrightarrow> row_id x = row_id q \<longleftrightarrow> x = q" for x
      using ok q(1) by (auto simp: tables_ok_def distinct_map dest: inj_onD)
    have id: "pg_uuid pg (row_id q) = Some (row_id q)" using ok q(1) by (simp add: tables_ok_def)
    have "filter (\<lambda>x. row_id x \<noteq> row_id q) ?rows = filter (\<lambda>x. row_user_id x \<noteq> ?u) ?rows"
      using ids only by (intro filter_cong) auto
    then have del: "kyc_applications (sql_delete_app (row_id q) (tables db)) = filter (\<lambda>x. row_user_id x \<noteq> ?u) ?rows"
      by (simp add: sql_delete_app_def)
    have "all_terminal ?u (apps r) \<longleftrightarrow> IsTerminal (row_state q)"
      using only q by (auto simp: mirrors_all_terminal [OF m])
    then show ?thesis
      using Some c ok del
      by (auto simp: db_Create_admit_def QueryRow_calm sql_app_by_user_def Exec_calm uuid_param_def id
          sql_delete_app_ok)
  qed
qed

text \<open>The arguments for which the two are compared: an unused identifier that the server prints as it is.\<close>

definition creatable :: "Pg \<Rightarrow> ApplicationRepository \<Rightarrow> Application \<Rightarrow> bool" where
  "creatable pg r a \<longleftrightarrow> pg_uuid pg (app_ID a) = Some (app_ID a) \<and> apps r (app_ID a) = None \<and>
     - (2 ^ 31) \<le> sint (app_Version a) \<and> sint (app_Version a) < 2 ^ 31"

definition outcome :: "go_error option \<times> Application \<Rightarrow> go_error + Application" where
  "outcome = (\<lambda>(err, app). case err of Some err \<Rightarrow> Inl err | None \<Rightarrow> Inr app)"

lemma insert_row_ids [simp]: "row_id (insert_row u v app) = u" "row_user_id (insert_row u v app) = app_UserID app"
  by (simp_all add: insert_row_def)

lemma sql_create_Inr:
  assumes "int4_of (app_Version app) = Inr v" and "pg_uuid pg (app_ID app) = Some u"
    and "u \<notin> row_id ` set (kyc_applications t)" and "active_unique (kyc_applications t @ [insert_row u v app])"
  shows "sql_create pg app t = Inr ((), t\<lparr>kyc_applications := kyc_applications t @ [insert_row u v app]\<rparr>)"
  using assms by (simp add: sql_create_def uuid_param_def sql_insert_app_def)

lemma insert_row_stored:
  "int4_of (app_Version app) = Inr v \<Longrightarrow> stored (insert_row (app_ID app) v app) app"
  using int4_of_Inr [of "app_Version app" v]
  by (auto simp: stored_iff insert_row_def text_of_def time_of_def timestamp_def nullableString_def
      nullableTime_def IsZero_def)

lemma db_Create_mirrors:
  assumes "uuid_text pg" and c: "calm pg db" and m: "mirrors pg (tables db) r" and cr: "creatable pg r a"
    and d: "db_Create pg a (db, e) = (x, db', e1)" and u: "Create a (r, e) = (y, r', e2)"
  shows "same_outcome (outcome x) (outcome y) \<and> mirrors pg (tables db') r' \<and> calm pg db' \<and>
    e1\<lparr>ticks := 0\<rparr> = e2\<lparr>ticks := 0\<rparr>"
proof (cases "app_UserID a = ''''")
  case True
  then show ?thesis using assms by (auto simp: db_Create_def Create_def outcome_def)
next
  case False
  have id: "pg_uuid pg (app_ID a) = Some (app_ID a)" "apps r (app_ID a) = None" using cr by (simp_all add: creatable_def)
  then have "app_ID a \<noteq> ''''" using assms(1) by (auto simp: uuid_text_def)
  have inv: "repo_inv r" using m by (simp add: mirrors_def)
  let ?now = "clock e (ticks e)"
  let ?a = "Create_fill ?now a"
  have f: "app_ID ?a = app_ID a" "app_UserID ?a = app_UserID a" by (simp_all add: Create_fill_def)
  note mem = Create_fresh [OF inv id(2) \<open>app_ID a \<noteq> ''''\<close> False, of e]
  note adm = db_Create_admit_calm [OF c m, of ?a, unfolded f]
  show ?thesis
  proof (cases "all_terminal (app_UserID a) (apps r)")
    case no: False
    then obtain e0 e1' where "db_Create_admit pg ?a db = (Some e0, bump 1 db)" "errors_Is e0 ErrDuplicate"
      "Create a (r, e) = ((Some e1', a), r, e)" "errors_Is e1' ErrDuplicate"
      using mem adm by auto
    then show ?thesis
      using d u c m False \<open>app_ID a \<noteq> ''''\<close>
      by (auto simp: db_Create_def time_Now_def outcome_def)
  next
    case True
    then obtain db1 where db1: "db_Create_admit pg ?a db = (None, db1)" "calm pg db1" "tables_ok pg (tables db1)"
      and rows: "kyc_applications (tables db1) = filter (\<lambda>q. row_user_id q \<noteq> app_UserID a) (kyc_applications (tables db))"
      using adm by auto
    obtain v where v: "int4_of (app_Version ?a) = Inr v"
      using cr by (cases "app_Version a = 0") (auto simp: creatable_def int4_of_def Create_fill_def)
    let ?row = "insert_row (app_ID a) v ?a"
    let ?t = "(tables db1)\<lparr>kyc_applications := kyc_applications (tables db1) @ [?row]\<rparr>"
    have fresh: "app_ID a \<notin> row_id ` set (kyc_applications (tables db))"
      using mirrors_find(3) [OF m, of "app_ID a"] id(2) by (simp add: find_None_key)
    have "distinct (map row_user_id (kyc_applications (tables db1)))"
      unfolding rows by (rule distinct_map_filter [OF mirrors_users [OF m]])
    then have "distinct (map row_user_id (kyc_applications (tables db1) @ [?row]))"
      by (auto simp: rows f)
    then have "active_unique (kyc_applications (tables db1) @ [?row])"
      unfolding active_unique_def by (rule distinct_map_filter)
    then have ins: "sql_create pg ?a (tables db1) = Inr ((), ?t)"
      using fresh id(1) v by (intro sql_create_Inr) (auto simp: rows f)
    have "stored ?row ?a" using insert_row_stored [OF v] by (simp only: f)
    moreover have none: "find (\<lambda>q. row_id q = app_ID a) (kyc_applications (tables db1)) = None"
      using fresh by (auto simp: rows find_None_key)
    ultimately have "rel_option stored (find (\<lambda>q. row_id q = i) (kyc_applications ?t))
        (((forget_user (app_UserID a) (apps r))(app_ID a \<mapsto> ?a)) i)" for i
      using mirrors_forget [OF m, of i "app_UserID a"]
      by (cases "i = app_ID a") (auto simp: find_append rows option_rel_Some1 split: option.splits)
    moreover have "tables_ok pg ?t" by (rule sql_create_ok [OF assms(1) db1(3) ins])
    ultimately have "mirrors pg ?t (r\<lparr>apps := (forget_user (app_UserID a) (apps r))(app_ID a \<mapsto> ?a),
        byUser := (byUser r)(app_UserID a \<mapsto> app_ID a)\<rparr>)"
      using repo_inv_create [OF inv id(2) False] by (simp add: mirrors_def)
    then show ?thesis
      using d u mem True False \<open>app_ID a \<noteq> ''''\<close> db1 ins
      by (auto simp: db_Create_def time_Now_def Exec_calm outcome_def)
  qed
qed

lemma stored_due:
  "stored q a \<Longrightarrow> \<lparr>due_ID = row_id q, due_Version = int_of_int4 (row_version q)\<rparr> =
     \<lparr>due_ID = app_ID a, due_Version = app_Version a\<rparr>"
  by (simp add: stored_iff)

text \<open>
  The database compares whole microseconds, so it lists what is due by the end of the present one.
\<close>

lemma db_ListDue_mirrors:
  assumes c: "calm pg db" and m: "mirrors pg (tables db) r" and o: "range_order (apps r) order"
  shows "set (fst (db_ListDueForReKYC pg now db)) = set (ListDueForReKYC order (micros now + 999) r)"
proof -
  have due: "due_by now (row_re_kyc_due_at q) \<and> row_state q \<in> {''PASS'', ''FAIL''} \<longleftrightarrow> is_due (micros now + 999) a"
    if "stored q a" for q a
    using that micros_le_iff [of "app_ReKYCDueAt a" now]
    by (auto simp: stored_iff due_by_def is_due_def After_def IsTerminal_iff timestamp_def nullableTime_def
        IsZero_def StatePass_def StateFail_def)
  show ?thesis
  proof (rule set_eqI)
    fix d
    have "d \<in> set (fst (db_ListDueForReKYC pg now db)) \<longleftrightarrow>
        (\<exists>q \<in> set (kyc_applications (tables db)). due_by now (row_re_kyc_due_at q) \<and>
           row_state q \<in> {''PASS'', ''FAIL''} \<and> d = \<lparr>due_ID = row_id q, due_Version = int_of_int4 (row_version q)\<rparr>)"
      by (auto simp: db_ListDueForReKYC_def Query_calm [OF c] sql_due_def)
    also have "\<dots> \<longleftrightarrow> (\<exists>i a. apps r i = Some a \<and> is_due (micros now + 999) a \<and>
        d = \<lparr>due_ID = app_ID a, due_Version = app_Version a\<rparr>)" (is "?rows \<longleftrightarrow> ?apps")
    proof
      assume ?rows
      then obtain q where q: "q \<in> set (kyc_applications (tables db))"
        "due_by now (row_re_kyc_due_at q) \<and> row_state q \<in> {''PASS'', ''FAIL''}"
        "d = \<lparr>due_ID = row_id q, due_Version = int_of_int4 (row_version q)\<rparr>" by blast
      obtain a where a: "apps r (row_id q) = Some a" "stored q a" using mirrors_row [OF m q(1)] by blast
      show ?apps using a(1) q(2,3) due [OF a(2)] stored_due [OF a(2)] by blast
    next
      assume ?apps
      then obtain i a where a: "apps r i = Some a" "is_due (micros now + 999) a"
        "d = \<lparr>due_ID = app_ID a, due_Version = app_Version a\<rparr>" by blast
      obtain q where q: "find (\<lambda>q. row_id q = i) (kyc_applications (tables db)) = Some q" "stored q a"
        using mirrors_find(2) [OF m a(1)] by blast
      show ?rows using find_Some_in [OF q(1)] a(2,3) due [OF q(2)] stored_due [OF q(2)] by metis
    qed
    also have "\<dots> \<longleftrightarrow> d \<in> set (ListDueForReKYC order (micros now + 999) r)"
      using o by (auto simp: ListDueForReKYC_set range_order_def)
    finally show "d \<in> set (fst (db_ListDueForReKYC pg now db)) \<longleftrightarrow>
        d \<in> set (ListDueForReKYC order (micros now + 999) r)" .
  qed
qed

section \<open>Calls\<close>

text \<open>What the caller gets from either repository, as far as the methods return an application or an error.\<close>

fun db_reply ::
  "Pg \<Rightarrow> 'e World_scheme EventSink \<Rightarrow> db_method \<Rightarrow> Database \<times> 'e World_scheme \<Rightarrow>
     (go_error + Application) option" where
  "db_reply pg sink (MCreate app) s = Some (outcome (fst (db_Create pg app s)))"
| "db_reply pg sink (MGet i) s = Some (fst (db_Get pg i (fst s)))"
| "db_reply pg sink (MGetByUserID u) s = Some (fst (db_GetByUserID pg u (fst s)))"
| "db_reply pg sink (MUpdateState i n st actor reason) s = Some (fst (db_UpdateState pg sink i n st actor reason s))"
| "db_reply pg sink (MReopen i n actor) s = Some (fst (db_Reopen pg sink i n actor s))"
| "db_reply pg sink m s = None"

fun mem_reply ::
  "'e World_scheme EventSink \<Rightarrow> db_method \<Rightarrow> ApplicationRepository \<times> 'e World_scheme \<Rightarrow>
     (go_error + Application) option" where
  "mem_reply sink (MCreate app) s = Some (outcome (fst (Create app s)))"
| "mem_reply sink (MGet i) s = Some (Get i (fst s))"
| "mem_reply sink (MGetByUserID u) s = Some (GetByUserID u (fst s))"
| "mem_reply sink (MUpdateState i n st actor reason) s = Some (fst (UpdateState sink i n st actor reason s))"
| "mem_reply sink (MReopen i n actor) s = Some (fst (Reopen sink i n actor s))"
| "mem_reply sink m s = None"

fun mem_after ::
  "'e World_scheme EventSink \<Rightarrow> db_method \<Rightarrow> ApplicationRepository \<times> 'e World_scheme \<Rightarrow>
     ApplicationRepository \<times> 'e World_scheme" where
  "mem_after sink (MCreate app) s = snd (Create app s)"
| "mem_after sink (MUpdateState i n st actor reason) s = snd (UpdateState sink i n st actor reason s)"
| "mem_after sink (MReopen i n actor) s = snd (Reopen sink i n actor s)"
| "mem_after sink (MSetVendor i w) s = SetVendorApplicantID i w s"
| "mem_after sink m s = s"

text \<open>The methods of \<open>ApplicationRepo\<close>, with identifiers in the form the server prints.\<close>

fun app_call :: "Pg \<Rightarrow> ApplicationRepository \<Rightarrow> db_method \<Rightarrow> bool" where
  "app_call pg r (MCreate app) \<longleftrightarrow> creatable pg r app"
| "app_call pg r (MGet i) \<longleftrightarrow> pg_uuid pg i = Some i"
| "app_call pg r (MGetByUserID u) \<longleftrightarrow> True"
| "app_call pg r (MUpdateState i n st actor reason) \<longleftrightarrow> pg_uuid pg i = Some i"
| "app_call pg r (MReopen i n actor) \<longleftrightarrow> pg_uuid pg i = Some i"
| "app_call pg r (MListDue now) \<longleftrightarrow> True"
| "app_call pg r (MSetVendor i w) \<longleftrightarrow> pg_uuid pg i = Some i"
| "app_call pg r m \<longleftrightarrow> False"

text \<open>
  C18. On a working connection the repository over PostgreSQL refines the one in memory: as long as
  the tables mirror the map, every method of \<open>ApplicationRepo\<close> gives the same answer (the same
  application up to the microseconds of its instants, or an error of the same kind), sends the same
  transition to the sink, and leaves tables that mirror the new map; and the list of what is due is
  the one in memory at the end of the present microsecond. Identifiers have to be in the server's
  form, versions below the limit of an INTEGER and the clock after year 1.
\<close>

theorem database_refines_memory:
  assumes "uuid_text pg" and "calm pg db" and "mirrors pg (tables db) r" and "app_call pg r m"
    and "version_room r" and "0 \<le> clock e (ticks e)"
  shows "rel_option same_outcome (db_reply pg sink m (db, e)) (mem_reply sink m (r, e)) \<and>
    mirrors pg (tables (fst (db_after pg sink m (db, e)))) (fst (mem_after sink m (r, e))) \<and>
    calm pg (fst (db_after pg sink m (db, e))) \<and>
    (snd (db_after pg sink m (db, e)))\<lparr>ticks := 0\<rparr> = (snd (mem_after sink m (r, e)))\<lparr>ticks := 0\<rparr> \<and>
    (\<forall>now order. range_order (apps r) order \<longrightarrow>
       set (fst (db_ListDueForReKYC pg now db)) = set (ListDueForReKYC order (micros now + 999) r))"
proof -
  have due: "\<forall>now order. range_order (apps r) order \<longrightarrow>
       set (fst (db_ListDueForReKYC pg now db)) = set (ListDueForReKYC order (micros now + 999) r)"
    using db_ListDue_mirrors [OF assms(2,3)] by blast
  show ?thesis
  proof (cases m)
    case (MCreate a)
    obtain x db' e1 where d: "db_Create pg a (db, e) = (x, db', e1)" by (rule prod_cases3)
    obtain y r' e2 where u: "Create a (r, e) = (y, r', e2)" by (rule prod_cases3)
    show ?thesis
      using db_Create_mirrors [OF assms(1,2,3) _ d u] assms(4) due d u MCreate by simp
  next
    case (MUpdateState i n s actor reason)
    obtain x db' e1 where d: "db_UpdateState pg sink i n s actor reason (db, e) = (x, db', e1)" by (rule prod_cases3)
    obtain y r' e2 where u: "UpdateState sink i n s actor reason (r, e) = (y, r', e2)" by (rule prod_cases3)
    show ?thesis
      using db_UpdateState_mirrors [OF assms(2,3) _ assms(5,6) d u] assms(4) due d u MUpdateState by simp
  next
    case (MReopen i n actor)
    obtain x db' e1 where d: "db_Reopen pg sink i n actor (db, e) = (x, db', e1)" by (rule prod_cases3)
    obtain y r' e2 where u: "Reopen sink i n actor (r, e) = (y, r', e2)" by (rule prod_cases3)
    show ?thesis
      using db_Reopen_mirrors [OF assms(2,3) _ assms(5) d u] assms(4) due d u MReopen by simp
  next
    case (MSetVendor i w)
    obtain db' e1 where d: "db_SetVendorApplicantID pg i w (db, e) = (db', e1)" by fastforce
    obtain r' e2 where u: "SetVendorApplicantID i w (r, e) = (r', e2)" by fastforce
    show ?thesis
      using db_SetVendor_mirrors [OF assms(2,3) _ assms(5) d u] assms(4) due d u MSetVendor by simp
  next
    case (MListDue now)
    then show ?thesis
      using due assms(2,3) by (simp add: db_ListDueForReKYC_def Query_calm split: sum.splits)
  qed (use assms due db_Get_mirrors [OF assms(2,3)] db_GetByUserID_mirrors [OF assms(2,3)] in auto)
qed

text \<open>The empty database mirrors the empty map; the first application is created in both.\<close>

lemma mirrors_empty: "mirrors pg no_tables NewApplicationRepository"
  by (simp add: mirrors_def no_tables_ok repo_inv_new) (simp add: no_tables_def NewApplicationRepository_def)

theorem database_refines_memory_witness:
  "\<exists>r. mirrors demo_pg (tables (fst (db_after demo_pg noopEventSink
       (MCreate (demo_record ''x'' ''u1'' '''' 0)) (demo_db, demo_world)))) r \<and> app_State (the (apps r ''x'')) = StateStarted"
proof -
  let ?m = "MCreate (demo_record ''x'' ''u1'' '''' 0)"
  have "mirrors demo_pg (tables demo_db) NewApplicationRepository"
    by (simp add: demo_db_def mirrors_empty)
  moreover have "calm demo_pg demo_db" by (simp add: calm_def demo_pg_def)
  moreover have "app_call demo_pg NewApplicationRepository ?m"
    by (simp add: creatable_def demo_pg_def demo_record_def NewApplicationRepository_def)
  moreover have "version_room NewApplicationRepository" by (simp add: version_room_def NewApplicationRepository_def)
  moreover have "0 \<le> clock demo_world (ticks demo_world)" by (simp add: demo_world_def)
  ultimately have "mirrors demo_pg (tables (fst (db_after demo_pg noopEventSink ?m (demo_db, demo_world))))
      (fst (mem_after noopEventSink ?m (NewApplicationRepository, demo_world)))"
    using database_refines_memory [OF demo_pg_uuid_text] by blast
  moreover have "app_State (the (apps (fst (mem_after noopEventSink ?m (NewApplicationRepository, demo_world))) ''x'')) = StateStarted"
    by code_simp
  ultimately show ?thesis by blast
qed

end
