(* ===== verification/DBFaults.thy ===== *)
theory DBFaults
  imports DBMemory "HOL-Library.Multiset"
begin

text \<open>
  The two transactions when statements fail, and what becomes of a document on the way through the
  database.
\<close>

section \<open>Transactions under faults\<close>

text \<open>The row \<open>q\<close> of the tables has been replaced by one that holds \<open>a\<close>, and nothing else has changed.\<close>

definition committed :: "Tables \<Rightarrow> AppRow \<Rightarrow> Application \<Rightarrow> Tables \<Rightarrow> bool" where
  "committed t q a t' \<longleftrightarrow> q \<in> set (kyc_applications t) \<and>
     (\<exists>q'. row_id q' = row_id q \<and> micros_app (scanRow q') = micros_app a \<and>
       t' = t\<lparr>kyc_applications := map (\<lambda>r. if r = q then q' else r) (kyc_applications t)\<rparr>)"

lemma sql_app_by_id_Some:
  assumes "sql_app_by_id pg i t = Inr (Some q)"
  shows "pg_uuid pg i = Some (row_id q) \<and> q \<in> set (kyc_applications t)"
  using assms by (auto simp: sql_app_by_id_def uuid_param_Inr dest!: find_Some_in)

lemma sql_update_apps_committed:
  assumes ok: "tables_ok pg t" and q: "q \<in> set (kyc_applications t)"
    and up: "sql_update_apps (\<lambda>r. row_id r = row_id q \<and> row_version r = row_version q) f t = Inr ((), t')"
    and f: "row_id (f q) = row_id q" "micros_app (scanRow (f q)) = micros_app a"
  shows "committed t q a t'"
proof -
  have "r \<in> set (kyc_applications t) \<Longrightarrow> row_id r = row_id q \<and> row_version r = row_version q \<longleftrightarrow> r = q" for r
    using ok q by (auto simp: tables_ok_def distinct_map dest: inj_onD)
  then have maps: "map (\<lambda>r. if row_id r = row_id q \<and> row_version r = row_version q then f r else r) (kyc_applications t) =
      map (\<lambda>r. if r = q then f q else r) (kyc_applications t)"
    by (intro map_cong) auto
  have "t' = t\<lparr>kyc_applications :=
      map (\<lambda>r. if row_id r = row_id q \<and> row_version r = row_version q then f r else r) (kyc_applications t)\<rparr>"
    using up by (auto simp: sql_update_apps_def Let_def split: if_splits)
  then have "t' = t\<lparr>kyc_applications := map (\<lambda>r. if r = q then f q else r) (kyc_applications t)\<rparr>"
    by (simp only: maps)
  then show ?thesis using q f unfolding committed_def by blast
qed

lemma scanRow_simps [simp]: "app_State (scanRow q) = row_state q" "app_Version (scanRow q) = int_of_int4 (row_version q)"
  by (simp_all add: scanRow_def)

lemma sql_update_state_committed:
  assumes "tables_ok pg t" and "sql_app_by_id pg i t = Inr (Some q)"
    and "sql_update_state pg i s now (app_Version (scanRow q) + 1) (if IsTerminal s then Some now else None)
      (if IsTerminal s then Some (app_ReKYCDueAt (transition_app now s (scanRow q))) else None)
      (app_Version (scanRow q)) t = Inr ((), t')"
  shows "committed t q (transition_app now s (scanRow q)) t'"
proof -
  note q = sql_app_by_id_Some [OF assms(2)]
  obtain v where v: "int4_of (app_Version (scanRow q) + 1) = Inr v"
    using assms(3) by (auto simp: sql_update_state_def split: sum.splits)
  have v': "int_of_int4 v = int_of_int4 (row_version q) + 1" using int4_of_Inr [OF v] by simp
  show ?thesis
    using assms(3) q v v'
    by (auto simp: sql_update_state_def uuid_param_def
        intro!: sql_update_apps_committed [OF assms(1)] elim!: back_subst [where P = "\<lambda>x. x = Inr ((), t')"])
       (auto simp: micros_app_def scanRow_def transition_app_def Let_def time_of_def timestamp_def)
qed

lemma sql_reopen_committed:
  assumes "tables_ok pg t" and "sql_app_by_id pg i t = Inr (Some q)"
    and "sql_reopen pg i now (app_Version (scanRow q) + 1) (app_Version (scanRow q)) t = Inr ((), t')"
  shows "committed t q (reopen_app now (scanRow q)) t'"
proof -
  note q = sql_app_by_id_Some [OF assms(2)]
  obtain v where v: "int4_of (app_Version (scanRow q) + 1) = Inr v"
    using assms(3) by (auto simp: sql_reopen_def split: sum.splits)
  have v': "int_of_int4 v = int_of_int4 (row_version q) + 1" using int4_of_Inr [OF v] by simp
  show ?thesis
    using assms(3) q v v'
    by (auto simp: sql_reopen_def uuid_param_def intro!: sql_update_apps_committed [OF assms(1)])
       (auto simp: micros_app_def scanRow_def reopen_app_def time_of_def)
qed

text \<open>How the two end.\<close>

lemma db_UpdateState_ends:
  assumes "tables_ok pg (tables db)" and "db_UpdateState pg sink i n s actor reason (db, e) = (res, db', e')"
  obtains (unchanged) err where "res = Inl err" "tables db' = tables db" "e' = e \<or> e' = snd (time_Now e)"
  | (moved) q where "pg_uuid pg i = Some (row_id q)" "app_Version (scanRow q) = n" "CanTransition (row_state q) s"
      "committed (tables db) q (transition_app (clock e (ticks e)) s (scanRow q)) (tables db')"
      "res = Inr (transition_app (clock e (ticks e)) s (scanRow q)) \<and>
         e' = sink i (row_state q) s actor reason (snd (time_Now e)) \<or>
       (\<exists>err k. res = Inl err \<and> pg_fault pg (statements db + 3) = Some (AnswerLost k err)) \<and> e' = snd (time_Now e)"
  using db_UpdateState_tables [OF assms(2)] sql_update_state_committed [OF assms(1)] sql_app_by_id_Some
  by (auto simp: time_Now_def Let_def)

lemma db_Reopen_ends:
  assumes "tables_ok pg (tables db)" and "db_Reopen pg sink i n actor (db, e) = (res, db', e')"
  obtains (unchanged) err where "res = Inl err" "tables db' = tables db" "e' = e \<or> e' = snd (time_Now e)"
  | (moved) q where "pg_uuid pg i = Some (row_id q)" "app_Version (scanRow q) = n" "IsTerminal (row_state q)"
      "committed (tables db) q (reopen_app (clock e (ticks e)) (scanRow q)) (tables db')"
      "res = Inr (reopen_app (clock e (ticks e)) (scanRow q)) \<and>
         e' = sink i (row_state q) StateStarted actor ''re-kyc'' (snd (time_Now e)) \<or>
       (\<exists>err k. res = Inl err \<and> pg_fault pg (statements db + 3) = Some (AnswerLost k err)) \<and> e' = snd (time_Now e)"
  using db_Reopen_tables [OF assms(2)] sql_reopen_committed [OF assms(1)] sql_app_by_id_Some
  by (auto simp: time_Now_def Let_def reopen_app_def)

text \<open>
  C31. Whatever fails, \<open>UpdateState\<close> and \<open>Reopen\<close> over PostgreSQL are all or nothing: either they
  succeed, and then exactly the row of the application, at the version asked for, has made one
  allowed move, which was sent to the sink once; or they return an error, send nothing, and have
  left the tables as they were, except when the answer to the COMMIT itself was lost, in which case
  the move is in the tables without a record in the sink.
\<close>

theorem transactions_all_or_nothing:
  assumes ok: "tables_ok pg (tables db)"
    and call: "db_UpdateState pg sink i n s actor reason (db, e) = (res, db', e') \<and>
        move = (\<lambda>a. if CanTransition (app_State a) s then Some (transition_app (clock e (ticks e)) s a) else None) \<and>
        record = (\<lambda>from. sink i from s actor reason) \<or>
      db_Reopen pg sink i n actor (db, e) = (res, db', e') \<and>
        move = (\<lambda>a. if IsTerminal (app_State a) then Some (reopen_app (clock e (ticks e)) a) else None) \<and>
        record = (\<lambda>from. sink i from StateStarted actor ''re-kyc'')"
  shows "(\<exists>q a. res = Inr a \<and> pg_uuid pg i = Some (row_id q) \<and> app_Version (scanRow q) = n \<and>
        move (scanRow q) = Some a \<and> committed (tables db) q a (tables db') \<and>
        e' = record (row_state q) (snd (time_Now e))) \<or>
    (\<exists>err. res = Inl err \<and> (e' = e \<or> e' = snd (time_Now e)) \<and>
       (tables db' = tables db \<or>
        (\<exists>q a k. pg_uuid pg i = Some (row_id q) \<and> app_Version (scanRow q) = n \<and>
           move (scanRow q) = Some a \<and> committed (tables db) q a (tables db') \<and>
           pg_fault pg (statements db + 3) = Some (AnswerLost k err))))"
  using call
proof (elim disjE conjE)
  assume "db_UpdateState pg sink i n s actor reason (db, e) = (res, db', e')"
    and mv: "move = (\<lambda>a. if CanTransition (app_State a) s then Some (transition_app (clock e (ticks e)) s a) else None)"
      "record = (\<lambda>from. sink i from s actor reason)"
  with ok show ?thesis by (cases rule: db_UpdateState_ends) (auto simp: mv)
next
  assume "db_Reopen pg sink i n actor (db, e) = (res, db', e')"
    and mv: "move = (\<lambda>a. if IsTerminal (app_State a) then Some (reopen_app (clock e (ticks e)) a) else None)"
      "record = (\<lambda>from. sink i from StateStarted actor ''re-kyc'')"
  with ok show ?thesis by (cases rule: db_Reopen_ends) (auto simp: mv)
qed

text \<open>The commit of a move is carried out and its answer lost: the row has moved, the caller has an error.\<close>

definition demo_table :: Database where
  "demo_table = \<lparr>tables = no_tables\<lparr>kyc_applications :=
     [insert_row ''x'' 3 (demo_record ''x'' ''u1'' StateStarted 3)]\<rparr>, statements = 0\<rparr>"

definition demo_lost_commit :: Pg where
  "demo_lost_commit = demo_pg\<lparr>pg_fault := (\<lambda>k. if k = 3 then Some (AnswerLost 0 (Plain ''eof'')) else None)\<rparr>"

lemma demo_table_ok: "tables_ok demo_lost_commit (tables demo_table)" "tables_ok demo_pg (tables demo_table)"
  by (simp_all add: tables_ok_def demo_table_def no_tables_def active_unique_def demo_lost_commit_def demo_pg_def
      row_active_def insert_row_def demo_record_def)

theorem transactions_all_or_nothing_witness:
  "\<exists>db' e'. db_UpdateState demo_lost_commit noopEventSink ''x'' 3 StateDocumentsUploaded ''system'' '''' (demo_table, demo_world)
       = (Inl (Plain ''eof''), db', e') \<and>
     map row_state (kyc_applications (tables db')) = [StateDocumentsUploaded] \<and>
     (\<exists>q a. committed (tables demo_table) q a (tables db'))"
proof -
  let ?r = "db_UpdateState demo_lost_commit noopEventSink ''x'' 3 StateDocumentsUploaded ''system'' '''' (demo_table, demo_world)"
  have f: "fst ?r = Inl (Plain ''eof'')" by code_simp
  have m: "map row_state (kyc_applications (tables (fst (snd ?r)))) = [StateDocumentsUploaded]" by code_simp
  have d: "map row_state (kyc_applications (tables demo_table)) = [StateStarted]" by code_simp
  have ne: "tables (fst (snd ?r)) \<noteq> tables demo_table"
  proof
    assume "tables (fst (snd ?r)) = tables demo_table"
    then have "[StateDocumentsUploaded] = [StateStarted]" using m d by simp
    then show False by (simp add: StateDocumentsUploaded_def StateStarted_def)
  qed
  obtain db' e' where r: "?r = (Inl (Plain ''eof''), db', e')" using f by (metis prod.collapse)
  with transactions_all_or_nothing [OF demo_table_ok(1) disjI1 [OF conjI [OF r conjI [OF refl refl]]]] ne
  have "\<exists>q a. committed (tables demo_table) q a (tables db')" by auto
  then show ?thesis using r m by auto
qed

section \<open>Documents through the database\<close>

text \<open>What is stored of a document whose identifiers the server prints as \<open>d\<close> and \<open>u\<close>.\<close>

definition stored_doc :: "string \<Rightarrow> string \<Rightarrow> Document \<Rightarrow> Document" where
  "stored_doc d u doc =
     doc\<lparr>doc_ID := d, doc_ApplicationID := u, doc_UploadedAt := micros (doc_UploadedAt doc),
         doc_RetentionUntil := micros (doc_RetentionUntil doc)\<rparr>"

lemma scanDoc_row: "scanDoc (doc_row d u doc) = stored_doc d u doc"
  by (simp add: scanDoc_def doc_row_def stored_doc_def b64_decode_encode)

lemma dbdoc_List_calm:
  "calm pg db \<Longrightarrow> pg_uuid pg i = Some u \<Longrightarrow> fst (dbdoc_List pg i db) =
     map scanDoc (sort_key drow_uploaded_at (filter (\<lambda>d. drow_application_id d = u) (documents (tables db))))"
  by (simp add: dbdoc_List_def Query_calm sql_docs_def uuid_param_def)

lemma dbdoc_Add_calm:
  "calm pg db \<Longrightarrow> calm pg (dbdoc_Add pg i doc db)"
  by (auto simp: dbdoc_Add_def Exec_calm split: sum.splits)

lemma dbdoc_List_sorted:
  assumes "calm pg db" and "pg_uuid pg i = Some u"
  shows "sorted (map doc_UploadedAt (fst (dbdoc_List pg i db)))"
proof -
  have "map doc_UploadedAt (map scanDoc ds) = map drow_uploaded_at ds" for ds
    by (simp add: scanDoc_def)
  then show ?thesis by (simp add: dbdoc_List_calm [OF assms] del: map_map)
qed

text \<open>
  C39. On a working connection, a document added to an application that exists, under an unused
  identifier, comes back from \<open>List\<close> with exactly its content and its instants to the microsecond,
  beside the documents that were there, in the order of upload, and changes no other application's
  list. A document for an application that does not exist is dropped, and so is, on any connection,
  one whose INSERT the server refuses; \<open>Add\<close> has no error to tell the caller by.
\<close>

theorem document_round_trip:
  assumes c: "calm pg db" and i: "pg_uuid pg i = Some u" and d: "pg_uuid pg (doc_ID doc) = Some d"
    and fresh: "d \<notin> drow_id ` set (documents (tables db))"
  shows "(if has_app u (tables db)
    then mset (fst (dbdoc_List pg i (dbdoc_Add pg i doc db))) =
        add_mset (stored_doc d u doc) (mset (fst (dbdoc_List pg i db))) \<and>
      doc_Content (stored_doc d u doc) = doc_Content doc \<and>
      sorted (map doc_UploadedAt (fst (dbdoc_List pg i (dbdoc_Add pg i doc db)))) \<and>
      (\<forall>j v. pg_uuid pg j = Some v \<and> v \<noteq> u \<longrightarrow>
         fst (dbdoc_List pg j (dbdoc_Add pg i doc db)) = fst (dbdoc_List pg j db))
    else tables (dbdoc_Add pg i doc db) = tables db) \<and>
    (\<forall>pg' db' err. pg_fault pg' (statements db') = Some (Refused err) \<longrightarrow>
       tables (dbdoc_Add pg' i doc db') = tables db')"
proof -
  note c' = dbdoc_Add_calm [OF c, of i doc]
  have add: "tables (dbdoc_Add pg i doc db) =
      (if has_app u (tables db) then (tables db)\<lparr>documents := documents (tables db) @ [doc_row d u doc]\<rparr> else tables db)"
    using fresh by (simp add: dbdoc_Add_def Exec_calm c sql_add_doc_def uuid_param_def i d sql_insert_doc_def doc_row_def)
  have "mset (map scanDoc (sort_key drow_uploaded_at xs)) = image_mset scanDoc (mset xs)" for xs by simp
  moreover have "drow_application_id (doc_row d u doc) = u" by (simp add: doc_row_def)
  moreover have "tables (dbdoc_Add pg' i doc db') = tables db'" if "pg_fault pg' (statements db') = Some (Refused err)"
    for pg' db' err
    using that by (simp add: dbdoc_Add_def Exec_def)
  ultimately show ?thesis
    using dbdoc_List_sorted [OF c' i]
    by (auto simp: add dbdoc_List_calm [OF c' i] dbdoc_List_calm [OF c i] dbdoc_List_calm [OF c']
        dbdoc_List_calm [OF c] scanDoc_row stored_doc_def)
qed

text \<open>A photograph for the application of \<open>demo_table\<close>.\<close>

definition demo_photo :: Document where
  "demo_photo = \<lparr>doc_ID = ''d'', doc_ApplicationID = ''x'', doc_Type = ''SELFIE'', doc_Content = [255, 0, 7],
     doc_UploadedAt = 1234567, doc_RetentionUntil = 9999999\<rparr>"

theorem document_round_trip_witness:
  "mset (fst (dbdoc_List demo_pg ''x'' (dbdoc_Add demo_pg ''x'' demo_photo demo_table))) =
     {# demo_photo\<lparr>doc_UploadedAt := 1234000, doc_RetentionUntil := 9999000\<rparr> #}"
proof -
  have p: "calm demo_pg demo_table" "pg_uuid demo_pg ''x'' = Some ''x''"
    "pg_uuid demo_pg (doc_ID demo_photo) = Some ''d''" "''d'' \<notin> drow_id ` set (documents (tables demo_table))"
    by (simp_all add: calm_def demo_pg_def demo_photo_def demo_table_def no_tables_def)
  have a: "has_app ''x'' (tables demo_table)" by (simp add: has_app_def demo_table_def)
  have l: "fst (dbdoc_List demo_pg ''x'' demo_table) = []"
    unfolding dbdoc_List_calm [OF p(1,2)] by (simp add: demo_table_def no_tables_def)
  have s: "stored_doc ''d'' ''x'' demo_photo = demo_photo\<lparr>doc_UploadedAt := 1234000, doc_RetentionUntil := 9999000\<rparr>"
    by (simp add: stored_doc_def demo_photo_def micros_def)
  show ?thesis using document_round_trip [OF p] a l s by simp
qed

end
