(* ===== verification/DBTrail.thy ===== *)
theory DBTrail
  imports DBFaults "HOL-Library.Sublist"
begin

text \<open>
  The audit trail of applications that live in PostgreSQL. Every call of the repositories, whichever
  of its statements fail, keeps an invariant of the tables and the log: the recorded transitions of a
  row are those of a legal path from where the row came from to the state it is in, all of them unless
  a COMMIT lost its answer. A process may take over tables that another one has left.
\<close>

section \<open>Calls that leave the states alone\<close>

text \<open>Every row of \<open>t'\<close> was in \<open>t\<close>, with the same user, state and dates.\<close>

definition rows_kept :: "Tables \<Rightarrow> Tables \<Rightarrow> bool" where
  "rows_kept t t' \<longleftrightarrow> (\<forall>r' \<in> set (kyc_applications t'). \<exists>r \<in> set (kyc_applications t).
     row_id r = row_id r' \<and> row_user_id r = row_user_id r' \<and> row_state r = row_state r' \<and>
     row_re_kyc_due_at r = row_re_kyc_due_at r' \<and> row_decided_at r = row_decided_at r')"

lemma rows_kept_refl [simp]: "rows_kept t t"
  by (auto simp: rows_kept_def)

lemma rows_kept_rows: "kyc_applications t' = kyc_applications t \<Longrightarrow> rows_kept t t'"
  by (auto simp: rows_kept_def)

lemma Exec_preserves:
  assumes "Exec pg stmt db = (res, db')" and "P (tables db)" and "\<And>x t'. stmt (tables db) = Inr (x, t') \<Longrightarrow> P t'"
  shows "P (tables db')"
  using Exec_tables [OF assms(1)] assms(2,3) by auto

lemma Exec_kept:
  assumes "\<And>x t'. stmt (tables db) = Inr (x, t') \<Longrightarrow> rows_kept (tables db) t'"
  shows "rows_kept (tables db) (tables (snd (Exec pg stmt db)))"
  using Exec_tables [OF surjective_pairing, of pg stmt db] assms by auto

lemma sql_set_vendor_kept: "sql_set_vendor pg i w now t = Inr (x, t') \<Longrightarrow> rows_kept t t'"
  by (auto simp: sql_set_vendor_def uuid_param_Inr sql_update_apps_def Let_def rows_kept_def split: if_splits) blast+

lemma sql_evidence_kept:
  "sql_add_doc pg i doc t = Inr (x, t') \<Longrightarrow> rows_kept t t'"
  "sql_add_live pg i s t = Inr (x, t') \<Longrightarrow> rows_kept t t'"
  "sql_sweep_docs now t = Inr (n, t') \<Longrightarrow> rows_kept t t'"
  "sql_sweep_live now t = Inr (n, t') \<Longrightarrow> rows_kept t t'"
  by (auto simp: sql_add_doc_def sql_add_live_def uuid_param_Inr sql_insert_doc_def sql_insert_live_def
      sql_sweep_docs_def sql_sweep_live_def split: if_splits intro: rows_kept_rows)

text \<open>The methods other than the three that move an application from one state to another.\<close>

fun moves_state :: "db_method \<Rightarrow> bool" where
  "moves_state (MCreate a) = True"
| "moves_state (MUpdateState i n s actor reason) = True"
| "moves_state (MReopen i n actor) = True"
| "moves_state _ = False"

lemma db_after_kept:
  assumes "\<not> moves_state m"
  shows "rows_kept (tables db) (tables (fst (db_after pg sink m (db, e)))) \<and>
    (snd (db_after pg sink m (db, e)) = e \<or> snd (db_after pg sink m (db, e)) = snd (time_Now e))"
proof (cases m)
  case (MSetVendor i w)
  then show ?thesis
    using Exec_kept [of "sql_set_vendor pg i w (clock e (ticks e))" db pg, OF sql_set_vendor_kept]
    by (simp add: db_SetVendorApplicantID_def time_Now_def)
next
  case (MAddDoc i d)
  then show ?thesis
    using Exec_kept [of "sql_add_doc pg i d" db pg, OF sql_evidence_kept(1)] by (simp add: dbdoc_Add_def)
next
  case (MAddLive i l)
  then show ?thesis
    using Exec_kept [of "sql_add_live pg i l" db pg, OF sql_evidence_kept(2)] by (simp add: dblive_Add_def)
next
  case (MSweepDocs now)
  have "snd (dbdoc_SweepExpired pg now db) = snd (Exec pg (sql_sweep_docs now) db)"
    by (auto simp: dbdoc_SweepExpired_def split: prod.splits sum.splits)
  then show ?thesis
    using MSweepDocs Exec_kept [of "sql_sweep_docs now" db pg, OF sql_evidence_kept(3)] by simp
next
  case (MSweepLive now)
  have "snd (dblive_SweepExpired pg now db) = snd (Exec pg (sql_sweep_live now) db)"
    by (auto simp: dblive_SweepExpired_def split: prod.splits sum.splits)
  then show ?thesis
    using MSweepLive Exec_kept [of "sql_sweep_live now" db pg, OF sql_evidence_kept(4)] by simp
next
  case (MListDue now)
  then show ?thesis
    using Query_tables [of pg "sql_due now" db] by (simp add: db_ListDueForReKYC_def case_prod_unfold)
next
  case (MListDocs i)
  then show ?thesis
    using Query_tables [of pg "sql_docs pg i" db] by (simp add: dbdoc_List_def case_prod_unfold)
next
  case (MHasDocs i)
  then show ?thesis by (simp add: dbdoc_HasRequiredDocs_def has_types_tables del: has_types.simps)
next
  case (MGet i)
  then show ?thesis
    using QueryRow_tables [OF surjective_pairing, of pg "sql_app_by_id pg i" db] by (simp add: db_Get_def split_beta)
next
  case (MGetByUserID u)
  then show ?thesis
    using QueryRow_tables [OF surjective_pairing, of pg "sql_app_by_user u" db]
    by (simp add: db_GetByUserID_def split_beta)
next
  case (MLatest i)
  then show ?thesis
    using QueryRow_tables [OF surjective_pairing, of pg "sql_latest_live pg i" db]
    by (simp add: dblive_Latest_def split_beta split: sum.split)
qed (use assms in simp_all)

section \<open>Creation\<close>

lemma delete_subset:
  assumes "Exec pg (\<lambda>t. uuid_param pg u (\<lambda>u. Inr ((), sql_delete_app u t))) db = (res, db')"
  shows "set (kyc_applications (tables db')) \<subseteq> set (kyc_applications (tables db))"
  by (rule Exec_preserves [OF assms]) (auto simp: uuid_param_Inr sql_delete_app_def)

lemma admit_subset:
  assumes "db_Create_admit pg app db = (x, db')"
  shows "set (kyc_applications (tables db')) \<subseteq> set (kyc_applications (tables db))"
proof (cases "QueryRow pg (sql_app_by_user (app_UserID app)) db")
  case (Pair row db1)
  have t: "tables db1 = tables db" using Pair by (rule QueryRow_tables)
  show ?thesis
  proof (cases row)
    case (Inl err)
    with assms Pair t show ?thesis by (cases err) (auto simp: db_Create_admit_def)
  next
    case (Inr r)
    obtain y db2 where d: "Exec pg (\<lambda>t. uuid_param pg (row_id r) (\<lambda>u. Inr ((), sql_delete_app u t))) db1 = (y, db2)"
      by fastforce
    with assms Pair t Inr delete_subset [OF d] show ?thesis
      by (cases y) (auto simp: db_Create_admit_def split: if_splits)
  qed
qed

lemma db_Create_rows:
  assumes "db_Create pg a (db, e) = (res, db', e')" and "draft a"
    and "r \<in> set (kyc_applications (tables db'))"
  shows "r \<in> set (kyc_applications (tables db)) \<or> pg_uuid pg (app_ID a) = Some (row_id r) \<and> row_user_id r = app_UserID a \<and> row_state r = StateStarted \<and>
      row_re_kyc_due_at r = None \<and> row_decided_at r = None"
proof -
  obtain now e1 where now: "time_Now e = (now, e1)" by fastforce
  let ?app = "Create_fill now a"
  obtain x db1 where ad: "db_Create_admit pg ?app db = (x, db1)" by fastforce
  obtain y db2 where c: "Exec pg (sql_create pg ?app) db1 = (y, db2)" by fastforce
  have st: "app_State ?app = StateStarted" "app_ID ?app = app_ID a" "app_UserID ?app = app_UserID a"
    "app_DecidedAt ?app = 0" "app_ReKYCDueAt ?app = 0"
    using assms(2) by (auto simp: Create_fill_def draft_def)
  have new: "r \<in> set (kyc_applications (tables db1)) \<or> pg_uuid pg (app_ID a) = Some (row_id r) \<and> row_user_id r = app_UserID a \<and> row_state r = StateStarted \<and>
      row_re_kyc_due_at r = None \<and> row_decided_at r = None"
    if "r \<in> set (kyc_applications (tables db2))"
    using that
    by (rule Exec_preserves [OF c, where P = "\<lambda>t. r \<in> set (kyc_applications t) \<longrightarrow> _", rule_format, rotated 2])
       (use st in \<open>auto simp: sql_create_def uuid_param_Inr sql_insert_app_def insert_row_def nullableTime_def timestamp_def IsZero_def
         simp del: Create_fill_fields split: sum.splits if_splits\<close>)
  have "tables db' \<in> {tables db, tables db1, tables db2}"
    using assms(1) now ad c by (auto simp: db_Create_def Let_def split: if_splits option.splits sum.splits)
  then show ?thesis using assms(3) admit_subset [OF ad] new by auto
qed

lemma db_Create_world:
  "db_Create pg a (db, e) = (res, db', e') \<Longrightarrow> e' = e \<or> e' = snd (time_Now e)"
  by (auto simp: db_Create_def Let_def time_Now_def split: if_splits option.splits sum.splits prod.splits)

section \<open>The invariant of tables and log\<close>

text \<open>What any run keeps of the data alone.\<close>

definition data_ok :: "Pg \<Rightarrow> Tables \<Rightarrow> bool" where
  "data_ok pg t \<longleftrightarrow> tables_ok pg t \<and>
     (\<forall>r \<in> set (kyc_applications t).
        row_user_id r \<noteq> '''' \<and> known_state (row_state r) \<and> dates_ok (micros_app (scanRow r)))"

lemma data_ok_no_tables: "data_ok pg no_tables"
  using no_tables_ok [of pg] by (simp add: data_ok_def) (simp add: no_tables_def)

text \<open>
  The transitions that the log has for the row \<open>u\<close>. The service records an event under the
  identifier of its request, of which PostgreSQL accepts several spellings.
\<close>

definition trail :: "Pg \<Rightarrow> string \<Rightarrow> AuditEvent list \<Rightarrow> (any option \<times> any option) list" where
  "trail pg u evs =
     map event_transition
       (filter (\<lambda>ev. ev_Action ev = ''state_transition'' \<and> pg_uuid pg (ev_Aggregate ev) = Some u) evs)"

fun trail_entry :: "Pg \<Rightarrow> string \<Rightarrow> (string \<times> State \<times> State) option \<Rightarrow> (any option \<times> any option) list" where
  "trail_entry pg u None = []"
| "trail_entry pg u (Some (i, f, t)) =
     (if pg_uuid pg i = Some u then [(Some (AString f), Some (AString t))] else [])"

lemma trail_Nil [simp]: "trail pg u [] = []"
  by (simp add: trail_def)

text \<open>The events of a step carry one transition or none.\<close>

lemma one_transition:
  assumes "\<And>j. transitions_of j evs = transition_entry j tr"
  shows "trail pg u evs = trail_entry pg u tr"
proof -
  define ts where "ts = filter (\<lambda>ev. ev_Action ev = ''state_transition'') evs"
  have of_agg: "map event_transition (filter (\<lambda>ev. ev_Aggregate ev = j) ts) = transition_entry j tr" for j
    using assms [of j] by (simp add: transitions_of_def ts_def conj_commute)
  have tr: "trail pg u evs = map event_transition (filter (\<lambda>ev. pg_uuid pg (ev_Aggregate ev) = Some u) ts)"
    by (simp add: trail_def ts_def conj_commute)
  have in_tr: "transition_entry (ev_Aggregate ev) tr \<noteq> []" if "ev \<in> set ts" for ev
    using that of_agg [of "ev_Aggregate ev"] by (auto simp: filter_empty_conv)
  show ?thesis
  proof (cases tr)
    case None
    with in_tr have "ts = []" by (cases ts) auto
    with None show ?thesis by (simp add: tr)
  next
    case (Some p)
    obtain i f t where p: "p = (i, f, t)" by (cases p)
    have agg: "ev_Aggregate ev = i" if "ev \<in> set ts" for ev
      using in_tr [OF that] by (simp add: Some p split: if_splits)
    then have "filter (\<lambda>ev. ev_Aggregate ev = i) ts = ts" by (simp add: filter_id_conv)
    with of_agg [of i] have ts: "map event_transition ts = [(Some (AString f), Some (AString t))]" by (simp add: Some p)
    show ?thesis
    proof (cases "pg_uuid pg i = Some u")
      case True
      with agg have "filter (\<lambda>ev. pg_uuid pg (ev_Aggregate ev) = Some u) ts = ts" by (auto simp: filter_id_conv)
      with ts True show ?thesis by (simp add: tr Some p)
    next
      case False
      with agg have "filter (\<lambda>ev. pg_uuid pg (ev_Aggregate ev) = Some u) ts = []" by (auto simp: filter_empty_conv)
      with False show ?thesis by (simp add: tr Some p)
    qed
  qed
qed

lemma logs_trail:
  assumes "logs tr e e'"
  shows "trail pg u (audit_events e') = trail pg u (audit_events e) @ trail_entry pg u tr"
proof -
  obtain rest where "audit_events e' = audit_events e @ rest" "\<And>j. transitions_of j rest = transition_entry j tr"
    using assms by (auto simp: logs_def)
  moreover from this(2) have "trail pg u rest = trail_entry pg u tr" by (rule one_transition)
  ultimately show ?thesis by (simp add: trail_def)
qed

text \<open>
  The rows a process found, with the states they were in; a row it has created itself comes from
  \<open>STARTED\<close>. The identifiers it draws are not among those it found.
\<close>

type_synonym found = "string \<rightharpoonup> State"

definition found_in :: "Tables \<Rightarrow> found" where
  "found_in t = map_of (map (\<lambda>r. (row_id r, row_state r)) (kyc_applications t))"

definition origin :: "found \<Rightarrow> string \<Rightarrow> State" where
  "origin found u = (case found u of None \<Rightarrow> StateStarted | Some s \<Rightarrow> s)"

definition may_lose :: "Pg \<Rightarrow> bool" where
  "may_lose pg \<longleftrightarrow> (\<exists>k n err. pg_fault pg k = Some (AnswerLost n err))"

text \<open>A legal path to the state of the row, whose recorded steps are those in the log.\<close>

definition follows :: "Pg \<Rightarrow> found \<Rightarrow> AuditEvent list \<Rightarrow> AppRow \<Rightarrow> bool" where
  "follows pg found evs r \<longleftrightarrow>
     (\<exists>path. replay (origin found (row_id r)) path = Some (row_state r) \<and>
        subseq (trail pg (row_id r) evs) path \<and>
        (\<not> may_lose pg \<longrightarrow> path = trail pg (row_id r) evs))"

definition known_id :: "found \<Rightarrow> 'e AuditEnv_scheme \<Rightarrow> string \<Rightarrow> bool" where
  "known_id found e u \<longleftrightarrow> found u \<noteq> None \<or> issued_id e u"

definition fresh_supply :: "Pg \<Rightarrow> found \<Rightarrow> 'e AuditEnv_scheme \<Rightarrow> bool" where
  "fresh_supply pg found e \<longleftrightarrow>
     inj (uuids e) \<and> (\<forall>k. pg_uuid pg (uuids e k) = Some (uuids e k) \<and> found (uuids e k) = None)"

definition explained :: "Pg \<Rightarrow> found \<Rightarrow> Database \<times> 'e AuditEnv_scheme \<Rightarrow> bool" where
  "explained pg found = (\<lambda>(db, e).
     data_ok pg (tables db) \<and> fresh_supply pg found e \<and>
     (\<forall>r \<in> set (kyc_applications (tables db)).
        known_id found e (row_id r) \<and> follows pg found (audit_events e) r) \<and>
     (\<forall>u. trail pg u (audit_events e) \<noteq> [] \<longrightarrow> known_id found e u))"

section \<open>What keeps it\<close>

lemma dates_ok_row:
  "dates_ok (micros_app (scanRow r)) \<longleftrightarrow>
     (if IsTerminal (row_state r)
      then micros (time_of (row_re_kyc_due_at r)) = AddDuration (micros (time_of (row_decided_at r))) year365
      else micros (time_of (row_decided_at r)) = 0 \<and> micros (time_of (row_re_kyc_due_at r)) = 0)"
  by (simp add: dates_ok_def micros_app_def scanRow_def)

lemma micros_AddDuration_year [simp]: "micros (AddDuration t year365) = AddDuration (micros t) year365"
proof -
  have "(t + 31536000000000 * 1000) div 1000 = 31536000000000 + t div 1000" by (rule div_mult_self1) simp
  then show ?thesis by (simp add: micros_def AddDuration_def sint_year365)
qed

lemma micros_moves:
  "micros_app (transition_app t s a) = transition_app (micros t) s (micros_app a)"
  "micros_app (reopen_app t a) = reopen_app (micros t) (micros_app a)"
  by (simp_all add: micros_app_def transition_app_def reopen_app_def Let_def)

lemma logs_supply:
  assumes "logs tr e e'"
  shows "fresh_supply pg found e \<Longrightarrow> fresh_supply pg found e'" and "known_id found e u \<Longrightarrow> known_id found e' u"
  using logs_env_le [OF assms] by (auto simp: fresh_supply_def known_id_def env_le_def intro: issued_id_mono)

lemma follows_quiet:
  "logs None e e' \<Longrightarrow> follows pg found (audit_events e') r = follows pg found (audit_events e) r"
  by (simp add: follows_def logs_trail)

lemma data_ok_kept:
  "data_ok pg t \<Longrightarrow> rows_kept t t' \<Longrightarrow> tables_ok pg t' \<Longrightarrow> data_ok pg t'"
  by (fastforce simp: data_ok_def rows_kept_def dates_ok_row)

lemma explained_kept:
  assumes "explained pg found (db, e)" and "rows_kept (tables db) (tables db')" and "tables_ok pg (tables db')"
    and "logs None e e'"
  shows "explained pg found (db', e')"
proof -
  have "follows pg found (audit_events e') r'"
    if "follows pg found (audit_events e) r" "row_id r = row_id r'" "row_state r = row_state r'" for r r'
    using that follows_quiet [OF assms(4)] by (simp add: follows_def)
  with assms show ?thesis
    by (fastforce simp: explained_def data_ok_kept logs_trail [OF assms(4)] rows_kept_def intro: logs_supply [OF assms(4)])
qed

text \<open>A row makes a move; the log has it, or the COMMIT lost its answer.\<close>

lemma follows_moved:
  assumes "follows pg found (audit_events e) q" and "row_id q' = row_id q" and "CanTransition (row_state q) (row_state q')"
    and "logs tr e e'"
    and "tr = Some (i, row_state q, row_state q') \<and> pg_uuid pg i = Some (row_id q) \<or> tr = None \<and> may_lose pg"
  shows "follows pg found (audit_events e') q'"
proof -
  let ?step = "(Some (AString (row_state q)), Some (AString (row_state q')))"
  obtain path where p: "replay (origin found (row_id q)) path = Some (row_state q)"
    "subseq (trail pg (row_id q) (audit_events e)) path"
    "\<not> may_lose pg \<Longrightarrow> path = trail pg (row_id q) (audit_events e)"
    using assms(1) by (auto simp: follows_def)
  have r: "replay (origin found (row_id q)) (path @ [?step]) = Some (row_state q')"
    using p(1) assms(3) by (simp add: replay_append)
  from assms(5) show ?thesis
  proof
    assume t: "tr = Some (i, row_state q, row_state q') \<and> pg_uuid pg i = Some (row_id q)"
    then have "trail pg (row_id q) (audit_events e') = trail pg (row_id q) (audit_events e) @ [?step]"
      by (simp add: logs_trail [OF assms(4)])
    with r p show ?thesis unfolding follows_def assms(2) by (auto intro: list_emb_append_mono)
  next
    assume t: "tr = None \<and> may_lose pg"
    then have "trail pg (row_id q) (audit_events e') = trail pg (row_id q) (audit_events e)"
      by (simp add: logs_trail [OF assms(4)])
    with r p t show ?thesis unfolding follows_def assms(2) by (metis list_emb_append2 subseq_append_iff subseq_order.order_trans list_emb_prefix)
  qed
qed

lemma explained_moved:
  assumes ex: "explained pg found (db, e)" and c: "committed (tables db) q a (tables db')"
    and ok: "tables_ok pg (tables db')"
    and a: "CanTransition (row_state q) (app_State a)" "dates_ok (micros_app a)" "app_UserID a = row_user_id q"
    and l: "logs tr e e'"
    and tr: "tr = Some (i, row_state q, app_State a) \<and> pg_uuid pg i = Some (row_id q) \<or> tr = None \<and> may_lose pg"
  shows "explained pg found (db', e')"
proof -
  obtain q' where q: "q \<in> set (kyc_applications (tables db))" "row_id q' = row_id q" "micros_app (scanRow q') = micros_app a"
    "tables db' = (tables db)\<lparr>kyc_applications := map (\<lambda>r. if r = q then q' else r) (kyc_applications (tables db))\<rparr>"
    using c by (auto simp: committed_def)
  have "app_State (micros_app (scanRow q')) = app_State (micros_app a)"
    "app_UserID (micros_app (scanRow q')) = app_UserID (micros_app a)" using q(3) by simp_all
  then have q': "row_state q' = app_State a" "row_user_id q' = row_user_id q"
    using a(3) by (simp_all add: micros_app_def) (simp add: scanRow_def)
  have qe: "row_user_id q \<noteq> ''''" "known_id found e (row_id q)" "follows pg found (audit_events e) q"
    using ex q(1) by (auto simp: explained_def data_ok_def)
  have rows: "r = q' \<or> r \<in> set (kyc_applications (tables db)) \<and> row_id r \<noteq> row_id q"
    if "r \<in> set (kyc_applications (tables db'))" for r
    using that ex q(1) by (auto simp: q(4) explained_def data_ok_def tables_ok_def distinct_map dest: inj_onD split: if_splits)
  have "data_ok pg (tables db')"
    using ok rows ex qe(1) q' q(3) a(2) CanTransition_known [OF a(1)]
    by (fastforce simp: data_ok_def explained_def)
  moreover have "follows pg found (audit_events e') q'"
    using follows_moved [OF qe(3) q(2) _ l] a(1) tr q'(1) by simp
  moreover have "follows pg found (audit_events e') r"
    if "r \<in> set (kyc_applications (tables db))" "row_id r \<noteq> row_id q" for r
  proof -
    have "trail pg (row_id r) (audit_events e') = trail pg (row_id r) (audit_events e)"
      using that(2) tr by (auto simp: logs_trail [OF l])
    with ex that(1) show ?thesis by (simp add: explained_def follows_def)
  qed
  moreover have "known_id found e' u" if "trail pg u (audit_events e') \<noteq> []" for u
    using that ex tr qe(2) logs_supply(2) [OF l, of found u] by (auto simp: logs_trail [OF l] explained_def split: if_splits)
  ultimately show ?thesis
    using ex rows q(2) qe(2) logs_supply [OF l] by (fastforce simp: explained_def)
qed

section \<open>The calls\<close>

lemma db_after_ok:
  assumes "uuid_text pg" and "tables_ok pg (tables db)" and "db_after pg sink m (db, e) = (db', e')"
  shows "tables_ok pg (tables db')"
  using sql_steps_ok [OF assms(1) db_after_steps assms(2), of sink m e] assms(3) by simp

lemma explained_still:
  assumes "uuid_text pg" and "explained pg found s" and "\<not> moves_state m" and "s' = db_after pg sink m s"
  shows "explained pg found s'"
proof -
  obtain db e db' e' where s: "s = (db, e)" "s' = (db', e')" by (cases s; cases s') blast
  then have c: "db_after pg sink m (db, e) = (db', e')" using assms(4) by simp
  have "rows_kept (tables db) (tables db')" "logs None e e'"
    using db_after_kept [OF assms(3), of db pg sink e] unfolding c by auto
  moreover have "tables_ok pg (tables db')"
    using db_after_ok [OF assms(1), of db sink m e db' e', OF _ c] assms(2) s by (simp add: explained_def data_ok_def)
  ultimately show ?thesis using assms(2) s by (blast intro: explained_kept)
qed

text \<open>A new row comes from \<open>STARTED\<close>, and the log has nothing under its identifier.\<close>

lemma explained_create:
  assumes "uuid_text pg" and ex: "explained pg found (db, e)" and new: "newUUID e = (app_ID a, e1)" and "draft a"
    and c: "db_Create pg a (db, e1) = (res, db', e')"
  shows "explained pg found (db', e')"
proof -
  have e1: "app_ID a = uuids e (issued e)" "e1 = e\<lparr>issued := Suc (issued e)\<rparr>"
    using new by (simp_all add: newUUID_def)
  then have l: "logs None e e'" using db_Create_world [OF c] by (auto intro: logs_frame)
  have issued: "issued e' = Suc (issued e)" "uuids e' = uuids e" using e1(2) db_Create_world [OF c] by auto
  have sup: "fresh_supply pg found e" using ex by (simp add: explained_def)
  have u: "pg_uuid pg (app_ID a) = Some (app_ID a)" "found (app_ID a) = None" "\<not> issued_id e (app_ID a)"
    using sup issued_id_fresh [of e "issued e"] by (simp_all add: fresh_supply_def e1(1))
  then have none: "trail pg (app_ID a) (audit_events e') = []"
    using ex by (auto simp: explained_def known_id_def logs_trail [OF l])
  have ok: "tables_ok pg (tables db')"
    using db_after_ok [OF assms(1), of db noopEventSink "MCreate a" e1 db' e'] ex c by (simp add: explained_def data_ok_def)
  have new_known: "known_id found e' (app_ID a)"
    using issued by (auto simp: known_id_def issued_id_def e1(1))
  have rows: "row_user_id r \<noteq> '''' \<and> known_state (row_state r) \<and> dates_ok (micros_app (scanRow r)) \<and>
      known_id found e' (row_id r) \<and> follows pg found (audit_events e') r"
    if "r \<in> set (kyc_applications (tables db'))" for r
    using db_Create_rows [OF c assms(4) that]
  proof
    assume "r \<in> set (kyc_applications (tables db))"
    then show ?thesis
      using ex logs_supply(2) [OF l] follows_quiet [OF l] by (auto simp: explained_def data_ok_def)
  next
    assume "pg_uuid pg (app_ID a) = Some (row_id r) \<and> row_user_id r = app_UserID a \<and> row_state r = StateStarted \<and>
      row_re_kyc_due_at r = None \<and> row_decided_at r = None"
    then show ?thesis
      using u none assms(4) new_known
      by (auto simp: draft_def dates_ok_row time_of_def known_state_iff follows_def origin_def intro: exI [of _ "[]"])
  qed
  show ?thesis
    using ex ok rows logs_supply [OF l] by (auto simp: explained_def data_ok_def logs_trail [OF l])
qed

context logging_sink
begin

lemma explained_update:
  assumes "uuid_text pg" and ex: "explained pg found (db, e)" and st: "s \<noteq> StateStarted"
    and c: "db_UpdateState pg sink i n s actor reason (db, e) = (res, db', e')"
  shows "explained pg found (db', e')"
proof -
  have ok: "tables_ok pg (tables db)" using ex by (simp add: explained_def data_ok_def)
  have ok': "tables_ok pg (tables db')"
    using db_after_ok [OF assms(1) ok, of sink "MUpdateState i n s actor reason" e db' e'] c by simp
  from ok c show ?thesis
  proof (cases rule: db_UpdateState_ends)
    case unchanged
    then show ?thesis using ok' by (auto intro: explained_kept [OF ex] rows_kept_rows)
  next
    case (moved q)
    let ?a = "transition_app (clock e (ticks e)) s (scanRow q)"
    have q: "dates_ok (micros_app (scanRow q))" using ex moved(4) by (auto simp: explained_def data_ok_def committed_def)
    have d: "dates_ok (micros_app ?a)"
      unfolding micros_moves using moved(3) by (intro dates_ok_transition q st) (simp add: micros_app_def)
    have lg: "logs (Some (i, row_state q, s)) e (sink i (row_state q) s actor reason (snd (time_Now e)))"
      using sink_logs_after_tick by simp
    define tr where "tr = (if \<exists>err. res = Inl err then None else Some (i, row_state q, s))"
    have "logs tr e e' \<and> (tr = Some (i, row_state q, s) \<and> pg_uuid pg i = Some (row_id q) \<or> tr = None \<and> may_lose pg)"
      using moved(1,5) lg by (auto simp: tr_def may_lose_def)
    then show ?thesis
      using explained_moved [OF ex moved(4) ok' _ d] moved(3) by (auto simp: scanRow_def)
  qed
qed

lemma explained_reopen:
  assumes "uuid_text pg" and ex: "explained pg found (db, e)"
    and c: "db_Reopen pg sink i n actor (db, e) = (res, db', e')"
  shows "explained pg found (db', e')"
proof -
  have ok: "tables_ok pg (tables db)" using ex by (simp add: explained_def data_ok_def)
  have ok': "tables_ok pg (tables db')"
    using db_after_ok [OF assms(1) ok, of sink "MReopen i n actor" e db' e'] c by simp
  from ok c show ?thesis
  proof (cases rule: db_Reopen_ends)
    case unchanged
    then show ?thesis using ok' by (auto intro: explained_kept [OF ex] rows_kept_rows)
  next
    case (moved q)
    let ?a = "reopen_app (clock e (ticks e)) (scanRow q)"
    have d: "dates_ok (micros_app ?a)" unfolding micros_moves by (rule dates_ok_reopen)
    have legal: "CanTransition (row_state q) StateStarted" using moved(3) by (auto simp: IsTerminal_iff)
    have lg: "logs (Some (i, row_state q, StateStarted)) e
        (sink i (row_state q) StateStarted actor ''re-kyc'' (snd (time_Now e)))"
      using sink_logs_after_tick by simp
    define tr where "tr = (if \<exists>err. res = Inl err then None else Some (i, row_state q, StateStarted))"
    have "logs tr e e' \<and>
        (tr = Some (i, row_state q, StateStarted) \<and> pg_uuid pg i = Some (row_id q) \<or> tr = None \<and> may_lose pg)"
      using moved(1,5) lg by (auto simp: tr_def may_lose_def)
    then show ?thesis
      using explained_moved [OF ex moved(4) ok' _ d] legal by (auto simp: scanRow_def)
  qed
qed

text \<open>Any call that the service makes of the repositories.\<close>

lemma explained_repo_call:
  assumes "uuid_text pg" and "repo_call (db_repo pg sink) s s'" and "explained pg found s"
  shows "explained pg found s'"
  using assms(2)
proof cases
  case (quiet e e' db)
  then have "explained pg found (db, e)" using assms(3) by simp
  then show ?thesis
    using quiet explained_kept [of pg found db e db e'] by (simp add: explained_def data_ok_def)
next
  case (get i)
  then show ?thesis
    by (intro explained_still [OF assms(1,3), of "MGet i" _ sink]) (cases s; simp add: db_repo_def on_pool_def split_beta)+
next
  case (get_user u)
  then show ?thesis
    by (intro explained_still [OF assms(1,3), of "MGetByUserID u" _ sink]) (cases s; simp add: db_repo_def on_pool_def split_beta)+
next
  case (list_due order now)
  then show ?thesis
    by (intro explained_still [OF assms(1,3), of "MListDue now" _ sink]) (cases s; simp add: db_repo_def on_pool_def split_beta)+
next
  case (vendor i w)
  then show ?thesis
    by (intro explained_still [OF assms(1,3), of "MSetVendor i w" _ sink]) (cases s; simp add: db_repo_def on_pool_def split_beta)+
next
  case (update st i n actor reason)
  then have "explained pg found (snd (db_UpdateState pg sink i n st actor reason s))"
    using explained_update [OF assms(1)] assms(3) by (metis prod.collapse)
  with update show ?thesis by (simp add: db_repo_def)
next
  case (reopen i n actor)
  have "explained pg found (snd (db_Reopen pg sink i n actor s))"
    using explained_reopen [OF assms(1)] assms(3) by (metis prod.collapse)
  with reopen show ?thesis by (simp add: db_repo_def)
next
  case (create e a e1 db)
  then have "explained pg found (snd (db_Create pg a (db, e1)))"
    using explained_create [OF assms(1)] assms(3) by (metis prod.collapse)
  with create show ?thesis by (simp add: db_repo_def)
qed

lemma explained_evidence_call:
  fixes e :: "'x AuditEnv_scheme"
  assumes "uuid_text pg" and "evidence_call (db_docs pg) (db_live pg) db db'" and "explained pg found (db, e)"
  shows "explained pg found (db', e)"
proof -
  have "\<exists>m. \<not> moves_state m \<and> db_after pg sink m (db, e) = (db', e)"
    using assms(2)
  proof cases
    case (add_doc i doc)
    then show ?thesis by (intro exI [of _ "MAddDoc i doc"]) (simp add: db_docs_def)
  next
    case (list_docs i)
    then show ?thesis by (intro exI [of _ "MListDocs i"]) (simp add: db_docs_def)
  next
    case (required i)
    then show ?thesis by (intro exI [of _ "MHasDocs i"]) (simp add: db_docs_def)
  next
    case (sweep_docs order now)
    then show ?thesis by (intro exI [of _ "MSweepDocs now"]) (simp add: db_docs_def)
  next
    case (add_live i l)
    then show ?thesis by (intro exI [of _ "MAddLive i l"]) (simp add: db_live_def)
  next
    case (latest i)
    then show ?thesis by (intro exI [of _ "MLatest i"]) (simp add: db_live_def)
  next
    case (sweep_live order now)
    then show ?thesis by (intro exI [of _ "MSweepLive now"]) (simp add: db_live_def)
  qed
  then show ?thesis using explained_still [OF assms(1,3)] by metis
qed

end

end
