(* ===== verification/DBService.thy ===== *)
theory DBService
  imports DBTrail
begin

text \<open>
  The whole service over PostgreSQL: the services that \<open>newServices\<close> wires when \<open>DB_URL\<close> is set, under
  any requests and background jobs and under any failures of the database. Every handler and job is a
  run of calls (\<open>Service\<close>), and every call keeps the invariant of \<open>DBTrail\<close>. The first request finds
  the tables as an earlier process left them.
\<close>

section \<open>The services over a pool\<close>

definition database_services ::
  "Pg \<Rightarrow> Lib \<Rightarrow> (string \<Rightarrow> duration option) \<Rightarrow> environ \<Rightarrow> StartUp \<Rightarrow> (Database, 'e NetEnv_scheme) Services" where
  "database_services pg lib parse env st =
     \<lparr>sv_Repo = db_repo pg (NewDBApplicationRepo (Some (event_sink_for (st_policy st)))), sv_Docs = db_docs pg,
      sv_Liveness = db_live pg, sv_Screener = screening_client_for lib parse env (st_screening st),
      sv_Webhook = NewWebhookService env True,
      sv_Vendor = Some (vendor_client lib parse env (st_vendor st)), sv_lib = lib, sv_environ = env\<rparr>"

interpretation db_service: service "database_services pg lib parse env st" "vendor_client lib parse env (st_vendor st)"
  for pg lib parse env st
  unfolding service_def database_services_def
  by (simp add: service_axioms_def chosen_screening.screening_client_axioms vendor_contract_chosen)

text \<open>A read sends statements, and leaves the tables alone.\<close>

interpretation db_reads: quiet_reads "database_services pg lib parse env st" tables for pg lib parse env st
proof
  fix i u r and e :: "'x NetEnv_scheme"
  let ?sv = "database_services pg lib parse env st"
  show "tables (fst (snd (repo_Get (sv_Repo ?sv) i (r, e)))) = tables r" "snd (snd (repo_Get (sv_Repo ?sv) i (r, e))) = e"
    by (simp_all add: database_services_def db_repo_def on_pool_def db_Get_def split_beta QueryRow_tables [OF surjective_pairing])
  show "tables (fst (snd (repo_GetByUserID (sv_Repo ?sv) u (r, e)))) = tables r"
    "snd (snd (repo_GetByUserID (sv_Repo ?sv) u (r, e))) = e"
    by (simp_all add: database_services_def db_repo_def on_pool_def db_GetByUserID_def split_beta QueryRow_tables [OF surjective_pairing])
  show "tables (snd (docs_List (sv_Docs ?sv) i r)) = tables r"
    by (simp add: database_services_def db_docs_def dbdoc_List_def split_beta Query_tables)
  show "tables (snd (lives_Latest (sv_Liveness ?sv) i r)) = tables r"
    by (simp add: database_services_def db_live_def dblive_Latest_def split_beta split: sum.split)
       (simp add: QueryRow_tables [OF surjective_pairing])
qed

text \<open>A process over the pool \<open>db\<close>.\<close>

definition database_run ::
  "Pg \<Rightarrow> Lib \<Rightarrow> (string \<Rightarrow> duration option) \<Rightarrow> environ \<Rightarrow> StartUp \<Rightarrow> sys_event list \<Rightarrow> Database \<Rightarrow> 'e NetEnv_scheme \<Rightarrow>
     (Database, 'e NetEnv_scheme) Sys" where
  "database_run pg lib parse env st evs db e =
     sys_run (database_services pg lib parse env st) (vendor_client lib parse env (st_vendor st)) evs (start_sys db e)"

section \<open>Every call keeps the invariant\<close>

lemma explained_sys_calls:
  assumes "uuid_text pg" and "sys_calls (database_services pg lib parse env st) s s'"
    and "explained pg found (s_store s, s_env s)"
  shows "explained pg found (s_store s', s_env s')"
  using assms(2,3) unfolding sys_calls_def
proof (induction rule: rtranclp_induct)
  case (step s1 s2)
  from step(2) show ?case
  proof cases
    case (repo r e)
    with step(3,4) chosen_sink.explained_repo_call [OF assms(1)] show ?thesis
      by (simp add: database_services_def NewDBApplicationRepo_def)
  next
    case (evidence r)
    with step(3,4) chosen_sink.explained_evidence_call [OF assms(1)] show ?thesis
      by (simp add: database_services_def)
  qed (use step(3,4) in simp_all)
qed

lemma explained_start:
  assumes "data_ok pg (tables db)" and "audit_events e = []" and "fresh_supply pg (found_in (tables db)) e"
  shows "explained pg (found_in (tables db)) (db, e)"
proof -
  have "found_in (tables db) (row_id r) = Some (row_state r)" if "r \<in> set (kyc_applications (tables db))" for r
    using that assms(1)
    by (auto simp: found_in_def data_ok_def tables_ok_def comp_def intro!: map_of_is_SomeI)
  then show ?thesis
    using assms by (auto simp: explained_def known_id_def follows_def origin_def intro!: exI [of _ "[]"])
qed

lemma database_run_explained:
  assumes "uuid_text pg" and "data_ok pg (tables db)" and "audit_events e = []"
    and "fresh_supply pg (found_in (tables db)) e"
  shows "explained pg (found_in (tables db))
    (s_store (database_run pg lib parse env st evs db e), s_env (database_run pg lib parse env st evs db e))"
  using explained_sys_calls [OF assms(1) db_service.calls_sys_run, where s = "start_sys db e"]
    explained_start [OF assms(2-4)]
  by (simp add: database_run_def start_sys_def)

section \<open>The trail of a process over PostgreSQL\<close>

text \<open>The last step of a path into a decided state.\<close>

lemma path_decided:
  assumes "replay s path = Some t" and "path \<noteq> []" and "IsTerminal t"
  shows "\<exists>before f. path = before @ [(Some (AString f), Some (AString t))] \<and> f \<in> {StateVendorDecision, StateManualReview}"
proof -
  obtain before x where es: "path = before @ [x]" using assms(2) by (cases path rule: rev_cases) auto
  obtain f where "x = (Some (AString f), Some (AString t))" "CanTransition f t"
    using assms(1) unfolding es by (rule replay_last)
  with CanTransition_to_terminal [of f t] assms(3) es show ?thesis by auto
qed

text \<open>
  C38. The service over PostgreSQL, from tables that an earlier process left in order, under any
  requests, sweeps and re-KYC ticks, with statements refused and answers lost at will: every row is
  reached by a legal path from the state it was found in, or from \<open>STARTED\<close> if this process created
  it, the steps of the path that the log of this process has are in the order of the path, and the
  log has all of them unless the server may lose answers; a path into a decided state ends with the
  step from \<open>VENDOR_DECISION\<close> or \<open>MANUAL_REVIEW\<close>. The tables are left in order for the next process:
  the constraints hold, every application has a user and a known state, and a decided one falls due
  365 days after its decision, while an open one has neither date.
\<close>

theorem database_service_trail:
  assumes "uuid_text pg" and "data_ok pg (tables db)" and "audit_events e = []"
    and "fresh_supply pg (found_in (tables db)) e"
    and "s = database_run pg lib parse env st evs db e"
  shows "data_ok pg (tables (s_store s)) \<and>
    (\<forall>r \<in> set (kyc_applications (tables (s_store s))).
       \<exists>path. replay (origin (found_in (tables db)) (row_id r)) path = Some (row_state r) \<and>
         subseq (trail pg (row_id r) (audit_events (s_env s))) path \<and>
         (\<not> may_lose pg \<longrightarrow> path = trail pg (row_id r) (audit_events (s_env s))) \<and>
         (IsTerminal (row_state r) \<and> path \<noteq> [] \<longrightarrow>
            (\<exists>before f. path = before @ [(Some (AString f), Some (AString (row_state r)))] \<and>
               f \<in> {StateVendorDecision, StateManualReview})))"
proof -
  have ex: "explained pg (found_in (tables db)) (s_store s, s_env s)"
    unfolding assms(5) by (rule database_run_explained [OF assms(1-4)])
  show ?thesis
  proof (intro conjI ballI)
    show "data_ok pg (tables (s_store s))" using ex by (simp add: explained_def)
    fix r assume "r \<in> set (kyc_applications (tables (s_store s)))"
    then have "follows pg (found_in (tables db)) (audit_events (s_env s)) r" using ex by (simp add: explained_def)
    then obtain path where p: "replay (origin (found_in (tables db)) (row_id r)) path = Some (row_state r)"
      "subseq (trail pg (row_id r) (audit_events (s_env s))) path"
      "\<not> may_lose pg \<longrightarrow> path = trail pg (row_id r) (audit_events (s_env s))"
      by (auto simp: follows_def)
    with path_decided [OF p(1)] show "\<exists>path. replay (origin (found_in (tables db)) (row_id r)) path = Some (row_state r) \<and>
         subseq (trail pg (row_id r) (audit_events (s_env s))) path \<and>
         (\<not> may_lose pg \<longrightarrow> path = trail pg (row_id r) (audit_events (s_env s))) \<and>
         (IsTerminal (row_state r) \<and> path \<noteq> [] \<longrightarrow>
            (\<exists>before f. path = before @ [(Some (AString f), Some (AString (row_state r)))] \<and>
               f \<in> {StateVendorDecision, StateManualReview}))"
      by (intro exI [of _ path]) simp
  qed
qed

text \<open>
  A process that finds one application in \<open>SCREENING\<close> and one that passed long ago, over a server that
  takes two spellings of an identifier.
\<close>

definition demo_alias :: Pg where
  "demo_alias = demo_pg\<lparr>pg_uuid := (\<lambda>s. if s = '''' then None else if s = ''A'' then Some ''a'' else Some s)\<rparr>"

definition demo_found :: Database where
  "demo_found = \<lparr>tables = no_tables\<lparr>kyc_applications :=
     [insert_row ''a'' 4 (demo_record ''a'' ''u9'' StateScreening 4),
      insert_row ''b'' 6 (demo_record ''b'' ''u8'' StatePass 6)]\<rparr>, statements = 0\<rparr>"

definition demo_served :: "(Database, NetEnv) Sys" where
  "demo_served = database_run demo_alias demo_lib (\<lambda>_. None) demo_env demo_start
     [HttpRequest ''GET'' [''v1'', ''kyc'', ''applications'', ''A''] (demo_request '''' ''''),
      SweepPass [] [], ReKYCTick []] demo_found demo_world"

lemma demo_alias_found:
  "uuid_text demo_alias" "data_ok demo_alias (tables demo_found)"
  "fresh_supply demo_alias (found_in (tables demo_found)) demo_world"
proof -
  show "uuid_text demo_alias" by (simp add: uuid_text_def demo_alias_def)
  show "data_ok demo_alias (tables demo_found)"
    by (simp add: data_ok_def tables_ok_def demo_found_def no_tables_def active_unique_def demo_alias_def
      row_active_def insert_row_def demo_record_def known_state_iff dates_ok_row time_of_def nullableTime_def
      timestamp_def IsZero_def AddDuration_def sint_year365 micros_def)
  have "found_in (tables demo_found) (uuids demo_world k) = None" "uuids demo_world k \<noteq> ''A''" for k
    by (cases k; simp add: found_in_def demo_found_def insert_row_def demo_record_def demo_world_def)+
  then show "fresh_supply demo_alias (found_in (tables demo_found)) demo_world"
    using demo_world_fresh(1) by (simp add: fresh_supply_def fresh_world_def demo_alias_def)
qed

lemma demo_served_rows:
  "map (\<lambda>r. (row_id r, row_state r)) (kyc_applications (tables (s_store demo_served))) =
     [(''a'', StateScreening), (''b'', StateStarted)]"
  by code_simp

theorem database_service_trail_witness:
  "data_ok demo_alias (tables (s_store demo_served)) \<and>
   replay StatePass (trail demo_alias ''b'' (audit_events (s_env demo_served))) = Some StateStarted"
proof -
  have "(''b'', StateStarted) \<in> set (map (\<lambda>r. (row_id r, row_state r)) (kyc_applications (tables (s_store demo_served))))"
    unfolding demo_served_rows by simp
  then obtain r where r: "r \<in> set (kyc_applications (tables (s_store demo_served)))" "row_id r = ''b''"
    "row_state r = StateStarted" by auto
  have "origin (found_in (tables demo_found)) ''b'' = StatePass"
    by (simp add: origin_def found_in_def demo_found_def insert_row_def demo_record_def)
  moreover have "\<not> may_lose demo_alias" by (simp add: may_lose_def demo_alias_def demo_pg_def)
  moreover have "audit_events demo_world = []" using demo_world_fresh(1) by (simp add: fresh_world_def)
  ultimately show ?thesis
    using database_service_trail [OF demo_alias_found(1,2) _ demo_alias_found(3) demo_served_def] r by auto
qed

text \<open>
  A move that is asked for under another spelling is recorded under that spelling: a reader of the log
  who looks for the identifier in the table does not find it.
\<close>

definition demo_spelled :: "Database \<times> NetEnv" where
  "demo_spelled = snd (db_UpdateState demo_alias (event_sink_for False) ''A'' 4 StateManualReview ''system'' ''''
     (demo_found, demo_world))"

lemma alias_splits_the_log:
  "map (\<lambda>r. (row_id r, row_state r)) (kyc_applications (tables (fst demo_spelled))) =
     [(''a'', StateManualReview), (''b'', StatePass)] \<and>
   transitions_of ''a'' (audit_events (snd demo_spelled)) = [] \<and>
   length (transitions_of ''A'' (audit_events (snd demo_spelled))) = 1"
  by code_simp

end
