(* ===== verification/DBHandlers.thy ===== *)
theory DBHandlers
  imports DBService
begin

text \<open>
  Creating an application and uploading a document over PostgreSQL, through the handlers: what the
  client is told, and what is in the tables, whichever of the statements fail.
\<close>

section \<open>The repository's part\<close>

text \<open>The rows once the user's latest application has made room.\<close>

definition admitted :: "string \<Rightarrow> AppRow list \<Rightarrow> AppRow list" where
  "admitted u rows =
     (case latest_by row_created_at (filter (\<lambda>r. row_user_id r = u) rows) of
        None \<Rightarrow> rows
      | Some q \<Rightarrow> filter (\<lambda>r. row_id r \<noteq> row_id q) rows)"

text \<open>The new row \<open>r\<close>, under the identifier \<open>i\<close>.\<close>

definition new_row :: "string \<Rightarrow> string \<Rightarrow> AppRow \<Rightarrow> bool" where
  "new_row i u r \<longleftrightarrow> row_id r = i \<and> row_user_id r = u \<and> row_state r = StateStarted"

lemma Exec_lost: "Exec pg stmt db = (Inl err, db') \<Longrightarrow> tables db' = tables db \<or> may_lose pg"
  by (auto simp: Exec_def may_lose_def Let_def split: option.splits Fault.splits sum.splits prod.splits)

lemma admit_rows:
  assumes ok: "tables_ok pg (tables db)" and ad: "db_Create_admit pg app db = (x, db1)"
  defines "rows \<equiv> kyc_applications (tables db)" and "rows1 \<equiv> kyc_applications (tables db1)"
  shows "rows1 = admitted (app_UserID app) rows \<and>
      (\<forall>q \<in> set rows. row_user_id q = app_UserID app \<longrightarrow> q \<in> set rows1 \<or> \<not> row_active q) \<or>
    x \<noteq> None \<and> rows1 = rows"
proof -
  obtain row db2 where q: "QueryRow pg (sql_app_by_user (app_UserID app)) db = (row, db2)" by fastforce
  have t: "tables db2 = tables db" using q by (rule QueryRow_tables)
  let ?mine = "filter (\<lambda>r. row_user_id r = app_UserID app) rows"
  show ?thesis
  proof (cases row)
    case (Inl err)
    show ?thesis
    proof (cases err)
      case NoRows
      then have "latest_by row_created_at ?mine = None"
        using q Inl by (auto simp: QueryRow_def Exec_def sql_app_by_user_def rows_def Let_def
            split: option.splits Fault.splits)
      moreover have "db1 = db2" using ad q Inl NoRows by (simp add: db_Create_admit_def)
      ultimately show ?thesis using t by (auto simp: admitted_def rows1_def rows_def filter_empty_conv)
    next
      case (RowError e)
      with ad q Inl t show ?thesis by (auto simp: db_Create_admit_def rows_def rows1_def)
    qed
  next
    case (Inr r)
    then have l: "latest_by row_created_at ?mine = Some r"
      using QueryRow_Inr [of pg "sql_app_by_user (app_UserID app)" db r db2] q by (simp add: sql_app_by_user_def rows_def)
    then have r: "r \<in> set rows" using latest_by_in by fastforce
    show ?thesis
    proof (cases "IsTerminal (row_state r)")
      case False
      with ad q Inr t show ?thesis by (auto simp: db_Create_admit_def rows_def rows1_def)
    next
      case True
      obtain y db3 where d: "Exec pg (\<lambda>t. uuid_param pg (row_id r) (\<lambda>u. Inr ((), sql_delete_app u t))) db2 = (y, db3)"
        by fastforce
      have id: "pg_uuid pg (row_id r) = Some (row_id r)" using ok r by (simp add: tables_ok_def rows_def)
      have db3: "db1 = db3" "y = Inr () \<or> x \<noteq> None"
        using ad q Inr True d by (auto simp: db_Create_admit_def split: sum.splits)
      have "\<not> row_active r" using True by (auto simp: row_active_def IsTerminal_iff StatePass_def StateFail_def)
      moreover have "q \<in> set rows \<Longrightarrow> row_id q = row_id r \<Longrightarrow> q = r" for q
        using ok r by (auto simp: tables_ok_def rows_def distinct_map dest: inj_onD)
      ultimately have deleted: ?thesis if "tables db3 = sql_delete_app (row_id r) (tables db)"
        using that l db3(1) by (auto simp: admitted_def rows1_def rows_def sql_delete_app_def)
      from Exec_tables [OF d] consider "tables db3 = tables db" "\<exists>z. y = Inl z"
        | "tables db3 = sql_delete_app (row_id r) (tables db)"
        by (auto simp: uuid_param_def id t)
      then show ?thesis using db3 deleted by cases (auto simp: rows_def rows1_def)
    qed
  qed
qed

lemma db_Create_ends:
  assumes ok: "tables_ok pg (tables db)" and c: "db_Create pg a (db, e) = ((err, app), db', e')" and "draft a"
    and "app_ID a \<noteq> ''''" and id: "pg_uuid pg (app_ID a) = Some i"
  defines "rows \<equiv> kyc_applications (tables db)" and "rows' \<equiv> kyc_applications (tables db')" and "u \<equiv> app_UserID a"
  obtains (created) r where "err = None" and "app = Create_fill (clock e (ticks e)) a" and "rows' = admitted u rows @ [r]"
      and "new_row i u r" and "\<forall>q \<in> set rows. row_user_id q = u \<longrightarrow> \<not> row_active q"
  | (failed) x where "err = Some x"
      and "rows' = rows \<or> rows' = admitted u rows \<or> may_lose pg \<and> (\<exists>r. rows' = admitted u rows @ [r] \<and> new_row i u r)"
proof -
  let ?app = "Create_fill (clock e (ticks e)) a"
  obtain x db1 where ad: "db_Create_admit pg ?app db = (x, db1)" by fastforce
  obtain y db2 where cr: "Exec pg (sql_create pg ?app) db1 = (y, db2)" by fastforce
  have u: "app_UserID ?app = u" "app_UserID a \<noteq> ''''" "app_ID ?app = app_ID a" "app_State ?app = StateStarted"
    using assms(3) by (auto simp: u_def draft_def)
  note rows1 = admit_rows [OF ok ad, unfolded u(1), folded rows_def]
  have ins: "\<exists>r. kyc_applications t = kyc_applications (tables db1) @ [r] \<and> new_row i u r \<and>
      active_unique (kyc_applications (tables db1) @ [r])"
    if "sql_create pg ?app (tables db1) = Inr (z, t)" for z t
    using that u(1,3,4) id
    by (auto simp: sql_create_def uuid_param_def sql_insert_app_def new_row_def insert_row_def
        simp del: Create_fill_fields split: sum.splits if_splits)
  have parts: "(err, app, db') = (case x of Some z \<Rightarrow> (Some z, ?app, db1)
      | None \<Rightarrow> (case y of Inl z \<Rightarrow> (Some (Errorf ErrDuplicate (error_text z)), ?app, db2) | Inr _ \<Rightarrow> (None, ?app, db2)))"
    using c ad cr u(2) assms(4) by (auto simp: db_Create_def time_Now_def split: option.splits sum.splits)
  show thesis
  proof (cases x)
    case (Some z)
    with parts rows1 show thesis by (intro failed [of z]) (auto simp: rows'_def)
  next
    case None
    then have adm: "kyc_applications (tables db1) = admitted u rows"
      and rest: "\<And>q. q \<in> set rows \<Longrightarrow> row_user_id q = u \<Longrightarrow> q \<in> set (admitted u rows) \<or> \<not> row_active q"
      using rows1 by auto
    show thesis
    proof (cases y)
      case (Inr z)
      then have "sql_create pg ?app (tables db1) = Inr (z, tables db2)" using Exec_Inr cr by metis
      then obtain r where r: "kyc_applications (tables db2) = admitted u rows @ [r]" "new_row i u r"
        "active_unique (admitted u rows @ [r])"
        using ins adm by auto
      have "row_active r" using r(2) by (simp add: new_row_def row_active_def StateStarted_def)
      then have "\<not> row_active q" if "q \<in> set (admitted u rows)" "row_user_id q = u" for q
        using r(2,3) that by (auto simp: active_unique_def new_row_def)
      with rest have "\<forall>q \<in> set rows. row_user_id q = u \<longrightarrow> \<not> row_active q" by blast
      with parts None Inr r show thesis by (intro created [of r]) (auto simp: rows'_def)
    next
      case (Inl z)
      have "kyc_applications (tables db2) = admitted u rows \<or>
          may_lose pg \<and> (\<exists>r. kyc_applications (tables db2) = admitted u rows @ [r] \<and> new_row i u r)"
        using Exec_tables [OF cr] Exec_lost [OF cr [unfolded Inl]] ins adm by auto
      with parts None Inl show thesis
        by (intro failed [of "Errorf ErrDuplicate (error_text z)"]) (auto simp: rows'_def)
    qed
  qed
qed

section \<open>The handler\<close>

text \<open>The vendor's identifier goes to the row of the application, if anywhere.\<close>

lemma register_vendor_rows:
  assumes "pg_uuid pg (app_ID app) = Some i"
  obtains f where "kyc_applications (tables (s_store (register_vendor (database_services pg lib parse env st) ctx app name s))) =
      map f (kyc_applications (tables (s_store s)))"
    and "\<And>r. row_id r \<noteq> i \<Longrightarrow> f r = r" and "\<And>r u. new_row i u r \<Longrightarrow> new_row i u (f r)"
proof -
  let ?V = "vendor_client lib parse env (st_vendor st)"
  let ?sv = "database_services pg lib parse env st"
  obtain res s1 where c: "with_env (vc_CreateApplicant ?V ctx
      \<lparr>va_ApplicationID = app_ID app, va_UserID = app_UserID app, va_FullName = name\<rparr>) s = (res, s1)"
    by fastforce
  have s1: "s_store s1 = s_store s" using with_env_frame(1) c by (metis snd_conv)
  note rule = that
  have same: thesis if "s_store (register_vendor ?sv ctx app name s) = s_store s"
    using that by (intro rule [of id]) simp_all
  show thesis
  proof (cases res)
    case (Inl err)
    with c s1 show thesis by (intro same) (simp add: register_vendor_def database_services_def)
  next
    case (Inr w)
    define s2 where "s2 = on_env (Metrics.count vendorCallsTotal_update 1) s1"
    define now where "now = clock (s_env s2) (ticks (s_env s2))"
    have st: "s_store (register_vendor ?sv ctx app name s) = snd (Exec pg (sql_set_vendor pg (app_ID app) w now) (s_store s))"
      using c Inr s1
      by (simp add: register_vendor_def database_services_def db_repo_def with_repo_def db_SetVendorApplicantID_def
          s2_def now_def split_beta Let_def)
    obtain y db' where ex: "Exec pg (sql_set_vendor pg (app_ID app) w now) (s_store s) = (y, db')" by fastforce
    from Exec_tables [OF ex] show thesis
    proof
      assume "tables db' = tables (s_store s) \<and> (\<exists>err. y = Inl err)"
      with st ex show thesis by (intro that [of id]) simp_all
    next
      assume "\<exists>x. sql_set_vendor pg (app_ID app) w now (tables (s_store s)) = Inr (x, tables db') \<and> (y = Inr x \<or> (\<exists>err. y = Inl err))"
      moreover define g where "g = (\<lambda>r :: AppRow. if row_id r = i
          then r\<lparr>row_vendor_application_id := Some w, row_version := row_version r + 1, row_updated_at := micros now\<rparr> else r)"
      ultimately have "kyc_applications (tables db') = map g (kyc_applications (tables (s_store s)))"
        using assms by (auto simp: sql_set_vendor_def uuid_param_def sql_update_apps_def Let_def g_def split: if_splits
            dest!: sym [of _ "tables db'"])
      with st ex show thesis by (intro rule [of g]) (auto simp: new_row_def g_def)
    qed
  qed
qed

text \<open>
  C34. \<open>createApplicationHandler\<close> over PostgreSQL, whichever statements are refused or lose their
  answer: when it answers 201, the table has exactly one new row, in \<open>STARTED\<close>, under the identifier
  in the answer, for a user who had no undecided application, and the user's latest decided one has
  made room; otherwise it answers with an error, and the table is as before, or the decided
  application is gone, or, only where an answer was lost, the row is there all the same.
\<close>

theorem create_over_database:
  assumes "uuid_text pg" and ok: "tables_ok pg (tables (s_store s))"
    and dec: "decodeJSON lib [''user_id'', ''vendor'', ''full_name''] rq = Inr req" "req ''user_id'' \<noteq> ''''"
    and uid: "uid = uuids (s_env s) (issued (s_env s))" "uid \<noteq> ''''" "pg_uuid pg uid = Some i"
    and h: "createApplicationHandler (database_services pg lib parse env st) rq s = (resp, s')"
    and rows: "rows = kyc_applications (tables (s_store s))" "rows' = kyc_applications (tables (s_store s'))"
  shows "(\<exists>t r. resp = writeJSON 201 (CreateAppBody uid (req ''user_id'') StateStarted t) \<and>
       rows' = admitted (req ''user_id'') rows @ [r] \<and> new_row i (req ''user_id'') r \<and>
       (\<forall>q \<in> set rows. row_user_id q = req ''user_id'' \<longrightarrow> \<not> row_active q)) \<or>
    (\<exists>err. resp = writeError rq err \<and>
       (rows' = rows \<or> rows' = admitted (req ''user_id'') rows \<or>
        may_lose pg \<and> (\<exists>r. rows' = admitted (req ''user_id'') rows @ [r] \<and> new_row i (req ''user_id'') r)))"
proof -
  let ?sv = "database_services pg lib parse env st" and ?u = "req ''user_id''"
  let ?s1 = "s\<lparr>s_env := (s_env s)\<lparr>issued := Suc (issued (s_env s))\<rparr>\<rparr>" and ?a = "new_app uid req"
  have d: "decodeJSON (sv_lib ?sv) [''user_id'', ''vendor'', ''full_name''] rq = Inr req"
    using dec(1) by (simp add: database_services_def)
  obtain err app db' e' where c: "db_Create pg ?a (s_store s, s_env ?s1) = ((err, app), db', e')"
    by (metis prod.collapse)
  let ?s2 = "s\<lparr>s_store := db', s_env := e'\<rparr>"
  have cr: "with_repo (repo_Create (sv_Repo ?sv) ?a) ?s1 = ((err, app), ?s2)"
    using c by (simp add: with_repo_def database_services_def db_repo_def)
  note h' = h [unfolded create_handler [where s = s, OF d dec(2)], folded uid(1), unfolded cr prod.case]
  have a: "draft ?a" "app_ID ?a \<noteq> ''''" "pg_uuid pg (app_ID ?a) = Some i"
    using dec(2) uid by (simp_all add: draft_def) (simp_all add: new_app_def)
  have ok': "tables_ok pg (tables db')"
    using db_after_ok [OF assms(1) ok, of noopEventSink "MCreate ?a" "s_env ?s1" db' e'] c by simp
  from ok c a show ?thesis
  proof (cases rule: db_Create_ends)
    case (created r)
    have app: "app_ID app = uid" "app_UserID app = ?u" "app_State app = StateStarted"
      using created(2) by simp_all
    obtain f where f: "kyc_applications (tables (s_store (register_vendor ?sv (req_ctx rq) app (req ''full_name'') ?s2))) =
        map f (kyc_applications (tables db'))" "\<And>q. row_id q \<noteq> i \<Longrightarrow> f q = q"
      "\<And>q u. new_row i u q \<Longrightarrow> new_row i u (f q)"
      using register_vendor_rows [of pg app i lib parse env st "req_ctx rq" "req ''full_name''" ?s2] uid(3) app(1) by auto
    have "resp = writeJSON 201 (CreateAppBody uid ?u StateStarted (app_CreatedAt app)) \<and>
        rows' = map f (kyc_applications (tables db'))"
      using h' created(1) app f(1) by (auto simp: Let_def rows(2))
    moreover have "map f (kyc_applications (tables db')) = admitted ?u rows @ [f r]"
    proof -
      have "row_id q \<noteq> i" if "q \<in> set (admitted ?u rows)" for q
        using ok' created(3,4) imageI [OF that, of row_id] by (auto simp: tables_ok_def rows(1) new_row_def)
      then show ?thesis using created(3) f(2) by (auto simp: rows(1) intro: map_idI)
    qed
    ultimately show ?thesis using f(3) created(4,5) by (auto simp: rows(1))
  next
    case (failed x)
    then have "resp = writeError rq x \<and> rows' = kyc_applications (tables db')"
      using h' by (auto simp: rows(2))
    with failed(2) show ?thesis by (auto simp: rows(1))
  qed
qed

text \<open>A first application for \<open>u1\<close> beside the two of \<open>demo_found\<close>.\<close>

theorem create_over_database_witness:
  "\<exists>r. kyc_applications (tables (s_store (snd (createApplicationHandler
       (database_services demo_alias demo_lib (\<lambda>_. None) demo_env demo_start) (demo_request ''create'' '''')
       (start_sys demo_found demo_world))))) = kyc_applications (tables demo_found) @ [r] \<and> new_row ''x'' ''u1'' r"
proof -
  let ?sv = "database_services demo_alias demo_lib (\<lambda>_. None) demo_env demo_start" and ?rq = "demo_request ''create'' ''''"
  let ?s = "start_sys demo_found demo_world"
  have "map_sum id (\<lambda>req. (req ''user_id'', req ''vendor'')) (decodeJSON demo_lib [''user_id'', ''vendor'', ''full_name''] ?rq)
      = Inr (''u1'', ''stub'')"
    by code_simp
  then obtain req where req: "decodeJSON demo_lib [''user_id'', ''vendor'', ''full_name''] ?rq = Inr req"
    "req ''user_id'' = ''u1''" "req ''vendor'' = ''stub''"
    by (auto simp: map_sum_def split: sum.splits)
  then have sv: "decodeJSON (sv_lib ?sv) [''user_id'', ''vendor'', ''full_name''] ?rq = Inr req" "req ''user_id'' \<noteq> ''''"
    by (simp_all add: database_services_def)
  have uid: "''x'' = uuids (s_env ?s) (issued (s_env ?s))" "pg_uuid demo_alias ''x'' = Some ''x''"
    by (simp_all add: start_sys_def demo_world_def demo_alias_def)
  have "fst (fst (db_Create demo_alias \<lparr>app_ID = ''x'', app_UserID = ''u1'', app_Vendor = ''stub'',
      app_VendorApplicantID = '''', app_State = StateStarted, app_CreatedAt = 0, app_UpdatedAt = 0,
      app_ExpiresAt = 0, app_ReKYCDueAt = 0, app_DecidedAt = 0, app_Version = 0\<rparr> (demo_found, demo_world\<lparr>issued := Suc 0\<rparr>))) = None"
    by code_simp
  then obtain app db e where c: "db_Create demo_alias (new_app ''x'' req) (demo_found, demo_world\<lparr>issued := Suc 0\<rparr>) = ((None, app), db, e)"
    by (metis new_app_def prod.collapse req(2,3))
  have "issued demo_world = 0" by (simp add: demo_world_def)
  then have "with_repo (repo_Create (sv_Repo ?sv) (new_app ''x'' req))
      (?s\<lparr>s_env := (s_env ?s)\<lparr>issued := Suc (issued (s_env ?s))\<rparr>\<rparr>) = ((None, app), ?s\<lparr>s_store := db, s_env := e\<rparr>)"
    using c by (simp add: with_repo_def database_services_def db_repo_def start_sys_def)
  then have ok: "resp_body (fst (createApplicationHandler ?sv ?rq ?s)) =
      CreateAppBody (app_ID app) (app_UserID app) (app_State app) (app_CreatedAt app)"
    unfolding create_handler [where s = ?s, OF sv, folded uid(1)] by (simp add: Let_def writeJSON_def)
  obtain resp s' where h: "createApplicationHandler ?sv ?rq ?s = (resp, s')" by fastforce
  have "resp \<noteq> writeError ?rq err" for err
    using ok h by (auto simp: writeError_def Let_def)
  moreover have "tables_ok demo_alias (tables (s_store ?s))"
    using demo_alias_found(2) by (simp add: data_ok_def start_sys_def)
  ultimately obtain r where "kyc_applications (tables (s_store s')) = admitted ''u1'' (kyc_applications (tables demo_found)) @ [r]"
    "new_row ''x'' ''u1'' r"
    using create_over_database [OF demo_alias_found(1) _ req(1) sv(2) uid(1) _ uid(2) h refl refl] req(2)
    by (auto simp: start_sys_def)
  moreover have "admitted ''u1'' (kyc_applications (tables demo_found)) = kyc_applications (tables demo_found)"
    by (simp add: admitted_def demo_found_def insert_row_def demo_record_def)
  ultimately show ?thesis by (simp add: h)
qed

section \<open>Uploading a document\<close>

lemma upload_vendor_store [simp]: "s_store (upload_vendor sv ctx app i ty content s) = s_store s"
proof (cases "sv_Vendor sv")
  case None
  then show ?thesis by (simp add: upload_vendor_def)
next
  case (Some V)
  obtain res s1 where c: "with_env (vc_UploadDocument V ctx (app_VendorApplicantID app)
      \<lparr>vd_Type = ty, vd_Content = content\<rparr>) s = (res, s1)"
    by force
  have "s_store s1 = s_store s" using with_env_frame(1) c by (metis snd_conv)
  with Some c show ?thesis by (cases res) (simp_all add: upload_vendor_def Let_def)
qed

text \<open>The application \<open>u\<close> has a document of each type that is required.\<close>

definition has_required :: "string \<Rightarrow> Tables \<Rightarrow> bool" where
  "has_required u t \<longleftrightarrow>
     (\<forall>ty \<in> {''ID_FRONT'', ''SELFIE''}. \<exists>d \<in> set (documents t). drow_application_id d = u \<and> drow_type d = ty)"

lemma has_types_result:
  assumes "has_types pg i types db = (b, db')" and "pg_uuid pg i = Some u"
  shows "tables db' = tables db"
    and "b \<Longrightarrow> ty \<in> set types \<Longrightarrow> \<exists>d \<in> set (documents (tables db)). drow_application_id d = u \<and> drow_type d = ty"
    and "calm pg db \<Longrightarrow> calm pg db' \<and>
      (b \<longleftrightarrow> (\<forall>ty \<in> set types. \<exists>d \<in> set (documents (tables db)). drow_application_id d = u \<and> drow_type d = ty))"
proof -
  let ?has = "\<lambda>ty. \<exists>d \<in> set (documents (tables db)). drow_application_id d = u \<and> drow_type d = ty"
  have "tables db' = tables db \<and> (b \<longrightarrow> (\<forall>ty \<in> set types. ?has ty)) \<and>
      (calm pg db \<longrightarrow> calm pg db' \<and> (b \<longleftrightarrow> (\<forall>ty \<in> set types. ?has ty)))"
    using assms
  proof (induction types arbitrary: db)
    case (Cons ty types)
    obtain res db1 where q: "QueryRow pg (sql_doc_exists pg i ty) db = (res, db1)" by fastforce
    have t: "tables db1 = tables db" using q by (rule QueryRow_tables)
    have c: "calm pg db \<Longrightarrow> calm pg db1 \<and>
        res = Inr (\<exists>d \<in> set (documents (tables db)). drow_application_id d = u \<and> drow_type d = ty)"
      using q Cons.prems(2) by (auto simp: QueryRow_calm sql_doc_exists_def uuid_param_def)
    show ?case
    proof (cases res)
      case (Inl err)
      with Cons.prems(1) q t c show ?thesis by auto
    next
      case (Inr ex)
      then have ex: "ex = (\<exists>d \<in> set (documents (tables db)). drow_application_id d = u \<and> drow_type d = ty)"
        using QueryRow_Inr [of pg "sql_doc_exists pg i ty" db ex db1] q Cons.prems(2)
        by (simp add: sql_doc_exists_def uuid_param_def)
      show ?thesis
      proof (cases ex)
        case False
        with Cons.prems(1) q Inr t c ex show ?thesis by auto
      next
        case True
        with Cons.prems(1) q Inr have "has_types pg i types db1 = (b, db')" by simp
        from Cons.IH [OF this Cons.prems(2)] t c ex True show ?thesis by auto
      qed
    qed
  qed simp
  then show "tables db' = tables db"
    and "b \<Longrightarrow> ty \<in> set types \<Longrightarrow> ?has ty"
    and "calm pg db \<Longrightarrow> calm pg db' \<and> (b \<longleftrightarrow> (\<forall>ty \<in> set types. ?has ty))"
    by blast+
qed

lemma active_unique_moved:
  assumes "active_unique rows" and "\<And>r. row_user_id (f r) = row_user_id r"
    and "\<And>r. r \<in> set rows \<Longrightarrow> p r \<Longrightarrow> row_active (f r) = row_active r"
  shows "active_unique (map (\<lambda>r. if p r then f r else r) rows)"
proof -
  have "map row_user_id (filter row_active (map (\<lambda>r. if p r then f r else r) rows)) = map row_user_id (filter row_active rows)"
    using assms(2,3) by (induction rows) auto
  with assms(1) show ?thesis by (simp add: active_unique_def)
qed

text \<open>On a working connection, with room for the version, the move is made.\<close>

lemma db_UpdateState_calm:
  assumes c: "calm pg db" and ok: "tables_ok pg (tables db)" and q: "q \<in> set (kyc_applications (tables db))"
    and i: "pg_uuid pg i = Some (row_id q)" and can: "CanTransition (row_state q) st" and st: "\<not> IsTerminal st"
    and open': "\<not> IsTerminal (row_state q)" and room: "sint (row_version q) < 2 ^ 31 - 1"
  shows "\<exists>a. fst (db_UpdateState pg sink i (int_of_int4 (row_version q)) st actor reason (db, e)) = Inr a"
proof -
  have f: "find (\<lambda>r. row_id r = row_id q) (kyc_applications (tables db)) = Some q"
    using ok q by (simp add: find_key tables_ok_def)
  have b: "begin_locked pg i db = Inr (scanRow q, bump 1 db, bump 2 db)"
    using c by (simp add: begin_locked_def Begin_calm QueryRow_calm sql_app_by_id_def uuid_param_def i f numeral_2_eq_2)
  have "- (2 ^ 31) \<le> sint (row_version q)" using sint_ge [of "row_version q"] by simp
  then obtain v where v: "int4_of (int_of_int4 (row_version q) + 1) = Inr v"
    using sint_next [of "int_of_int4 (row_version q)"] room by (simp add: int4_of_def)
  have "row_active q \<and> st \<notin> {''PASS'', ''FAIL''}"
    using open' st by (simp add: row_active_def IsTerminal_iff StatePass_def StateFail_def)
  moreover have "r = q" if "r \<in> set (kyc_applications (tables db))" "row_id r = row_id q" for r
    using ok q that by (auto simp: tables_ok_def distinct_map dest: inj_onD)
  ultimately have "active_unique (map (\<lambda>r. if row_id r = row_id q \<and> row_version r = row_version q
      then r\<lparr>row_state := st, row_updated_at := micros now, row_version := v\<rparr> else r) (kyc_applications (tables db)))" for now
    using ok by (intro active_unique_moved) (auto simp: tables_ok_def row_active_def)
  then have u: "\<exists>t. sql_update_state pg i st now (int_of_int4 (row_version q) + 1) None None (int_of_int4 (row_version q))
      (tables db) = Inr ((), t)" for now
    using v by (simp add: sql_update_state_def sql_update_apps_def uuid_param_def i Let_def timestamp_def)
  obtain t where t: "sql_update_state pg i st (clock e (ticks e)) (int_of_int4 (row_version q) + 1) None None
      (int_of_int4 (row_version q)) (tables db) = Inr ((), t)"
    using u by blast
  have "calm pg (bump 2 db)" using c by simp
  note wc = write_and_commit_calm [OF this, of "sql_update_state pg i st (clock e (ticks e))
      (int_of_int4 (row_version q) + 1) None None (int_of_int4 (row_version q))" "bump 1 db", simplified, unfolded t]
  show ?thesis
    using can st wc by (simp add: db_UpdateState_def b time_Now_def Let_def ValidateTransition_def)
qed

text \<open>The document that the handler makes, before it has read the clock and drawn an identifier.\<close>

definition uploaded :: "'e World_scheme \<Rightarrow> string \<Rightarrow> string \<Rightarrow> byte list \<Rightarrow> Document" where
  "uploaded e i ty content =
     \<lparr>doc_ID = uuids e (issued e), doc_ApplicationID = i, doc_Type = ty, doc_Content = content,
      doc_UploadedAt = clock e (ticks e), doc_RetentionUntil = AddDuration (clock e (ticks e)) year365\<rparr>"

text \<open>The handler once the application is found and the request is read.\<close>

lemma upload_over_pool:
  fixes s :: "(Database, 'e NetEnv_scheme) Sys"
  assumes "db_Get pg i (s_store s) = (Inr a, db1)" and "req_path rq ''id'' = i"
    and "parseDocRequest lib rq = Inr (ty, content)" and "index_bool validDocTypes ty"
    and "uploadDocumentHandler (database_services pg lib parse env st) rq s = (resp, s')"
    and doc: "doc = uploaded (s_env s) i ty content"
    and req: "dbdoc_HasRequiredDocs pg i (dbdoc_Add pg i doc db1) = (complete, db2)"
  obtains e2 where "resp = writeJSON 201 (DocumentBody doc)"
    and "s_store s' = (if app_State a \<noteq> StateStarted then dbdoc_Add pg i doc db1
      else if \<not> complete then db2
      else fst (snd (db_UpdateState pg (event_sink_for (st_policy st)) i (app_Version a) StateDocumentsUploaded ''system''
             ''required documents uploaded'' (db2, (e2 :: 'e NetEnv_scheme)))))"
proof -
  note doc' = doc [unfolded uploaded_def]
  define sv :: "(Database, 'e NetEnv_scheme) Services" where "sv = database_services pg lib parse env st"
  have sv: "sv_lib sv = lib" "repo_Get (sv_Repo sv) = (\<lambda>j. on_pool (db_Get pg j))" "docs_Add (sv_Docs sv) = dbdoc_Add pg"
    "docs_HasRequiredDocs (sv_Docs sv) = dbdoc_HasRequiredDocs pg"
    "repo_UpdateState (sv_Repo sv) = db_UpdateState pg (event_sink_for (st_policy st))"
    by (simp_all add: sv_def database_services_def db_repo_def db_docs_def NewDBApplicationRepo_def)
  let ?s0 = "s\<lparr>s_store := db1\<rparr>" and ?e = "(s_env s)\<lparr>ticks := Suc (ticks (s_env s))\<rparr>"
  have get: "with_repo (repo_Get (sv_Repo sv) i) s = (Inr a, ?s0)"
    using assms(1) by (simp add: with_repo_def sv on_pool_def)
  have now: "with_env time_Now ?s0 = (clock (s_env s) (ticks (s_env s)), ?s0\<lparr>s_env := ?e\<rparr>)"
    by (simp add: with_env_def time_Now_def Let_def)
  have uid: "with_env newUUID (?s0\<lparr>s_env := ?e\<rparr>) =
      (uuids (s_env s) (issued (s_env s)), ?s0\<lparr>s_env := ?e\<lparr>issued := Suc (issued (s_env s))\<rparr>\<rparr>)"
    by (simp add: with_env_def newUUID_def Let_def)
  define s1 where "s1 = s\<lparr>s_store := dbdoc_Add pg i doc db1,
      s_env := ?e\<lparr>issued := Suc (issued (s_env s))\<rparr>\<rparr>"
  have added: "(?s0\<lparr>s_env := ?e\<lparr>issued := Suc (issued (s_env s))\<rparr>\<rparr>)
      \<lparr>s_store := dbdoc_Add pg i doc (s_store (?s0\<lparr>s_env := ?e\<lparr>issued := Suc (issued (s_env s))\<rparr>\<rparr>))\<rparr> = s1"
    by (simp add: s1_def)
  define s3 where "s3 = upload_vendor sv (req_ctx rq) a i ty content (on_env (Metrics.count uploadDocTotal_update 1) s1)"
  have store: "s_store s3 = dbdoc_Add pg i doc db1" by (simp add: s3_def s1_def)
  have h: "(resp, s') = (writeJSON 201 (DocumentBody doc),
      on_env (Record i ''document_uploaded'' ''system'' [''type'' \<mapsto> AString ty])
        (if app_State a = StateStarted
         then (let (complete, s) = with_store (dbdoc_HasRequiredDocs pg i) s3
               in if complete
                  then snd (with_repo (db_UpdateState pg (event_sink_for (st_policy st)) i (app_Version a)
                         StateDocumentsUploaded ''system'' ''required documents uploaded'') s)
                  else s)
         else s3))"
    using assms(5) unfolding sv_def [symmetric] uploadDocumentHandler_def Let_def assms(2) get sv(1) assms(3)
      sum.case prod.case now uid doc' [symmetric] sv(3-5) s3_def added
    using assms(4) by simp
  show thesis
  proof (rule that [of "s_env s3"])
    show "resp = writeJSON 201 (DocumentBody doc)" using h by simp
    show "s_store s' = (if app_State a \<noteq> StateStarted then dbdoc_Add pg i doc db1
      else if \<not> complete then db2
      else fst (snd (db_UpdateState pg (event_sink_for (st_policy st)) i (app_Version a) StateDocumentsUploaded ''system''
             ''required documents uploaded'' (db2, s_env s3))))"
      using h req store by (simp add: with_store_def with_repo_def split_beta)
  qed
qed

lemma dbdoc_Add_faults:
  assumes "pg_uuid pg i = Some u" and "pg_uuid pg (doc_ID doc) = Some d"
    and "d \<notin> drow_id ` set (documents (tables db))" and "has_app u (tables db)"
  shows "tables (dbdoc_Add pg i doc db) =
    (case pg_fault pg (statements db) of
       Some (Refused _) \<Rightarrow> tables db
     | _ \<Rightarrow> (tables db)\<lparr>documents := documents (tables db) @ [doc_row d u doc]\<rparr>)"
  using assms
  by (simp add: dbdoc_Add_def Exec_def sql_add_doc_def uuid_param_def sql_insert_doc_def doc_row_def Let_def
      split: option.splits Fault.splits)

lemma sv_lib_database [simp]: "sv_lib (database_services pg lib parse env st) = lib"
  by (simp add: database_services_def)

lemma tables_ok_document:
  assumes "tables_ok pg t" and "has_app u t" and "d \<notin> drow_id ` set (documents t)"
  shows "tables_ok pg (t\<lparr>documents := documents t @ [doc_row d u doc]\<rparr>)"
  using assms by (auto simp: tables_ok_def has_app_def doc_row_def)

text \<open>
  C35. \<open>uploadDocumentHandler\<close> over PostgreSQL, in tables that keep the constraints, with an unused
  identifier from \<open>newUUID\<close>, whatever fails: either it answers with an error and the tables are as
  before, or it answers 201 with a document of a valid type for an application that exists. Then
  exactly that document's row has been added, unless the INSERT was refused: the client is told 201
  in that case too, and nothing is stored. Nothing else has changed, except that the application may
  have moved from \<open>STARTED\<close> to \<open>DOCUMENTS_UPLOADED\<close>, which it does only with its required documents in
  the table, and always then on a working connection, as long as its version fits.
\<close>

theorem upload_over_database:
  fixes s :: "(Database, 'e NetEnv_scheme) Sys"
  assumes ok: "tables_ok pg (tables (s_store s))"
    and uid: "pg_uuid pg (uuids (s_env s) (issued (s_env s))) = Some d"
      "d \<notin> drow_id ` set (documents (tables (s_store s)))"
    and h: "uploadDocumentHandler (database_services pg lib parse env st) rq s = (resp, s')"
    and t: "t = tables (s_store s)" "t' = tables (s_store s')"
  shows "(\<exists>err. resp = writeError rq err \<and> t' = t) \<or>
    (\<exists>q ty content doc mid.
       q \<in> set (kyc_applications t) \<and> pg_uuid pg (req_path rq ''id'') = Some (row_id q) \<and>
       parseDocRequest lib rq = Inr (ty, content) \<and> index_bool validDocTypes ty \<and>
       doc = uploaded (s_env s) (req_path rq ''id'') ty content \<and> resp = writeJSON 201 (DocumentBody doc) \<and>
       mid = (case pg_fault pg (Suc (statements (s_store s))) of
                Some (Refused _) \<Rightarrow> t
              | _ \<Rightarrow> t\<lparr>documents := documents t @ [doc_row d (row_id q) doc]\<rparr>) \<and>
       (row_state q = StateStarted \<and> has_required (row_id q) mid \<and>
          (\<exists>now. committed mid q (transition_app now StateDocumentsUploaded (scanRow q)) t') \<or>
        t' = mid \<and>
          \<not> (calm pg (s_store s) \<and> row_state q = StateStarted \<and> has_required (row_id q) mid \<and>
             sint (row_version q) < 2 ^ 31 - 1)))"
proof -
  let ?i = "req_path rq ''id''" and ?sv = "database_services pg lib parse env st"
  obtain got db1 where get: "db_Get pg ?i (s_store s) = (got, db1)" by fastforce
  obtain row where row: "QueryRow pg (sql_app_by_id pg ?i) (s_store s) = (row, db1)" "got = scanApp row"
    using get by (auto simp: db_Get_def split: prod.splits)
  have db1: "tables db1 = t" "statements db1 = Suc (statements (s_store s))" "calm pg (s_store s) \<Longrightarrow> calm pg db1"
    using QueryRow_tables [OF row(1)] QueryRow_statements [OF row(1)] t(1) by (simp_all add: calm_def)
  have g: "with_repo (repo_Get (sv_Repo ?sv) ?i) s = (got, s\<lparr>s_store := db1\<rparr>)"
    using get by (simp add: with_repo_def database_services_def db_repo_def on_pool_def)
  note h' = h [unfolded uploadDocumentHandler_def Let_def g prod.case]
  show ?thesis
  proof (cases row)
    case (Inl err)
    with row(2) h' t(2) db1(1) show ?thesis by (auto simp: scanApp_def)
  next
    case (Inr q)
    then have got: "got = Inr (scanRow q)" using row(2) by (simp add: scanApp_def)
    have "sql_app_by_id pg ?i t = Inr (Some q)"
      using QueryRow_Inr row(1) unfolding Inr t(1) by metis
    then have q: "pg_uuid pg ?i = Some (row_id q)" "q \<in> set (kyc_applications t)"
      using sql_app_by_id_Some by metis+
    show ?thesis
    proof (cases "\<exists>ty content. parseDocRequest lib rq = Inr (ty, content) \<and> index_bool validDocTypes ty")
      case False
      with h' got False t(2) db1(1) show ?thesis
        by (cases "parseDocRequest lib rq") (auto split: prod.splits)
    next
      case True
      then obtain ty content where p: "parseDocRequest lib rq = Inr (ty, content)" "index_bool validDocTypes ty" by blast
      define doc where "doc = uploaded (s_env s) ?i ty content"
      define mid where "mid = (case pg_fault pg (Suc (statements (s_store s))) of
                Some (Refused _) \<Rightarrow> t
              | _ \<Rightarrow> t\<lparr>documents := documents t @ [doc_row d (row_id q) doc]\<rparr>)"
      have app: "has_app (row_id q) t" using q(2) by (simp add: has_app_def)
      have pre: "pg_uuid pg (doc_ID doc) = Some d" "d \<notin> drow_id ` set (documents (tables db1))" "has_app (row_id q) (tables db1)"
        using uid app db1(1) t(1) by (simp_all add: doc_def uploaded_def)
      have mid: "tables (dbdoc_Add pg ?i doc db1) = mid"
        using dbdoc_Add_faults [OF q(1) pre] unfolding mid_def by (simp only: db1(1,2))
      have ok': "tables_ok pg mid" "q \<in> set (kyc_applications mid)"
        using ok t(1) q(2) app uid(2) by (auto simp: mid_def intro: tables_ok_document split: option.split Fault.split)
      obtain complete db2 where req: "dbdoc_HasRequiredDocs pg ?i (dbdoc_Add pg ?i doc db1) = (complete, db2)" by fastforce
      note types = has_types_result [OF req [unfolded dbdoc_HasRequiredDocs_def] q(1), unfolded mid]
      have has: "complete \<Longrightarrow> has_required (row_id q) mid"
        "calm pg (s_store s) \<Longrightarrow> calm pg db2 \<and> (complete \<longleftrightarrow> has_required (row_id q) mid)"
      proof -
        show "complete \<Longrightarrow> has_required (row_id q) mid" using types(2) by (simp add: has_required_def)
        show "calm pg (s_store s) \<Longrightarrow> calm pg db2 \<and> (complete \<longleftrightarrow> has_required (row_id q) mid)"
          using types(3) dbdoc_Add_calm [OF db1(3)] by (simp add: has_required_def)
      qed
      obtain e2 :: "'e NetEnv_scheme" where resp: "resp = writeJSON 201 (DocumentBody doc)"
        and s': "s_store s' = (if row_state q \<noteq> StateStarted then dbdoc_Add pg ?i doc db1 else if \<not> complete then db2
          else fst (snd (db_UpdateState pg (event_sink_for (st_policy st)) ?i (int_of_int4 (row_version q))
                 StateDocumentsUploaded ''system'' ''required documents uploaded'' (db2, e2))))"
        by (rule upload_over_pool [OF get [unfolded got] refl p h doc_def req, unfolded scanRow_simps])
      have "row_state q = StateStarted \<and> has_required (row_id q) mid \<and>
          (\<exists>now. committed mid q (transition_app now StateDocumentsUploaded (scanRow q)) t') \<or>
        t' = mid \<and> \<not> (calm pg (s_store s) \<and> row_state q = StateStarted \<and> has_required (row_id q) mid \<and>
             sint (row_version q) < 2 ^ 31 - 1)"
      proof (cases "row_state q = StateStarted \<and> complete")
        case False
        with s' mid types(1) has(2) show ?thesis by (auto simp: t(2))
      next
        case True
        obtain res db3 e3 where up: "db_UpdateState pg (event_sink_for (st_policy st)) ?i (int_of_int4 (row_version q))
            StateDocumentsUploaded ''system'' ''required documents uploaded'' (db2, e2) = (res, db3, e3)"
          by (rule prod_cases3)
        have t': "t' = tables db3" using s' True up by (simp add: t(2))
        have ok2: "tables_ok pg (tables db2)" using ok'(1) types(1) by simp
        from ok2 up show ?thesis
        proof (cases rule: db_UpdateState_ends)
          case (unchanged err)
          have "\<not> (calm pg db2 \<and> sint (row_version q) < 2 ^ 31 - 1)"
            using db_UpdateState_calm [OF _ ok2, of q ?i StateDocumentsUploaded "event_sink_for (st_policy st)"
                "''system''" "''required documents uploaded''" e2]
              unchanged(1) up ok'(2) types(1) q(1) True by auto
          with unchanged(2) types(1) has(2) show ?thesis by (auto simp: t')
        next
          case (moved q2)
          have "q2 = q"
            using moved(1,4) q(1) ok' types(1)
            by (auto simp: committed_def tables_ok_def distinct_map dest: inj_onD)
          with moved(4) True has(1) types(1) show ?thesis by (auto simp: t')
        qed
      qed
      with q p resp show ?thesis unfolding mid_def doc_def by blast
    qed
  qed
qed

text \<open>The INSERT of a photograph is refused: the client gets its 201, and the tables are as before.\<close>

definition demo_refusing :: Pg where
  "demo_refusing = demo_pg\<lparr>pg_fault := (\<lambda>k. if k = 1 then Some (Refused (Plain ''disk full'')) else None)\<rparr>"

theorem upload_over_database_witness:
  "\<exists>doc s'. uploadDocumentHandler (database_services demo_refusing demo_lib (\<lambda>_. None) demo_env demo_start)
       (demo_request ''selfie'' ''x'') (start_sys demo_table demo_world) = (writeJSON 201 (DocumentBody doc), s') \<and>
     doc_Type doc = ''SELFIE'' \<and> tables (s_store s') = tables demo_table"
proof -
  let ?sv = "database_services demo_refusing demo_lib (\<lambda>_. None) demo_env demo_start"
  let ?rq = "demo_request ''selfie'' ''x''" and ?s = "start_sys demo_table demo_world"
  have i: "req_path ?rq ''id'' = ''x''" by (simp add: demo_request_def path_value_def)
  have parse: "parseDocRequest demo_lib ?rq = Inr (''SELFIE'', [115])" by code_simp
  have valid: "index_bool validDocTypes ''SELFIE''" by code_simp
  have "fst (db_Get demo_refusing ''x'' (s_store ?s)) = Inr (scanRow (insert_row ''x'' 3 (demo_record ''x'' ''u1'' StateStarted 3)))"
    by (simp add: db_Get_def QueryRow_def Exec_def demo_refusing_def demo_pg_def start_sys_def demo_table_def
        sql_app_by_id_def uuid_param_def scanApp_def Let_def insert_row_def demo_record_def)
  then obtain db1 where get: "db_Get demo_refusing ''x'' (s_store ?s) =
      (Inr (scanRow (insert_row ''x'' 3 (demo_record ''x'' ''u1'' StateStarted 3))), db1)"
    by (metis prod.collapse)
  obtain resp s' where h: "uploadDocumentHandler ?sv ?rq ?s = (resp, s')" by fastforce
  define doc where "doc = uploaded (s_env ?s) ''x'' ''SELFIE'' [115]"
  obtain complete db2 where req: "dbdoc_HasRequiredDocs demo_refusing ''x'' (dbdoc_Add demo_refusing ''x'' doc db1) = (complete, db2)"
    by fastforce
  have resp: "resp = writeJSON 201 (DocumentBody doc)"
    by (rule upload_over_pool [OF get i parse valid h doc_def req])
  have ok: "tables_ok demo_refusing (tables (s_store ?s))"
    using demo_table_ok(2) by (simp add: tables_ok_def start_sys_def demo_refusing_def demo_pg_def)
  have uid: "pg_uuid demo_refusing (uuids (s_env ?s) (issued (s_env ?s))) = Some ''x''"
      "''x'' \<notin> drow_id ` set (documents (tables (s_store ?s)))"
    by (simp_all add: start_sys_def demo_world_def demo_refusing_def demo_pg_def demo_table_def no_tables_def)
  have f: "pg_fault demo_refusing (Suc (statements (s_store ?s))) = Some (Refused (Plain ''disk full''))"
    by (simp add: start_sys_def demo_table_def demo_refusing_def)
  have none: "\<not> has_required u (tables (s_store ?s))" for u
    by (auto simp: has_required_def start_sys_def demo_table_def no_tables_def)
  have "resp \<noteq> writeError ?rq err" for err
    by (auto simp: resp writeError_def writeJSON_def Let_def)
  then have "tables (s_store s') = tables (s_store ?s)"
    using upload_over_database [OF ok uid h refl refl] f none by auto
  with h resp show ?thesis by (auto simp: start_sys_def doc_def uploaded_def)
qed

end
