(* ===== verification/Migrate.thy ===== *)
theory Migrate
  imports DBHandlers "HOL-Library.AList"
begin

text \<open>
  \<open>db/db.go\<close> and \<open>cmd/migrate/main.go\<close>: the configuration of the connection pool, the migrations
  embedded in the binary, applying and undoing them, and the command that does so.

  The scripts are SQL text for the server: what one does to the objects of the database is a
  parameter, and so is whether it ends the transaction it runs in, as the scripts in
  \<open>db/migrations\<close> do, each with a \<open>BEGIN\<close> and a \<open>COMMIT\<close> of its own.
\<close>

section \<open>Configuration and pool\<close>

record Config =
  DSN :: string
  MaxConns :: int
  MinConns :: int
  MaxConnLifetime :: duration
  MaxConnIdleTime :: duration
  ConnectTimeout :: duration

definition envInt :: "environ \<Rightarrow> string \<Rightarrow> int \<Rightarrow> int" where
  "envInt env key def =
     (if env key \<noteq> '''' then
        (case ParseInt 32 (env key) of
           Some n \<Rightarrow> if n > 0 then n else def
         | None \<Rightarrow> def)
      else def)"

definition envDuration ::
  "(string \<Rightarrow> duration option) \<Rightarrow> environ \<Rightarrow> string \<Rightarrow> duration \<Rightarrow> duration" where
  "envDuration parse env key def =
     (if env key \<noteq> '''' then
        (case parse (env key) of
           Some d \<Rightarrow> if 0 <s d then d else def
         | None \<Rightarrow> def)
      else def)"

definition DefaultConfig :: "(string \<Rightarrow> duration option) \<Rightarrow> environ \<Rightarrow> Config" where
  "DefaultConfig parse env =
     \<lparr>DSN = env ''DB_URL'',
      MaxConns = envInt env ''DB_MAX_CONNS'' 20,
      MinConns = envInt env ''DB_MIN_CONNS'' 2,
      MaxConnLifetime = envDuration parse env ''DB_MAX_CONN_LIFETIME'' (30 * 60 * second),
      MaxConnIdleTime = envDuration parse env ''DB_MAX_CONN_IDLE_TIME'' (5 * 60 * second),
      ConnectTimeout = envDuration parse env ''DB_CONNECT_TIMEOUT'' (5 * second)\<rparr>"

text \<open>The functions of \<open>pgxpool\<close>: parsing a DSN, opening a pool with the fields of \<open>Config\<close> set, a ping.\<close>

record ('c, 's) Pgxpool =
  ParseConfig :: "string \<Rightarrow> go_error + 'c"
  NewWithConfig :: "'c \<Rightarrow> Config \<Rightarrow> go_error + 's Pool"
  Ping :: "'s Pool \<Rightarrow> go_error option"

definition wrap :: "string \<Rightarrow> go_error \<Rightarrow> go_error" where
  "wrap what err = Plain (what @ '': '' @ error_text err)"

definition open_pool ::
  "('c, 's) Pgxpool \<Rightarrow> (string \<Rightarrow> duration option) \<Rightarrow> environ \<Rightarrow> Config option \<Rightarrow> go_error + 's Pool" where
  "open_pool px parse env cfg =
     (let cfg = (case cfg of None \<Rightarrow> DefaultConfig parse env | Some c \<Rightarrow> c)
      in if DSN cfg = '''' then Inl (Plain ''DB_URL is required'')
         else (case ParseConfig px (DSN cfg) of
                 Inl err \<Rightarrow> Inl (wrap ''parse DB_URL'' err)
               | Inr pc \<Rightarrow>
                   (case NewWithConfig px pc cfg of
                      Inl err \<Rightarrow> Inl (wrap ''open pool'' err)
                    | Inr pool \<Rightarrow>
                        (case Ping px pool of
                           Some err \<Rightarrow> Inl (wrap ''ping db'' err)
                         | None \<Rightarrow> Inr pool))))"

section \<open>The embedded migrations\<close>

record Migration =
  Version :: int
  Name :: string
  UpSQL :: string
  DownSQL :: string

text \<open>An entry of the embedded directory, with what reading it gives.\<close>

record DirEntry =
  entry_Name :: string
  entry_IsDir :: bool
  entry_data :: "go_error + string"

definition HasSuffix :: "string \<Rightarrow> string \<Rightarrow> bool" where
  "HasSuffix s p \<longleftrightarrow> length p \<le> length s \<and> drop (length s - length p) s = p"

definition TrimSuffix :: "string \<Rightarrow> string \<Rightarrow> string" where
  "TrimSuffix s p = (if HasSuffix s p then take (length s - length p) s else s)"

text \<open>The three maps of the loop, from version to text; a map is an association list here.\<close>

record Loaded =
  upFiles :: "(int \<times> string) list"
  downFiles :: "(int \<times> string) list"
  names :: "(int \<times> string) list"

definition load_entry :: "DirEntry \<Rightarrow> Loaded \<Rightarrow> go_error + Loaded" where
  "load_entry e l =
     (if entry_IsDir e \<or> \<not> HasSuffix (entry_Name e) ''.sql'' then Inr l
      else (case SplitN2 (CHR ''_'') (entry_Name e) of
              [p, _] \<Rightarrow>
                (case Atoi p of
                   None \<Rightarrow> Inr l
                 | Some ver \<Rightarrow>
                     (case entry_data e of
                        Inl err \<Rightarrow> Inl (wrap (''read '' @ entry_Name e) err)
                      | Inr sql \<Rightarrow>
                          if HasSuffix (entry_Name e) ''.up.sql''
                          then Inr (l\<lparr>upFiles := AList.update ver sql (upFiles l),
                                      names := AList.update ver
                                        (TrimSuffix (TrimSuffix (entry_Name e) ''.up.sql'') '''') (names l)\<rparr>)
                          else if HasSuffix (entry_Name e) ''.down.sql''
                          then Inr (l\<lparr>downFiles := AList.update ver sql (downFiles l)\<rparr>)
                          else Inr l))
            | _ \<Rightarrow> Inr l))"

fun load_entries :: "DirEntry list \<Rightarrow> Loaded \<Rightarrow> go_error + Loaded" where
  "load_entries [] l = Inr l"
| "load_entries (e # es) l =
     (case load_entry e l of Inl err \<Rightarrow> Inl err | Inr l \<Rightarrow> load_entries es l)"

definition index_string :: "(int \<times> string) list \<Rightarrow> int \<Rightarrow> string" where
  "index_string m k = (case map_of m k of None \<Rightarrow> '''' | Some s \<Rightarrow> s)"

definition LoadMigrations :: "go_error + DirEntry list \<Rightarrow> go_error + Migration list" where
  "LoadMigrations dir =
     (case dir of
        Inl err \<Rightarrow> Inl (wrap ''read migrations'' err)
      | Inr entries \<Rightarrow>
          (case load_entries entries \<lparr>upFiles = [], downFiles = [], names = []\<rparr> of
             Inl err \<Rightarrow> Inl err
           | Inr l \<Rightarrow>
               Inr (map (\<lambda>v. \<lparr>Version = v, Name = index_string (names l) v, UpSQL = index_string (upFiles l) v,
                              DownSQL = index_string (downFiles l) v\<rparr>)
                        (sort (map fst (upFiles l))))))"

section \<open>The database\<close>

text \<open>\<open>recorded\<close> is the table \<open>schema_migrations\<close>, \<open>None\<close> before it is created.\<close>

record 's Schema =
  objects :: 's
  recorded :: "int list option"

record 's Scripts =
  run_script :: "string \<Rightarrow> 's \<Rightarrow> go_error + 's"
  ends_tx :: "string \<Rightarrow> bool"

definition undefined_table :: go_error where
  "undefined_table = Plain ''relation schema_migrations does not exist''"

definition sql_ensure :: "'s Schema \<Rightarrow> go_error + unit \<times> 's Schema" where
  "sql_ensure t = Inr ((), t\<lparr>recorded := (case recorded t of None \<Rightarrow> Some [] | Some vs \<Rightarrow> Some vs)\<rparr>)"

text \<open>A version as the parameter of an \<open>integer\<close> column.\<close>

definition int4_param :: "int \<Rightarrow> (go_error + 'a) \<Rightarrow> go_error + 'a" where
  "int4_param v f =
     (if - (2 ^ 31) \<le> v \<and> v < 2 ^ 31 then f else Inl (Plain (FormatInt v @ '' is out of range for int4'')))"

definition sql_version_exists :: "int \<Rightarrow> 's Schema \<Rightarrow> go_error + bool option" where
  "sql_version_exists v t =
     int4_param v (case recorded t of None \<Rightarrow> Inl undefined_table | Some vs \<Rightarrow> Inr (Some (v \<in> set vs)))"

definition sql_record :: "int \<Rightarrow> 's Schema \<Rightarrow> go_error + unit \<times> 's Schema" where
  "sql_record v t =
     int4_param v (case recorded t of
       None \<Rightarrow> Inl undefined_table
     | Some vs \<Rightarrow>
         if v \<in> set vs then Inl (unique_violation ''schema_migrations_pkey'')
         else Inr ((), t\<lparr>recorded := Some (vs @ [v])\<rparr>))"

definition sql_max_version :: "'s Schema \<Rightarrow> go_error + int option" where
  "sql_max_version t =
     (case recorded t of
        None \<Rightarrow> Inl undefined_table
      | Some vs \<Rightarrow> Inr (Some (if vs = [] then 0 else Max (set vs))))"

definition sql_unrecord :: "int \<Rightarrow> 's Schema \<Rightarrow> go_error + unit \<times> 's Schema" where
  "sql_unrecord v t =
     int4_param v (case recorded t of
       None \<Rightarrow> Inl undefined_table
     | Some vs \<Rightarrow> Inr ((), t\<lparr>recorded := Some (filter (\<lambda>w. w \<noteq> v) vs)\<rparr>))"

definition sql_script :: "'s Scripts \<Rightarrow> string \<Rightarrow> 's Schema \<Rightarrow> go_error + unit \<times> 's Schema" where
  "sql_script sc sql t =
     (case run_script sc sql (objects t) of
        Inl err \<Rightarrow> Inl err
      | Inr ob \<Rightarrow> Inr ((), t\<lparr>objects := ob\<rparr>))"

section \<open>Up and down\<close>

definition EnsureSchemaMigrations :: "Pg \<Rightarrow> 's Schema Pool \<Rightarrow> (go_error + unit) \<times> 's Schema Pool" where
  "EnsureSchemaMigrations pg = Exec pg sql_ensure"

text \<open>
  One migration in its transaction: begin, the script, the statement on \<open>schema_migrations\<close>, commit.
  The four texts name the step in an error. A script that ends the transaction has made its effect
  lasting at that point, and the statement after it commits by itself; the later \<open>Commit\<close> or
  \<open>Rollback\<close> then has nothing to do.
\<close>

definition migration_tx ::
  "Pg \<Rightarrow> 's Scripts \<Rightarrow> string \<Rightarrow> ('s Schema \<Rightarrow> go_error + unit \<times> 's Schema) \<Rightarrow>
     string \<times> string \<times> string \<times> string \<Rightarrow> 's Schema Pool \<Rightarrow> go_error option \<times> 's Schema Pool" where
  "migration_tx pg sc sql stmt texts db =
     (case texts of (t_begin, t_apply, t_record, t_commit) \<Rightarrow>
        case Begin pg db of
          (Inl err, db) \<Rightarrow> (Some (wrap t_begin err), db)
        | (Inr _, db) \<Rightarrow>
            (case Exec pg (sql_script sc sql) db of
               (Inl err, tx) \<Rightarrow> (Some (wrap t_apply err), if ends_tx sc sql then tx else Rollback db tx)
             | (Inr _, tx) \<Rightarrow>
                 (let base = (if ends_tx sc sql then tx else db)
                  in case Exec pg stmt tx of
                       (Inl err, tx) \<Rightarrow>
                         (Some (wrap t_record err), if ends_tx sc sql then tx else Rollback base tx)
                     | (Inr _, tx) \<Rightarrow>
                         (case Commit pg (if ends_tx sc sql then tx else base) tx of
                            (Inl err, db) \<Rightarrow> (Some (wrap t_commit err), db)
                          | (Inr _, db) \<Rightarrow> (None, db)))))"

definition labelled :: "string \<Rightarrow> int \<Rightarrow> string" where
  "labelled what v = what @ FormatInt v"

fun up_loop ::
  "Pg \<Rightarrow> 's Scripts \<Rightarrow> Migration list \<Rightarrow> nat \<Rightarrow> 's Schema Pool \<Rightarrow> (nat \<times> go_error option) \<times> 's Schema Pool" where
  "up_loop pg sc [] applied db = ((applied, None), db)"
| "up_loop pg sc (m # migs) applied db =
     (case QueryRow pg (sql_version_exists (Version m)) db of
        (Inl NoRows, db) \<Rightarrow>
          ((applied, Some (wrap (labelled ''check version '' (Version m)) (Plain ''no rows in result set''))), db)
      | (Inl (RowError err), db) \<Rightarrow> ((applied, Some (wrap (labelled ''check version '' (Version m)) err)), db)
      | (Inr ex, db) \<Rightarrow>
          if ex then up_loop pg sc migs applied db
          else (case migration_tx pg sc (UpSQL m) (sql_record (Version m))
                       (labelled ''begin tx for v'' (Version m), labelled ''apply v'' (Version m),
                        labelled ''record v'' (Version m), labelled ''commit v'' (Version m)) db of
                  (Some err, db) \<Rightarrow> ((applied, Some err), db)
                | (None, db) \<Rightarrow> up_loop pg sc migs (applied + 1) db))"

definition MigrateUp ::
  "Pg \<Rightarrow> 's Scripts \<Rightarrow> go_error + DirEntry list \<Rightarrow> 's Schema Pool \<Rightarrow>
     (nat \<times> go_error option) \<times> 's Schema Pool" where
  "MigrateUp pg sc dir db =
     (case EnsureSchemaMigrations pg db of
        (Inl err, db) \<Rightarrow> ((0, Some (wrap ''ensure schema_migrations'' err)), db)
      | (Inr _, db) \<Rightarrow>
          (case LoadMigrations dir of
             Inl err \<Rightarrow> ((0, Some err), db)
           | Inr migs \<Rightarrow> up_loop pg sc migs 0 db))"

definition MigrateDown ::
  "Pg \<Rightarrow> 's Scripts \<Rightarrow> go_error + DirEntry list \<Rightarrow> 's Schema Pool \<Rightarrow>
     (nat \<times> go_error option) \<times> 's Schema Pool" where
  "MigrateDown pg sc dir db =
     (case EnsureSchemaMigrations pg db of
        (Inl err, db) \<Rightarrow> ((0, Some (wrap ''ensure schema_migrations'' err)), db)
      | (Inr _, db) \<Rightarrow>
          (case LoadMigrations dir of
             Inl err \<Rightarrow> ((0, Some err), db)
           | Inr migs \<Rightarrow>
               (case QueryRow pg sql_max_version db of
                  (Inl NoRows, db) \<Rightarrow> ((0, Some (wrap ''find latest'' (Plain ''no rows in result set''))), db)
                | (Inl (RowError err), db) \<Rightarrow> ((0, Some (wrap ''find latest'' err)), db)
                | (Inr latest, db) \<Rightarrow>
                    if latest = 0 then ((0, None), db)
                    else
                      (let downSQL = (case find (\<lambda>m. Version m = latest) migs of
                                        None \<Rightarrow> '''' | Some m \<Rightarrow> DownSQL m)
                       in if downSQL = '''' then ((0, Some (Plain (labelled ''no down migration for version '' latest))), db)
                          else (case migration_tx pg sc downSQL (sql_unrecord latest)
                                       (''begin tx'', labelled ''apply down v'' latest,
                                        labelled ''delete v'' latest, ''commit down'') db of
                                  (Some err, db) \<Rightarrow> ((0, Some err), db)
                                | (None, db) \<Rightarrow> ((1, None), db))))))"

text \<open>\<open>internal/db_stores.go: openPoolAndMigrate\<close>; closing the pool on an error has no effect here.\<close>

definition openPoolAndMigrate ::
  "('c, 's Schema) Pgxpool \<Rightarrow> (string \<Rightarrow> duration option) \<Rightarrow> environ \<Rightarrow> Pg \<Rightarrow> 's Scripts \<Rightarrow>
     go_error + DirEntry list \<Rightarrow> string \<Rightarrow> go_error + 's Schema Pool" where
  "openPoolAndMigrate px parse env pg sc dir dsn =
     (case open_pool px parse env (Some ((DefaultConfig parse env)\<lparr>DSN := dsn\<rparr>)) of
        Inl err \<Rightarrow> Inl err
      | Inr pool \<Rightarrow>
          (case MigrateUp pg sc dir pool of
             ((n, Some err), pool) \<Rightarrow> Inl (wrap ''migrate'' err)
           | ((n, None), pool) \<Rightarrow> Inr pool))"

section \<open>The command\<close>

text \<open>What \<open>cmd/migrate\<close> prints and its exit code, and the database it leaves, if it opened one.\<close>

record 's MigrateRun =
  exit_code :: nat
  stdout :: "string list"
  stderr :: "string list"
  left :: "'s Schema Pool option"

definition run_up :: "nat \<times> go_error option \<Rightarrow> string \<Rightarrow> string \<Rightarrow> 's Schema Pool \<Rightarrow> 's MigrateRun" where
  "run_up res failed done db =
     (case res of
        (n, Some err) \<Rightarrow>
          \<lparr>exit_code = 1, stdout = [], stderr = [failed @ '': '' @ error_text err], left = Some db\<rparr>
      | (n, None) \<Rightarrow>
          \<lparr>exit_code = 0, stdout = [done @ '' '' @ FormatInt (int n) @ '' migration(s)''], stderr = [],
           left = Some db\<rparr>)"

text \<open>The loop of \<open>--status\<close>; an error of the query leaves \<open>applied\<close> false.\<close>

fun status_loop :: "Pg \<Rightarrow> Migration list \<Rightarrow> 's Schema Pool \<Rightarrow> string list \<times> 's Schema Pool" where
  "status_loop pg [] db = ([], db)"
| "status_loop pg (m # migs) db =
     (case QueryRow pg (sql_version_exists (Version m)) db of
        (res, db) \<Rightarrow>
          (let applied = (case res of Inr True \<Rightarrow> True | _ \<Rightarrow> False);
               state = (if applied then ''applied'' else ''STARTED'')
           in case status_loop pg migs db of
                (lines, db) \<Rightarrow> ((FormatInt (Version m) @ '' '' @ Name m @ '' ['' @ state @ '']'') # lines, db)))"

definition migrate_main ::
  "('c, 's Schema) Pgxpool \<Rightarrow> (string \<Rightarrow> duration option) \<Rightarrow> environ \<Rightarrow> Pg \<Rightarrow> 's Scripts \<Rightarrow>
     go_error + DirEntry list \<Rightarrow> bool \<Rightarrow> bool \<Rightarrow> bool \<Rightarrow> 's MigrateRun" where
  "migrate_main px parse env pg sc dir up down status =
     (if \<not> up \<and> \<not> down \<and> \<not> status
      then \<lparr>exit_code = 2, stdout = [], stderr = [''usage: migrate [--up|--down|--status]''], left = None\<rparr>
      else (case open_pool px parse env None of
              Inl err \<Rightarrow> \<lparr>exit_code = 1, stdout = [], stderr = [''db: '' @ error_text err], left = None\<rparr>
            | Inr pool \<Rightarrow>
                if up then (case MigrateUp pg sc dir pool of (res, db) \<Rightarrow> run_up res ''migrate up'' ''applied'' db)
                else if down
                then (case MigrateDown pg sc dir pool of (res, db) \<Rightarrow> run_up res ''migrate down'' ''rolled back'' db)
                else (case LoadMigrations dir of
                        Inl err \<Rightarrow> \<lparr>exit_code = 1, stdout = [], stderr = [''load migrations: '' @ error_text err],
                                    left = Some pool\<rparr>
                      | Inr migs \<Rightarrow>
                          (case EnsureSchemaMigrations pg pool of
                             (Inl err, db) \<Rightarrow> \<lparr>exit_code = 1, stdout = [],
                                               stderr = [''ensure schema: '' @ error_text err], left = Some db\<rparr>
                           | (Inr _, db) \<Rightarrow>
                               (case status_loop pg migs db of
                                  (lines, db) \<Rightarrow> \<lparr>exit_code = 0, stdout = lines, stderr = [], left = Some db\<rparr>)))))"

section \<open>The migrations are in order\<close>

lemma load_entry_distinct:
  "load_entry e l = Inr l' \<Longrightarrow> distinct (map fst (upFiles l)) \<Longrightarrow> distinct (map fst (upFiles l'))"
  by (auto simp: load_entry_def distinct_update split: if_splits list.splits option.splits sum.splits)

lemma load_entries_distinct:
  "load_entries es l = Inr l' \<Longrightarrow> distinct (map fst (upFiles l)) \<Longrightarrow> distinct (map fst (upFiles l'))"
  by (induction es arbitrary: l) (auto split: sum.splits dest: load_entry_distinct)

lemma LoadMigrations_sorted:
  assumes "LoadMigrations dir = Inr migs"
  shows "sorted_wrt (<) (map Version migs)"
proof -
  obtain es l where l: "load_entries es \<lparr>upFiles = [], downFiles = [], names = []\<rparr> = Inr l"
    "map Version migs = sort (map fst (upFiles l))"
    using assms by (auto simp: LoadMigrations_def comp_def split: sum.splits)
  from load_entries_distinct [OF l(1)] have "distinct (map fst (upFiles l))" by simp
  with l(2) show ?thesis by (simp add: strict_sorted_iff)
qed

section \<open>What a run records\<close>

definition recorded_list :: "'s Schema \<Rightarrow> int list" where
  "recorded_list t = (case recorded t of None \<Rightarrow> [] | Some vs \<Rightarrow> vs)"

text \<open>The migrations still to apply, and the effect of their scripts one after the other.\<close>

definition pending :: "Migration list \<Rightarrow> int list \<Rightarrow> Migration list" where
  "pending migs vs = filter (\<lambda>m. Version m \<notin> set vs) migs"

fun run_all :: "'s Scripts \<Rightarrow> string list \<Rightarrow> 's \<Rightarrow> go_error + 's" where
  "run_all sc [] ob = Inr ob"
| "run_all sc (sql # sqls) ob = (case run_script sc sql ob of Inl err \<Rightarrow> Inl err | Inr ob \<Rightarrow> run_all sc sqls ob)"

lemma sql_script_recorded: "sql_script sc sql t = Inr ((), t') \<Longrightarrow> recorded t' = recorded t"
  by (auto simp: sql_script_def split: sum.splits)

lemma sql_record_Inr:
  "sql_record v t = Inr ((), t') \<Longrightarrow> \<exists>vs. recorded t = Some vs \<and> recorded t' = Some (vs @ [v])"
  by (auto simp: sql_record_def int4_param_def split: if_splits option.splits)

text \<open>Whatever fails, one migration records its version or nothing.\<close>

lemma migration_tx_records:
  assumes "migration_tx pg sc sql (sql_record v) texts db = (res, db')" and "recorded (tables db) = Some vs"
  shows "recorded (tables db') = Some (vs @ [v]) \<or> res \<noteq> None \<and> recorded (tables db') = Some vs"
proof -
  obtain t1 t2 t3 t4 where t: "texts = (t1, t2, t3, t4)" by (cases texts)
  obtain b db1 where b: "Begin pg db = (b, db1)" by fastforce
  have r1: "recorded (tables db1) = Some vs" using Begin_tables [OF b] assms(2) by simp
  obtain x tx where x: "Exec pg (sql_script sc sql) db1 = (x, tx)" by fastforce
  have r2: "recorded (tables tx) = Some vs"
    using Exec_tables [OF x] r1 sql_script_recorded by (metis old.unit.exhaust)
  obtain y tx' where y: "Exec pg (sql_record v) tx = (y, tx')" by fastforce
  have r3: "recorded (tables tx') = Some vs \<or> recorded (tables tx') = Some (vs @ [v])"
    using Exec_tables [OF y] r2 sql_record_Inr by fastforce
  have r4: "y = Inr u \<Longrightarrow> recorded (tables tx') = Some (vs @ [v])" for u
    using Exec_Inr [of pg "sql_record v" tx u tx'] y r2 sql_record_Inr by fastforce
  have r5: "Commit pg base tx' = (z, db2) \<Longrightarrow> recorded (tables base) = Some vs \<or> recorded (tables base) = Some (vs @ [v]) \<Longrightarrow>
      y = Inr u \<Longrightarrow> recorded (tables db2) = Some (vs @ [v]) \<or> (\<exists>err. z = Inl err) \<and> recorded (tables db2) = Some vs"
    for base z db2 u
    using Commit_tables [of pg base tx' z db2] r4 by (auto split: sum.splits)
  show ?thesis
    using assms(1) b x y r1 r2 r3 r4 r5
    by (auto simp: migration_tx_def t Let_def split: sum.splits if_splits prod.splits)
qed

lemma up_loop_records:
  assumes "up_loop pg sc migs a db = ((n, err), db')" and "recorded (tables db) = Some vs"
    and "sorted_wrt (<) (map Version migs)"
  shows "\<exists>k. recorded (tables db') = Some (vs @ map Version (take k (pending migs vs))) \<and>
    a \<le> n \<and> n - a \<le> k \<and> k \<le> n - a + 1 \<and> k \<le> length (pending migs vs) \<and>
    (err = None \<longrightarrow> n = a + length (pending migs vs) \<and> k = length (pending migs vs))"
  using assms
proof (induction migs arbitrary: a db vs)
  case Nil
  then show ?case by (auto simp: pending_def)
next
  case (Cons m migs)
  obtain x db1 where q: "QueryRow pg (sql_version_exists (Version m)) db = (x, db1)" by fastforce
  have r1: "recorded (tables db1) = Some vs" using QueryRow_tables [OF q] Cons.prems(2) by simp
  have srt: "sorted_wrt (<) (map Version migs)" "m' \<in> set migs \<Longrightarrow> Version m' \<noteq> Version m" for m'
    using Cons.prems(3) by auto
  show ?case
  proof (cases x)
    case (Inl e)
    then show ?thesis using Cons.prems q r1 by (intro exI [of _ 0]) (auto split: row_error.splits)
  next
    case (Inr ex)
    have ex: "ex \<longleftrightarrow> Version m \<in> set vs"
      using QueryRow_Inr [OF q [unfolded Inr]] Cons.prems(2)
      by (auto simp: sql_version_exists_def int4_param_def split: if_splits)
    show ?thesis
    proof (cases ex)
      case True
      then show ?thesis using Cons.IH [OF _ r1 srt(1)] Cons.prems(1) q Inr ex by (simp add: pending_def)
    next
      case False
      obtain y db2 where y: "migration_tx pg sc (UpSQL m) (sql_record (Version m))
          (labelled ''begin tx for v'' (Version m), labelled ''apply v'' (Version m),
           labelled ''record v'' (Version m), labelled ''commit v'' (Version m)) db1 = (y, db2)"
        by fastforce
      note r2 = migration_tx_records [OF y r1]
      have p: "pending (m # migs) vs = m # pending migs (vs @ [Version m])"
        using False ex srt(2) by (auto simp: pending_def intro!: filter_cong)
      show ?thesis
      proof (cases y)
        case None
        with r2 have "recorded (tables db2) = Some (vs @ [Version m])" by simp
        from Cons.IH [OF _ this srt(1), of "a + 1"] obtain k where k:
          "recorded (tables db') = Some ((vs @ [Version m]) @ map Version (take k (pending migs (vs @ [Version m]))))"
          "a + 1 \<le> n" "n - (a + 1) \<le> k" "k \<le> n - (a + 1) + 1" "k \<le> length (pending migs (vs @ [Version m]))"
          "err = None \<longrightarrow> n = a + 1 + length (pending migs (vs @ [Version m])) \<and> k = length (pending migs (vs @ [Version m]))"
          using Cons.prems(1) q Inr False y None by auto
        then show ?thesis by (intro exI [of _ "Suc k"]) (auto simp: p)
      next
        case (Some e)
        then have n: "n = a" "err = Some e" "db' = db2" using Cons.prems(1) q Inr False y by auto
        from r2 Some show ?thesis
        proof (elim disjE conjE)
          assume "recorded (tables db2) = Some (vs @ [Version m])"
          then show ?thesis using n by (intro exI [of _ 1]) (auto simp: p)
        next
          assume "recorded (tables db2) = Some vs"
          then show ?thesis using n by (intro exI [of _ 0]) (auto simp: p)
        qed
      qed
    qed
  qed
qed

section \<open>Without faults\<close>

lemma migration_tx_calm:
  assumes "calm pg db" and "run_script sc sql (objects (tables db)) = Inr ob"
    and "stmt ((tables db)\<lparr>objects := ob\<rparr>) = Inr ((), t)"
  shows "\<exists>db'. migration_tx pg sc sql stmt texts db = (None, db') \<and> calm pg db' \<and> tables db' = t"
  using assms
  by (cases texts) (simp add: migration_tx_def Begin_calm Exec_calm sql_script_def Commit_calm)

definition int4_version :: "Migration \<Rightarrow> bool" where
  "int4_version m \<longleftrightarrow> - (2 ^ 31) \<le> Version m \<and> Version m < 2 ^ 31"

lemma up_loop_calm:
  assumes "calm pg db" and "recorded (tables db) = Some vs" and "sorted_wrt (<) (map Version migs)"
    and "list_all int4_version migs" and "run_all sc (map UpSQL (pending migs vs)) (objects (tables db)) = Inr ob"
  shows "\<exists>n db'. up_loop pg sc migs a db = ((n, None), db') \<and> calm pg db' \<and> objects (tables db') = ob"
  using assms
proof (induction migs arbitrary: a db vs)
  case Nil
  then show ?case by (simp add: pending_def)
next
  case (Cons m migs)
  have v: "- (2 ^ 31) \<le> Version m" "Version m < 2 ^ 31" using Cons.prems(4) by (simp_all add: int4_version_def)
  have q: "QueryRow pg (sql_version_exists (Version m)) db = (Inr (Version m \<in> set vs), bump 1 db)"
    using Cons.prems(1,2) v by (simp add: QueryRow_calm sql_version_exists_def int4_param_def)
  show ?case
  proof (cases "Version m \<in> set vs")
    case True
    then show ?thesis
      using Cons.IH [of "bump 1 db" vs a] Cons.prems q by (simp add: pending_def)
  next
    case False
    have p: "pending (m # migs) vs = m # pending migs (vs @ [Version m])"
      using False Cons.prems(3) by (auto simp: pending_def intro!: filter_cong)
    obtain ob1 where ob1: "run_script sc (UpSQL m) (objects (tables db)) = Inr ob1"
      "run_all sc (map UpSQL (pending migs (vs @ [Version m]))) ob1 = Inr ob"
      using Cons.prems(5) by (auto simp: p split: sum.splits)
    let ?t = "(tables db)\<lparr>objects := ob1, recorded := Some (vs @ [Version m])\<rparr>"
    have "sql_record (Version m) ((tables (bump 1 db))\<lparr>objects := ob1\<rparr>) = Inr ((), ?t)"
      using False v Cons.prems(2) by (simp add: sql_record_def int4_param_def)
    then obtain db2 where db2: "migration_tx pg sc (UpSQL m) (sql_record (Version m))
          (labelled ''begin tx for v'' (Version m), labelled ''apply v'' (Version m),
           labelled ''record v'' (Version m), labelled ''commit v'' (Version m)) (bump 1 db) = (None, db2)"
      "calm pg db2" "tables db2 = ?t"
      using migration_tx_calm [of pg "bump 1 db" sc "UpSQL m" ob1 "sql_record (Version m)" ?t] Cons.prems(1) ob1(1)
      by fastforce
    then show ?thesis
      using Cons.IH [of db2 "vs @ [Version m]" "a + 1"] Cons.prems q False ob1(2) by simp
  qed
qed

lemma up_loop_nothing:
  assumes "calm pg db" and "recorded (tables db) = Some vs" and "list_all int4_version migs"
    and "pending migs vs = []"
  shows "\<exists>db'. up_loop pg sc migs a db = ((a, None), db') \<and> tables db' = tables db"
  using assms
proof (induction migs arbitrary: db)
  case (Cons m migs)
  then have q: "QueryRow pg (sql_version_exists (Version m)) db = (Inr True, bump 1 db)"
    by (simp add: QueryRow_calm sql_version_exists_def int4_param_def int4_version_def pending_def split: if_splits)
  show ?case
    using Cons.IH [of "bump 1 db"] Cons.prems q by (simp add: pending_def split: if_splits)
qed simp

lemma Ensure_records:
  assumes "EnsureSchemaMigrations pg db = (x, db1)"
  shows "recorded_list (tables db1) = recorded_list (tables db) \<and> objects (tables db1) = objects (tables db) \<and>
    (x = Inr () \<longrightarrow> recorded (tables db1) = Some (recorded_list (tables db)))"
proof -
  have t: "sql_ensure (tables db) = Inr ((), (tables db)\<lparr>recorded := Some (recorded_list (tables db))\<rparr>)"
    by (simp add: sql_ensure_def recorded_list_def split: option.splits)
  have "tables db1 = tables db \<and> (\<exists>err. x = Inl err) \<or>
      tables db1 = (tables db)\<lparr>recorded := Some (recorded_list (tables db))\<rparr>"
    using Exec_tables [of pg sql_ensure db x db1] assms by (auto simp: EnsureSchemaMigrations_def t)
  then show ?thesis by (auto simp: recorded_list_def)
qed

lemma Ensure_calm:
  "calm pg db \<Longrightarrow> \<exists>db1. EnsureSchemaMigrations pg db = (Inr (), db1) \<and> calm pg db1 \<and>
     (recorded (tables db) \<noteq> None \<longrightarrow> tables db1 = tables db)"
  by (auto simp: EnsureSchemaMigrations_def Exec_calm sql_ensure_def)

lemma MigrateUp_records:
  assumes load: "LoadMigrations dir = Inr migs" and up: "MigrateUp pg sc dir db = ((n, err), db')"
    and todo: "todo = pending migs (recorded_list (tables db))"
  shows "\<exists>k. recorded_list (tables db') = recorded_list (tables db) @ map Version (take k todo) \<and>
      n \<le> k \<and> k \<le> n + 1 \<and> k \<le> length todo \<and> (err = None \<longrightarrow> n = length todo \<and> k = n)"
proof -
  let ?vs = "recorded_list (tables db)"
  obtain x db1 where en: "EnsureSchemaMigrations pg db = (x, db1)" by fastforce
  note rec = Ensure_records [OF en]
  show ?thesis
  proof (cases x)
    case (Inl e)
    then show ?thesis using up en rec by (intro exI [of _ 0]) (auto simp: MigrateUp_def)
  next
    case (Inr u)
    then have "up_loop pg sc migs 0 db1 = ((n, err), db')" using up en load by (simp add: MigrateUp_def)
    from up_loop_records [OF this _ LoadMigrations_sorted [OF load], of ?vs] Inr rec
    obtain k where k: "recorded (tables db') = Some (?vs @ map Version (take k todo))"
      "n \<le> k" "k \<le> n + 1" "k \<le> length todo" "err = None \<longrightarrow> n = length todo \<and> k = length todo"
      unfolding todo by auto
    from k(1) have "recorded_list (tables db') = ?vs @ map Version (take k todo)"
      by (simp add: recorded_list_def [of "tables db'"])
    with k show ?thesis by auto
  qed
qed

text \<open>
  C40. \<open>MigrateUp\<close>, whatever fails on the way, records versions only in ascending order and skips
  none: what is recorded afterwards is what was recorded before and a first part of the versions
  still to apply, as many as it reports or (when the answer to the last statements was lost) one
  more; without an error that is all of them. On a working connection whose scripts succeed there
  is no error, every pending script has been run once, in order, and a second run applies nothing
  and changes nothing.
\<close>

theorem migrate_up_in_order:
  assumes load: "LoadMigrations dir = Inr migs" and up: "MigrateUp pg sc dir db = ((n, err), db')"
    and todo: "todo = pending migs (recorded_list (tables db))"
  shows "(\<exists>k. recorded_list (tables db') = recorded_list (tables db) @ map Version (take k todo) \<and>
      n \<le> k \<and> k \<le> n + 1 \<and> k \<le> length todo \<and> (err = None \<longrightarrow> n = length todo \<and> k = n)) \<and>
    sorted (map Version todo) \<and>
    (calm pg db \<and> list_all int4_version migs \<and> run_all sc (map UpSQL todo) (objects (tables db)) = Inr ob \<longrightarrow>
       err = None \<and> objects (tables db') = ob \<and>
       (\<exists>db''. MigrateUp pg sc dir db' = ((0, None), db'') \<and> tables db'' = tables db'))"
proof -
  let ?vs = "recorded_list (tables db)"
  note srt = LoadMigrations_sorted [OF load]
  have sorted: "sorted (map Version todo)"
    using srt by (simp add: todo pending_def strict_sorted_iff sorted_filter)
  obtain x db1 where en: "EnsureSchemaMigrations pg db = (x, db1)" by fastforce
  note rec = Ensure_records [OF en]
  note prefix = MigrateUp_records [OF load up todo]  have "err = None \<and> objects (tables db') = ob \<and>
      (\<exists>db''. MigrateUp pg sc dir db' = ((0, None), db'') \<and> tables db'' = tables db')"
    if c: "calm pg db" "list_all int4_version migs" "run_all sc (map UpSQL todo) (objects (tables db)) = Inr ob"
  proof -
    have x: "x = Inr ()" "calm pg db1" using Ensure_calm [OF c(1)] en by auto
    then have "recorded (tables db1) = Some ?vs" using rec by simp
    moreover have "run_all sc (map UpSQL (pending migs ?vs)) (objects (tables db1)) = Inr ob"
      using c(3) rec by (simp add: todo)
    ultimately obtain k db2 where u: "up_loop pg sc migs 0 db1 = ((k, None), db2)" "calm pg db2" "objects (tables db2) = ob"
      using up_loop_calm [OF x(2) _ srt c(2)] by blast
    then have d: "db2 = db'" "err = None" using up en x load by (auto simp: MigrateUp_def)
    have "recorded (tables db1) = Some ?vs" using rec x(1) by simp
    from up_loop_records [OF u(1) this srt]
    have all: "recorded (tables db') = Some (?vs @ map Version todo)" by (auto simp: todo d)
    have none: "pending migs (?vs @ map Version todo) = []"
      by (auto simp: pending_def todo filter_empty_conv)
    obtain db3 where e: "EnsureSchemaMigrations pg db' = (Inr (), db3)" "calm pg db3" "tables db3 = tables db'"
      using Ensure_calm [of pg db'] u(2) all d by auto
    obtain db4 where "up_loop pg sc migs 0 db3 = ((0, None), db4)" "tables db4 = tables db3"
      using up_loop_nothing [OF e(2) _ c(2) none] all e(3) by auto
    then show ?thesis using e load d u(3) by (simp add: MigrateUp_def)
  qed
  with prefix sorted show ?thesis by blast
qed

text \<open>Two files of each kind, out of order in the list, and scripts that note that they have been run.\<close>

definition demo_dir :: "DirEntry list" where
  "demo_dir =
     [\<lparr>entry_Name = ''0002_b.up.sql'', entry_IsDir = False, entry_data = Inr ''b''\<rparr>,
      \<lparr>entry_Name = ''0001_a.down.sql'', entry_IsDir = False, entry_data = Inr ''undo a''\<rparr>,
      \<lparr>entry_Name = ''0001_a.up.sql'', entry_IsDir = False, entry_data = Inr ''a''\<rparr>,
      \<lparr>entry_Name = ''README.sql'', entry_IsDir = False, entry_data = Inr ''x''\<rparr>]"

definition demo_scripts :: "string list Scripts" where
  "demo_scripts = \<lparr>run_script = (\<lambda>sql done. Inr (done @ [sql])), ends_tx = (\<lambda>_. True)\<rparr>"

definition demo_pool :: "string list Schema Pool" where
  "demo_pool = \<lparr>tables = \<lparr>objects = [], recorded = None\<rparr>, statements = 0\<rparr>"

lemma demo_load: "map_sum (\<lambda>_. ()) (map (\<lambda>m. (Version m, Name m, UpSQL m, DownSQL m))) (LoadMigrations (Inr demo_dir)) =
    Inr [(1, ''0001_a'', ''a'', ''undo a''), (2, ''0002_b'', ''b'', '''')]"
  by (simp add: LoadMigrations_def load_entry_def demo_dir_def HasSuffix_def SplitN2_def Atoi_def ParseInt_def
      is_digit_def digits_value_def TrimSuffix_def index_string_def)

theorem migrate_up_in_order_witness:
  "\<exists>db' db''. MigrateUp demo_pg demo_scripts (Inr demo_dir) demo_pool = ((2, None), db') \<and>
     tables db' = \<lparr>objects = [''a'', ''b''], recorded = Some [1, 2]\<rparr> \<and>
     MigrateUp demo_pg demo_scripts (Inr demo_dir) db' = ((0, None), db'') \<and> tables db'' = tables db'"
proof -
  obtain migs where migs: "LoadMigrations (Inr demo_dir) = Inr migs"
    "map (\<lambda>m. (Version m, Name m, UpSQL m, DownSQL m)) migs = [(1, ''0001_a'', ''a'', ''undo a''), (2, ''0002_b'', ''b'', '''')]"
    using demo_load by (cases "LoadMigrations (Inr demo_dir)") auto
  then obtain m1 m2 where m: "migs = [m1, m2]" "Version m1 = 1" "UpSQL m1 = ''a''" "Version m2 = 2" "UpSQL m2 = ''b''"
    by auto
  obtain n err db' where up: "MigrateUp demo_pg demo_scripts (Inr demo_dir) demo_pool = ((n, err), db')"
    by (metis prod.collapse)
  have todo: "migs = pending migs (recorded_list (tables demo_pool))"
    by (simp add: pending_def recorded_list_def demo_pool_def)
  have "calm demo_pg demo_pool" by (simp add: calm_def demo_pg_def)
  moreover have "list_all int4_version migs" by (simp add: m int4_version_def)
  moreover have "run_all demo_scripts (map UpSQL migs) (objects (tables demo_pool)) = Inr [''a'', ''b'']"
    by (simp add: m demo_scripts_def demo_pool_def)
  ultimately have main: "err = None" "objects (tables db') = [''a'', ''b'']"
    "\<exists>db''. MigrateUp demo_pg demo_scripts (Inr demo_dir) db' = ((0, None), db'') \<and> tables db'' = tables db'"
    "\<exists>k. recorded_list (tables db') = recorded_list (tables demo_pool) @ map Version (take k migs) \<and>
       (err = None \<longrightarrow> n = length migs \<and> k = n)"
    using migrate_up_in_order [OF migs(1) up todo] by blast+
  have "recorded_list (tables db') = [1, 2]" "n = 2"
    using main(1,4) by (auto simp: m recorded_list_def demo_pool_def)
  moreover from this(1) have "recorded (tables db') = Some [1, 2]"
    by (simp add: recorded_list_def split: option.splits)
  ultimately show ?thesis using up main by (cases "tables db'") auto
qed

end
