(* ===== verification/Tracing.thy ===== *)
theory Tracing
  imports Migrate
begin

text \<open>
  \<open>internal/tracing.go\<close>, and what holds the process together: \<open>newServer\<close> and \<open>Run\<close> of
  \<open>internal/server.go\<close>, the opening of the database in \<open>newServices\<close>, and
  \<open>cmd/onboarding-kyc/main.go\<close>. OpenTelemetry is a parameter: whether its exporter can be created
  and what shutting a provider down gives. A provider is known by how it was configured, and stands
  for its \<open>Shutdown\<close> function too.
\<close>

section \<open>The tracer provider\<close>

datatype TracerProvider = NoExporter | Exporter string bool

record Otel =
  otlptracehttp_New :: "string \<Rightarrow> bool \<Rightarrow> go_error option"
  provider_Shutdown :: "TracerProvider \<Rightarrow> go_error option"

text \<open>The package's variable and the global provider of the library.\<close>

record TracerState =
  tracerShutdown :: "TracerProvider option"
  globalProvider :: "TracerProvider option"

definition no_tracer :: TracerState where
  "no_tracer = \<lparr>tracerShutdown = None, globalProvider = None\<rparr>"

definition installTracer ::
  "Otel \<Rightarrow> environ \<Rightarrow> TracerState \<Rightarrow> (go_error + TracerProvider) \<times> TracerState" where
  "installTracer ot env ts =
     (case tracerShutdown ts of
        Some sd \<Rightarrow> (Inr sd, ts)
      | None \<Rightarrow>
          (let ep = env ''OTEL_EXPORTER_OTLP_ENDPOINT'';
               insecure = (env ''OTEL_EXPORTER_OTLP_INSECURE'' \<noteq> '''')
           in if ep = ''''
              then (Inr NoExporter, \<lparr>tracerShutdown = Some NoExporter, globalProvider = Some NoExporter\<rparr>)
              else (case otlptracehttp_New ot ep insecure of
                      Some err \<Rightarrow> (Inl (wrap ''otlp exporter'' err), ts)
                    | None \<Rightarrow> (Inr (Exporter ep insecure),
                               \<lparr>tracerShutdown = Some (Exporter ep insecure),
                                globalProvider = Some (Exporter ep insecure)\<rparr>))))"

definition shutdownTracer :: "Otel \<Rightarrow> TracerState \<Rightarrow> go_error option \<times> TracerState" where
  "shutdownTracer ot ts =
     (case tracerShutdown ts of
        None \<Rightarrow> (None, ts\<lparr>tracerShutdown := None\<rparr>)
      | Some sd \<Rightarrow> (provider_Shutdown ot sd, ts\<lparr>tracerShutdown := None\<rparr>))"

section \<open>Spans\<close>

record Span =
  span_Name :: string
  span_Recording :: bool
  span_StatusCode :: "nat option"
  span_Errors :: "go_error list"
  span_Error :: "string option"

text \<open>\<open>http.StatusText\<close> of the codes from 500 on.\<close>

definition StatusText5 :: "nat \<Rightarrow> string" where
  "StatusText5 code =
     (case map_of
        [(500 :: nat, ''Internal Server Error''), (501, ''Not Implemented''), (502, ''Bad Gateway''),
         (503, ''Service Unavailable''), (504, ''Gateway Timeout''), (505, ''HTTP Version Not Supported''),
         (506, ''Variant Also Negotiates''), (507, ''Insufficient Storage''), (508, ''Loop Detected''),
         (510, ''Not Extended''), (511, ''Network Authentication Required'')] code of
        None \<Rightarrow> ''''
      | Some s \<Rightarrow> s)"

text \<open>The span of a request with method \<open>verb\<close> and path \<open>path\<close>, around the next handler.\<close>

definition spanMiddleware ::
  "bool \<Rightarrow> string \<Rightarrow> string \<Rightarrow> ('s, 'e) Handler \<Rightarrow> Request \<Rightarrow> ('s, 'e) Sys \<Rightarrow>
     (Response \<times> ('s, 'e) Sys) \<times> Span" where
  "spanMiddleware recording verb path next_handler rq s =
     (let span = \<lparr>span_Name = verb @ '' '' @ path, span_Recording = recording, span_StatusCode = None,
                  span_Errors = [], span_Error = None\<rparr>;
          (resp, s) = next_handler rq s;
          span = span\<lparr>span_StatusCode := Some (resp_status resp)\<rparr>;
          span = (if resp_status resp \<ge> 500
                  then span\<lparr>span_Error := Some (StatusText5 (resp_status resp))\<rparr> else span)
      in ((resp, s), span))"

definition recordSpanError :: "go_error option \<Rightarrow> Span option \<Rightarrow> Span option" where
  "recordSpanError err active =
     (case err of
        None \<Rightarrow> active
      | Some e \<Rightarrow>
          (case active of
             Some span \<Rightarrow>
               if span_Recording span
               then Some (span\<lparr>span_Errors := span_Errors span @ [e], span_Error := Some (error_text e)\<rparr>)
               else active
           | None \<Rightarrow> None))"

section \<open>The server\<close>

text \<open>The chain of \<open>newServer\<close> with the span in it.\<close>

definition newServer_handler ::
  "('s, 'e AuditEnv_scheme) Services \<Rightarrow> ('e AuditEnv_scheme) VendorClient \<Rightarrow> bool \<Rightarrow> string \<Rightarrow> string \<Rightarrow>
     string list \<Rightarrow> ('s, 'e AuditEnv_scheme) Handler" where
  "newServer_handler sv V recording verb path segs =
     correlationMiddleware (\<lambda>rq s. fst (spanMiddleware recording verb path
       (loggingMiddleware (\<lambda>rq s. case newMux verb segs of (rt, pv) \<Rightarrow> handle sv V rt (rq\<lparr>req_path := pv\<rparr>) s)) rq s))"

record ServerConfig =
  srv_Addr :: string
  srv_ReadHeaderTimeout :: duration

definition newServer :: "string \<Rightarrow> ServerConfig" where
  "newServer addr = \<lparr>srv_Addr = addr, srv_ReadHeaderTimeout = 5 * second\<rparr>"

text \<open>
  \<open>newServices\<close> with the database opened: \<open>None\<close> is the end of the process, which is also what a
  database that cannot be opened or migrated leads to.
\<close>

definition start_services ::
  "('c, 's Schema) Pgxpool \<Rightarrow> (string \<Rightarrow> duration option) \<Rightarrow> environ \<Rightarrow> Pg \<Rightarrow> 's Scripts \<Rightarrow>
     go_error + DirEntry list \<Rightarrow> (StartUp \<times> 's Schema Pool option) option" where
  "start_services px parse env pg sc dir =
     (case newServices env of
        None \<Rightarrow> None
      | Some st \<Rightarrow>
          (case st_store st of
             UseMemory \<Rightarrow> Some (st, None)
           | UseDB dsn \<Rightarrow>
               (case openPoolAndMigrate px parse env pg sc dir dsn of
                  Inl err \<Rightarrow> None
                | Inr pool \<Rightarrow> Some (st, Some pool))))"

datatype run_result = Ended | Returned go_error

text \<open>\<open>listen\<close> is the error with which \<open>ListenAndServe\<close> returns; it returns with no other value.\<close>

definition Run ::
  "Otel \<Rightarrow> ('c, 's Schema) Pgxpool \<Rightarrow> (string \<Rightarrow> duration option) \<Rightarrow> environ \<Rightarrow> Pg \<Rightarrow> 's Scripts \<Rightarrow>
     go_error + DirEntry list \<Rightarrow> (ServerConfig \<Rightarrow> go_error) \<Rightarrow> string \<Rightarrow> TracerState \<Rightarrow> run_result \<times> TracerState" where
  "Run ot px parse env pg sc dir listen addr ts =
     (case installTracer ot env ts of
        (Inl err, ts) \<Rightarrow> (Returned (wrap ''install tracer'' err), ts)
      | (Inr _, ts) \<Rightarrow>
          (case start_services px parse env pg sc dir of
             None \<Rightarrow> (Ended, ts)
           | Some _ \<Rightarrow> (Returned (listen (newServer addr)), snd (shutdownTracer ot ts))))"

text \<open>The exit code: the error of \<open>Run\<close> is dropped, and a process that ends in \<open>newServices\<close> exits with 1 or 2.\<close>

definition exits_zero :: "run_result \<Rightarrow> bool" where
  "exits_zero r \<longleftrightarrow> r \<noteq> Ended"

definition main_exits_zero ::
  "Otel \<Rightarrow> ('c, 's Schema) Pgxpool \<Rightarrow> (string \<Rightarrow> duration option) \<Rightarrow> environ \<Rightarrow> Pg \<Rightarrow> 's Scripts \<Rightarrow>
     go_error + DirEntry list \<Rightarrow> (ServerConfig \<Rightarrow> go_error) \<Rightarrow> bool" where
  "main_exits_zero ot px parse env pg sc dir listen \<longleftrightarrow>
     exits_zero (fst (Run ot px parse env pg sc dir listen '':8080'' no_tracer))"

section \<open>Facts\<close>

text \<open>The first installation wins, and a second shutdown does nothing.\<close>

lemma installTracer_again:
  "installTracer ot env ts = (Inr sd, ts') \<Longrightarrow> installTracer ot env' ts' = (Inr sd, ts')"
  by (auto simp: installTracer_def Let_def split: option.splits if_splits)

lemma shutdownTracer_again: "shutdownTracer ot (snd (shutdownTracer ot ts)) = (None, snd (shutdownTracer ot ts))"
  by (simp add: shutdownTracer_def split: option.splits)

text \<open>A span changes neither the response nor the state, and carries an error exactly for a 5xx answer.\<close>

lemma spanMiddleware_transparent: "fst (spanMiddleware recording verb path h rq s) = h rq s"
  by (simp add: spanMiddleware_def Let_def split: prod.splits)

lemma spanMiddleware_span:
  "snd (spanMiddleware recording verb path h rq s) =
     \<lparr>span_Name = verb @ '' '' @ path, span_Recording = recording,
      span_StatusCode = Some (resp_status (fst (h rq s))), span_Errors = [],
      span_Error = (if resp_status (fst (h rq s)) \<ge> 500
                    then Some (StatusText5 (resp_status (fst (h rq s)))) else None)\<rparr>"
  by (simp add: spanMiddleware_def Let_def split: prod.splits)

text \<open>So the chain of the server is the one the properties of the service are about.\<close>

lemma newServer_handler_serve: "newServer_handler sv V recording verb path segs = serve sv V verb segs"
  by (rule ext)+ (simp add: newServer_handler_def serve_def spanMiddleware_transparent)

text \<open>A process that could not listen, or not even set up its tracer, exits with code 0.\<close>

lemma failed_run_exits_zero:
  "fst (Run ot px parse env pg sc dir listen '':8080'' no_tracer) = Returned err \<Longrightarrow>
     main_exits_zero ot px parse env pg sc dir listen"
  by (simp add: main_exits_zero_def exits_zero_def)

text \<open>A service that has started with a database has one whose schema was brought up to date without an error.\<close>

lemma start_services_migrated:
  assumes "start_services px parse env pg sc dir = Some (st, Some pool)" and "LoadMigrations dir = Inr migs"
  shows "st_store st = UseDB (env ''DB_URL'') \<and>
    (\<exists>pool0. open_pool px parse env (Some ((DefaultConfig parse env)\<lparr>DSN := env ''DB_URL''\<rparr>)) = Inr pool0 \<and>
       recorded_list (tables pool) =
         recorded_list (tables pool0) @ map Version (pending migs (recorded_list (tables pool0))))"
proof -
  obtain dsn pool0 n where p: "newServices env = Some st" "st_store st = UseDB dsn"
    "open_pool px parse env (Some ((DefaultConfig parse env)\<lparr>DSN := dsn\<rparr>)) = Inr pool0"
    "MigrateUp pg sc dir pool0 = ((n, None), pool)"
    using assms(1)
    by (auto simp: start_services_def openPoolAndMigrate_def split: option.splits store_choice.splits sum.splits prod.splits)
  have "dsn = env ''DB_URL''"
    using p(1,2) by (auto simp: newServices_def Let_def split: option.splits if_splits sum.splits)
  moreover have "recorded_list (tables pool) =
      recorded_list (tables pool0) @ map Version (pending migs (recorded_list (tables pool0)))"
    using MigrateUp_records [OF assms(2) p(4) refl] by auto
  ultimately show ?thesis using p(2,3) by blast
qed

end
