(* ===== verification/Spec2Isabelle.thy ===== *)
theory Spec2Isabelle
  imports Concurrency Onboarding Tracing
begin

text \<open>
  A model of the onboarding and KYC service (Go, \<open>src/\<close>), with the properties that make it correct.

  \<^bold>\<open>The program.\<close> The service takes a person who wants an account through the states of
  \<open>internal/statemachine.go\<close>: documents, liveness, screening against sanctions lists, the vendor's
  decision or an analyst's, and after a year again. HTTP handlers (\<open>internal/server.go\<close>) work on an
  application repository, stores of documents, liveness sessions and screening hits, a vendor client
  (\<open>vendor.go\<close>, \<open>vendor_onfido.go\<close>) and a screening client (\<open>screening.go\<close>,
  \<open>sanctions_http.go\<close>). Repository and stores are in memory (\<open>repo.go\<close>, \<open>stores.go\<close>) or in
  PostgreSQL (\<open>db_stores.go\<close>), whose schema the migrations of \<open>db/db.go\<close> bring up to date, at
  start-up or by \<open>cmd/migrate\<close>. Vendors call back through signed webhooks (\<open>webhooks.go\<close>). Every
  transition goes to the audit log (\<open>audit.go\<close>) and to the policy engine (\<open>policy_sink.go\<close>). A
  retention sweeper (\<open>retention.go\<close>), a re-KYC scheduler (end of \<open>server.go\<close>) and a
  synchronisation of lists (\<open>list_sync.go\<close>) run in the background; outgoing calls are retried by
  \<open>retry.go\<close> and \<open>vendor_http.go\<close>; \<open>tracing.go\<close> wraps requests in spans.

  \<^bold>\<open>The theories\<close>, each named after what it models, with the definitions in the order of the code:
  \<^item> \<open>Prelude\<close>: 64-bit integers and durations, instants in nanoseconds, the world (clock and
    identifiers), errors, the functions of Go's \<open>strings\<close> and \<open>strconv\<close>, the environment.
  \<^item> \<open>StateMachine\<close>, \<open>Metrics\<close>, \<open>AuditLog\<close>, \<open>PolicySink\<close>, \<open>Repo\<close>, \<open>Stores\<close>,
    \<open>Retention\<close>, \<open>Screening\<close>, \<open>Retry\<close>, \<open>Vendor\<close>, \<open>Webhooks\<close>, \<open>Jobs\<close> (re-KYC scheduler and
    list synchronisation), \<open>Server\<close>, \<open>Tracing\<close> (with \<open>newServer\<close> and \<open>Run\<close>): the files above.
    \<open>Json\<close> has what \<open>encoding/json\<close> does when it fills structs with string fields.
  \<^item> \<open>RepoContract\<close>: the abstract system, a map of applications that changes only by the steps of
    \<open>app_step\<close>, each with its audit events; its invariant; and the contracts of an application
    repository as the locales \<open>application_repo\<close> and \<open>reliable_repo\<close>.
  \<^item> \<open>MemRepo\<close>: the in-memory repository meets the contract. \<open>Concurrency\<close>: operations of several
    callers interleaved, and what the version field then gives.
  \<^item> \<open>Service\<close>: every handler, middleware and job is a run of calls of the interfaces (\<open>sys_calls\<close>, in
    the locale \<open>service\<close>, over any stores); over stores that meet their contracts
    (\<open>reliable_service\<close>) such a run is one of the abstract system. The in-memory services are an
    interpretation of both, those over PostgreSQL of the first. \<open>Handlers\<close>: single requests computed exactly. \<open>Onboarding\<close>: the requests of one
    applicant through router and middleware, from the first document to the decision.
    \<open>Scenario\<close>: the concrete world of the instances.
  \<^item> \<open>Base64\<close> and \<open>Crypto\<close>: the encoding the documents are stored in, and the encryptor of
    \<open>db/crypto.go\<close>.
  \<^item> \<open>Database\<close>: what the code uses of PostgreSQL and its driver, statements that fail included, with
    the tables of \<open>db/migrations\<close> and their constraints. \<open>DBStores\<close>: the repository and the stores of
    \<open>db_stores.go\<close>, one definition per SQL statement and one per method. \<open>DBFacts\<close>: their lemmas.
    \<open>DBSchema\<close>, \<open>DBMemory\<close>, \<open>DBFaults\<close>: the constraints, the simulation of the in-memory
    repository, and failures. \<open>DBTrail\<close>: what the audit log says of the rows, as an invariant that
    every call of the repositories keeps. \<open>DBService\<close>: the services over PostgreSQL, and what
    therefore holds of every run of the process. \<open>DBHandlers\<close>: the creation of an application and the
    upload of a document over it, under any failure. \<open>Migrate\<close>: \<open>db/db.go\<close> and \<open>cmd/migrate\<close>.

  \<^bold>\<open>How the model reads.\<close> A struct is a record, a method is a function from the state before to the
  result and the state after, and an error is a value. The three repositories of a process share one
  store, the \<open>'s\<close> of their types: the three in-memory stores side by side (\<open>MemStores\<close>), or the pool of
  the database (\<open>Database\<close>). A read returns the store too, since over a database it sends a statement. The mutexes of the code make each operation
  of a store atomic, so the model's operations are the steps that interleave: requests one after
  the other in \<open>sys_run\<close>, single repository operations in \<open>Concurrency\<close>, statements of several
  connections in \<open>db_run\<close>. Maps are maps; the order in which the runtime ranges over one is an
  argument. A panic and the end of the process are \<open>None\<close> or a constructor of their own. What lies
  outside the repository is a parameter: the JSON parser and printer, the MAC and hash functions,
  the multipart writer (\<open>Lib\<close>, \<open>Codec\<close>), the AEAD and the source of random bytes (\<open>AEAD\<close>,
  \<open>CryptoLib\<close>, \<open>Entropy\<close>), the answers of the network and the policy engine (\<open>NetEnv\<close>,
  \<open>PolicyEnv\<close>), the environment variables, the clock, the identifiers and the random numbers.

  \<^bold>\<open>The database\<close> is a value of type \<open>Tables\<close>, with the rows of each table as a list, and the
  number of statements sent. The parameter \<open>Pg\<close> decides for each statement whether it is refused,
  or carried out and its answer lost, and how the server reads and prints a UUID; \<open>calm\<close> says that
  nothing fails. A transaction works on its own copy, which COMMIT makes the table. Row locks keep
  the row it works on from other connections, which is why its statements are one step. What the
  migration scripts do to the schema is a parameter of \<open>Migrate\<close>, as is whether a script ends the
  transaction it runs in, which the two scripts in \<open>src/db/migrations\<close> do.

  \<^bold>\<open>What is proved.\<close> C1 to C6 hold after any sequence of requests and jobs: the
  audit trail explains every state, decisions are reviewed, dates are right, the log is ordered and
  append-only. C7 to C10, C17, C19 and C21 say exactly what single operations do. C11 and C12 are
  about concurrent callers, C13 to C16 about webhooks (C15 for one process, whose identifiers are in
  memory), C28 and C29 about the transition table and where it departs from the README, C30 about an applicant who does every step,
  C22 to C27 about delivery and retries. C18 is the refinement of the in-memory repository by the
  one over PostgreSQL, method by method; C20, C31 and C39 are the constraints of the schema under
  any failure and interleaving, the transactions under failures, and documents through the database;
  C38 is the service over PostgreSQL under requests, jobs and failures: what C1, C3 and C4 say, for the
  rows of its tables; C34 and C35 are what a client that creates an application or uploads a
  document there is told, and what is then in the tables; C40 is about the migrations and C33 about
  encryption, C32 about screening, C36 about the start-up and C37 about the synchronisation of lists
  and what a failed one leaves on the disk.

  \<^bold>\<open>Termination and bounds.\<close> Nothing runs on fuel: the loops of the code are recursive functions
  over lists, or over the number of attempts left (\<open>retry_loop\<close>, \<open>drain_attempts\<close>), and the
  endless workers are functions of the finite list of what woke them. Version numbers, counters and
  durations are 64-bit words and wrap, and the version column of the database is a 32-bit integer
  that refuses to overflow; where a property needs a bound, it states it (fewer than \<open>2 ^ 64\<close>
  operations in C11, one fewer in C12, the product of the delays in C25, \<open>version_room\<close> in C18).

  \<^bold>\<open>Not modelled.\<close> Listening on a port and the server's time-outs; the rendering of response bodies
  as JSON text; logging; the resource attributes of the tracer and the exporter behind it; the
  deadline of a context, other than that it may have passed when an operation asks; the pool's
  choice of a connection. The audit log passes the broker's client a nil context, which the model's
  client ignores and that of \<open>kafka-go\<close> does not. Texts that PostgreSQL does not take (a NUL byte, broken UTF-8) are
  statements it refuses. Instants are unbounded integers, and letters outside ASCII have no case.
\<close>

section \<open>What holds after any sequence of requests and background jobs\<close>

text \<open>
  C1. Whatever requests the service answers and whichever jobs run, in any order, from a process
  start with an empty log: the transitions the audit log holds for an application, replayed from
  \<open>STARTED\<close>, are all legal, each starts where the one before ended, and they end in the state
  the repository has for it.
\<close>

theorem service_trail_replays:
  assumes "fresh_world e"
    and "apps (s_repo (memory_run lib parse env st evs e)) i = Some a"
  shows "replay StateStarted (transitions_of i (audit_events (s_env (memory_run lib parse env st evs e)))) =
    Some (app_State a)"
  using memory_run_app [OF assms] by (simp add: app_ok_def)

theorem service_trail_replays_witness:
  "replay StateStarted (transitions_of ''xx'' (audit_events (s_env demo_run))) = Some StateStarted"
proof -
  obtain a where a: "apps (s_repo demo_run) ''xx'' = Some a" and st: "app_State a = StateStarted"
    by (rule demo_run_app)
  show ?thesis
    using service_trail_replays [OF demo_world_fresh(1) a [unfolded demo_run_def], folded demo_run_def]
    unfolding st .
qed

text \<open>
  C2. After any run, an application is filed under its own identifier, it is the one the look-up
  by its user finds, and no other application has the same user.
\<close>

theorem service_user_lookup:
  assumes "fresh_world e"
    and "apps (s_repo (memory_run lib parse env st evs e)) i = Some a"
  shows "app_ID a = i \<and> app_UserID a \<noteq> '''' \<and>
    GetByUserID (app_UserID a) (s_repo (memory_run lib parse env st evs e)) = Inr a \<and>
    (\<forall>j b. apps (s_repo (memory_run lib parse env st evs e)) j = Some b \<and> app_UserID b = app_UserID a
       \<longrightarrow> j = i)"
proof -
  have "repo_inv (s_repo (memory_run lib parse env st evs e))"
    using memory_run_ok [OF assms(1)] by (simp add: sys_ok_def repo_ok_def)
  from repo_inv_lookup [OF this assms(2)] show ?thesis .
qed

theorem service_user_lookup_witness:
  "\<exists>a. GetByUserID (app_UserID a) (s_repo demo_run) = Inr a \<and> app_ID a = ''xx''"
proof -
  obtain a where a: "apps (s_repo demo_run) ''xx'' = Some a" by (rule demo_run_app)
  show ?thesis
    using service_user_lookup [OF demo_world_fresh(1) a [unfolded demo_run_def], folded demo_run_def] by blast
qed

text \<open>
  C3. Every decision was reviewed: in any run from any state of the service that meets the
  invariant, the log of a decided application ends with the transition into its state, taken from
  \<open>VENDOR_DECISION\<close> or \<open>MANUAL_REVIEW\<close>, and what the log holds before is a legal path to there.
\<close>

theorem service_decided_after_review:
  assumes "sys_ok mem_view mem_good s"
    and "apps (s_repo (sys_run (memory_services lib parse env st)
           (vendor_client lib parse env (st_vendor st)) evs s)) i = Some a"
    and "IsTerminal (app_State a)"
  shows "\<exists>before f.
    transitions_of i (audit_events (s_env (sys_run (memory_services lib parse env st)
      (vendor_client lib parse env (st_vendor st)) evs s))) =
      before @ [(Some (AString f), Some (AString (app_State a)))] \<and>
    f \<in> {StateVendorDecision, StateManualReview} \<and> replay StateStarted before = Some f"
proof -
  let ?s = "sys_run (memory_services lib parse env st) (vendor_client lib parse env (st_vendor st)) evs s"
  have "sys_ok mem_view mem_good ?s" using mem_service.runs_sys_run [of s lib parse env st evs] assms(1) by (simp add: runs_def)
  then have r: "replay StateStarted (transitions_of i (audit_events (s_env ?s))) = Some (app_State a)"
    using assms(2) by (auto simp: sys_ok_def repo_ok_def app_ok_def dest: app_invD)
  from replay_terminal [OF this assms(3)] show ?thesis
    using r by (auto simp: replay_append split: option.splits if_splits)
qed

theorem service_decided_after_review_witness:
  "\<exists>before f. transitions_of ''xx'' (audit_events (s_env (sys_run demo_sv
        (vendor_client demo_lib (\<lambda>_. None) demo_env UseStub) [SweepPass [] [], ReKYCTick []] demo_sys))) =
      before @ [(Some (AString f), Some (AString StatePass))] \<and>
    f \<in> {StateVendorDecision, StateManualReview}"
proof -
  let ?s = "sys_run demo_sv (vendor_client demo_lib (\<lambda>_. None) demo_env (st_vendor demo_start))
      [SweepPass [] [], ReKYCTick []] demo_sys"
  have "map_option app_State (apps (s_repo ?s) ''xx'') = Some StatePass" by code_simp
  then obtain a where a: "apps (s_repo ?s) ''xx'' = Some a" "app_State a = StatePass"
    by (cases "apps (s_repo ?s) ''xx''") auto
  then show ?thesis
    using service_decided_after_review [OF demo_sys_ok a(1)] by (simp add: demo_start_def) blast
qed

text \<open>
  C4. After any run, a decided application falls due for re-KYC 365 days after its decision, and
  an open one has neither date, whatever path it took through decisions, reviews and re-openings.
\<close>

theorem service_decision_dates:
  assumes "fresh_world e"
    and "apps (s_repo (memory_run lib parse env st evs e)) i = Some a"
  shows "if IsTerminal (app_State a)
    then app_ReKYCDueAt a = AddDuration (app_DecidedAt a) year365
    else app_DecidedAt a = 0 \<and> app_ReKYCDueAt a = 0"
  using memory_run_app [OF assms] by (simp add: app_ok_def dates_ok_def)

theorem service_decision_dates_witness:
  "map_option app_DecidedAt (apps (s_repo demo_run) ''xx'') = Some 0"
proof -
  obtain a where a: "apps (s_repo demo_run) ''xx'' = Some a" and st: "app_State a = StateStarted"
    by (rule demo_run_app)
  show ?thesis
    using service_decision_dates [OF demo_world_fresh(1) a [unfolded demo_run_def]] a st by simp
qed

text \<open>
  C5. After any run, with a clock that does not go back, the audit events are in the order of their
  time stamps and have identifiers that are not empty and never repeat.
\<close>

theorem service_audit_unique_ordered:
  assumes "fresh_world e" and "mono (clock e)"
  shows "let log = audit_events (s_env (memory_run lib parse env st evs e))
    in distinct (map ev_ID log) \<and> sorted (map ev_OccurredAt log) \<and> '''' \<notin> set (map ev_ID log)"proof -
  let ?e = "s_env (memory_run lib parse env st evs e)"
  have "env_le e ?e" using app_steps_env_le [of "(Map.empty, e)"] memory_run_ok [OF assms(1)] by fastforce
  moreover have "audit_sound e" using assms(1) by (auto simp: audit_sound_def fresh_world_def intro: exI [of _ "[]"])
  ultimately have s: "audit_sound ?e" "inj (uuids ?e)" "mono (clock ?e)" "\<And>k. uuids ?e k \<noteq> ''''"
    using assms(1,2) by (auto simp: env_le_def fresh_world_def)
  moreover have "'''' \<notin> set (map ev_ID (audit_events ?e))"
    using s(1,4) unfolding audit_sound_def by (metis ex_map_conv set_map)
  ultimately show ?thesis
    by (simp add: Let_def audit_sound_distinct audit_sound_ordered)
qed

theorem service_audit_unique_ordered_witness:
  "distinct (map ev_ID (audit_events (s_env demo_run))) \<and>
   sorted (map ev_OccurredAt (audit_events (s_env demo_run)))"
  using service_audit_unique_ordered [OF demo_world_fresh, of demo_lib "\<lambda>_. None" demo_env demo_start
      "[HttpRequest ''POST'' [''v1'', ''kyc'', ''applications''] (demo_request ''create'' '''')]"]
  unfolding demo_run_def Let_def by blast

text \<open>
  C6. The log is append-only: what is in it after some events stays in it, unchanged and in place,
  whatever happens later; and for every application that is still there, the events added replay
  from the state it had to the state it has.
\<close>

theorem service_audit_append_only:
  assumes "fresh_world e"
  shows "\<exists>rest. audit_events (s_env (memory_run lib parse env st (evs @ evs') e)) =
      audit_events (s_env (memory_run lib parse env st evs e)) @ rest \<and>
    (\<forall>i a b. apps (s_repo (memory_run lib parse env st evs e)) i = Some a \<and>
       apps (s_repo (memory_run lib parse env st (evs @ evs') e)) i = Some b \<longrightarrow>
       replay (app_State a) (transitions_of i rest) = Some (app_State b))"
proof -
  let ?s = "memory_run lib parse env st evs e" and ?s' = "memory_run lib parse env st (evs @ evs') e"
  have "runs mem_view mem_good ?s ?s'"
    unfolding memory_run_def sys_run_append by (rule mem_service.runs_sys_run)
  then have "app_steps (apps (s_repo ?s), s_env ?s) (apps (s_repo ?s'), s_env ?s')"
    using memory_run_ok [OF assms] by (simp add: runs_def)
  from app_steps_append [OF this] obtain rest where
    rest: "audit_events (s_env ?s') = audit_events (s_env ?s) @ rest" by auto
  have "replay (app_State a) (transitions_of i rest) = Some (app_State b)"
    if "apps (s_repo ?s) i = Some a" "apps (s_repo ?s') i = Some b" for i a b
    using memory_run_app [OF assms that(1)] memory_run_app [OF assms that(2)]
    by (simp add: app_ok_def rest replay_append)
  with rest show ?thesis by blast
qed

theorem service_audit_append_only_witness:
  "\<exists>rest. audit_events (s_env (memory_run demo_lib (\<lambda>_. None) demo_env demo_start
      ([HttpRequest ''POST'' [''v1'', ''kyc'', ''applications''] (demo_request ''create'' '''')] @
       [ReKYCTick [''xx'']]) demo_world)) = audit_events (s_env demo_run) @ rest"
  using service_audit_append_only [OF demo_world_fresh(1), of demo_lib "\<lambda>_. None" demo_env demo_start
      "[HttpRequest ''POST'' [''v1'', ''kyc'', ''applications''] (demo_request ''create'' '''')]" "[ReKYCTick [''xx'']]"]
  unfolding demo_run_def by blast

section \<open>The operations of the service\<close>

text \<open>
  C10. An analyst's disposition is accepted exactly if it is \<open>CLEAR\<close> or \<open>BLOCK\<close> and the application
  is in \<open>MANUAL_REVIEW\<close>. Then the application is decided, \<open>PASS\<close> or \<open>FAIL\<close>, and all its hits carry the
  analyst and the disposition; otherwise no application changes and no transition is logged.
\<close>

theorem disposition_exact:
  assumes "repo_inv r"
    and "Disposition (mem_repo (event_sink_for p)) True i d who (r, h, e) = (res, r', h', e')"
  shows "if (d = ''CLEAR'' \<or> d = ''BLOCK'') \<and> (\<exists>a. apps r i = Some a \<and> app_State a = StateManualReview)
    then res = None \<and>
      (\<exists>a t. apps r i = Some a \<and>
         apps r' = (apps r)(i \<mapsto> transition_app t (if d = ''CLEAR'' then StatePass else StateFail) a)) \<and>
      (\<forall>x \<in> set (hit_List i h'). san_ReviewedBy x = who \<and> san_Disposition x = d)
    else res \<noteq> None \<and> apps r' = apps r \<and> transitions_of j (audit_events e') = transitions_of j (audit_events e)"
proof (cases "(d = ''CLEAR'' \<or> d = ''BLOCK'') \<and> (\<exists>a. apps r i = Some a \<and> app_State a = StateManualReview)")
  case True
  then obtain a where a: "apps r i = Some a" "app_State a = StateManualReview" and d: "d = ''CLEAR'' \<or> d = ''BLOCK''"
    by blast
  have "res = None"
    using chosen_sink.mem.Disposition_decides [OF assms(1) a d, of p True who h e] assms(2) by simp
  obtain b t where b: "apps r i = Some b"
    "apps r' = (apps r)(i \<mapsto> transition_app t (if d = ''CLEAR'' then StatePass else StateFail) b)"
    "\<forall>x \<in> set (index_list (hits h') i). san_ReviewedBy x = who \<and> san_Disposition x = d"
    using chosen_sink.mem.Disposition_ok [OF assms(1) assms(2) [unfolded \<open>res = None\<close>]] by blast
  with True \<open>res = None\<close> show ?thesis unfolding if_P [OF True] hit_List_def by blast
next
  case False
  have "res \<noteq> None"
  proof
    assume "res = None"
    then obtain a where "apps r i = Some a" "app_State a = StateManualReview" "d = ''CLEAR'' \<or> d = ''BLOCK''"
      using chosen_sink.mem.Disposition_ok [OF assms(1), of p True i d who h e r' h' e'] assms(2) by metis
    with False show False by blast
  qed
  then obtain err where "res = Some err" by blast
  from chosen_sink.mem.Disposition_err [OF assms(1) assms(2) [unfolded this]] this False show ?thesis
    by (auto simp: logs_transitions)
qed

theorem disposition_exact_witness:
  "\<exists>t. apps (fst (snd (Disposition (mem_repo (event_sink_for False)) True ''x'' ''CLEAR'' ''ann''
      (s_repo demo_sys, NewScreeningStore, demo_world)))) ''x'' =
      Some (transition_app t StatePass (demo_record ''x'' ''u1'' StateManualReview 5))"
proof -
  obtain res r' h' e' where d: "Disposition (mem_repo (event_sink_for False)) True ''x'' ''CLEAR'' ''ann''
      (s_repo demo_sys, NewScreeningStore, demo_world) = (res, r', h', e')"
    by (metis prod_cases4)
  have "repo_inv (s_repo demo_sys)" using demo_sys_ok by (simp add: sys_ok_def repo_ok_def)
  moreover have "apps (s_repo demo_sys) ''x'' = Some (demo_record ''x'' ''u1'' StateManualReview 5)"
    by (simp add: demo_sys_def)
  moreover have "app_State (demo_record ''x'' ''u1'' StateManualReview 5) = StateManualReview"
    by (simp add: demo_record_def)
  ultimately show ?thesis using disposition_exact [OF _ d] d by auto
qed

text \<open>
  C13. A webhook that its sender has signed with the shared secret (or, without one, with the
  default) and a time stamp at most 300 seconds off the clock is accepted, in each of the header
  forms: the time stamp and signature in one header, or the signature, with its prefix or bare,
  beside a time stamp header. The sender's MAC is hexadecimal text.
\<close>

theorem webhook_signed_accepted:
  assumes "hmac_is_hex lib" and "- (2 ^ 63) \<le> ts" and "ts < 2 ^ 63"
    and "\<bar>sint (Unix (clock e (ticks e)) - word_of_int ts)\<bar> \<le> 300"
    and "sig = hmac_hex lib (if secret = '''' then ''dev-webhook-secret'' else secret) (signed_message ts raw)"
  shows "fst (VerifyWebhook lib raw (stripe_header ts sig) tsHeader secret (300 * second) e) = None \<and>
    fst (VerifyWebhook lib raw (plain_header sig) (FormatInt ts) secret (300 * second) e) = None \<and>
    fst (VerifyWebhook lib raw sig (FormatInt ts) secret (300 * second) e) = None"
proof -
  have hex: "hex_text sig" using assms(1,5) by (simp add: hmac_is_hex_def)
  note accept = VerifyWebhook_signed(2) [OF assms(1-3) _ _ assms(5,4)]
  show ?thesis
    using accept [OF webhook_parts_stripe [OF hex]] accept [OF webhook_parts_plain [OF hex]]
      accept [OF webhook_parts_bare [OF hex]] hex
    by (simp add: stripe_header_def plain_header_def hex_text_def)
qed

theorem webhook_signed_accepted_witness:
  "fst (VerifyWebhook demo_lib ''hook'' ''t=0,v1=ab'' '''' ''s3cret'' (300 * second) demo_world) = None"
proof -
  have hex: "hmac_is_hex demo_lib" by (simp add: hmac_is_hex_def demo_lib_def hex_text_def)
  have fresh: "\<bar>sint (Unix (clock demo_world (ticks demo_world)) - word_of_int 0)\<bar> \<le> 300"
    by (simp add: Unix_def demo_world_def)
  have sig: "''ab'' = hmac_hex demo_lib (if ''s3cret'' = '''' then ''dev-webhook-secret'' else ''s3cret'')
      (signed_message 0 ''hook'')"
    by (simp add: demo_lib_def)
  have header: "''t=0,v1=ab'' = stripe_header 0 ''ab''" by code_simp
  show ?thesis
    unfolding header by (rule webhook_signed_accepted [THEN conjunct1, OF hex _ _ fresh sig]) simp_all
qed

text \<open>
  C14. Conversely, what is accepted carries the MAC of its own body and time stamp, which no
  other body and time stamp sign, and is at most 300 seconds off, except for the one difference,
  \<open>- 2 ^ 63\<close> seconds, whose absolute value overflows to a negative number.
\<close>

theorem webhook_accepted_is_signed:
  assumes "fst (VerifyWebhook lib raw sigHeader tsHeader secret (300 * second) e) = None"
  shows "\<exists>ts sig tsInt. webhook_parts sigHeader tsHeader = (ts, sig) \<and>
    ParseInt 64 (TrimSpace ts) = Some tsInt \<and>
    TrimSpace sig = hmac_hex lib (if secret = '''' then ''dev-webhook-secret'' else secret) (signed_message tsInt raw) \<and>
    (\<bar>sint (Unix (clock e (ticks e)) - word_of_int tsInt)\<bar> \<le> 300 \<or>
     sint (Unix (clock e (ticks e)) - word_of_int tsInt) = - (2 ^ 63)) \<and>
    (\<forall>ts' raw'. signed_message ts' raw' = signed_message tsInt raw \<longrightarrow> ts' = tsInt \<and> raw' = raw)"
proof -
  obtain e' where "VerifyWebhook lib raw sigHeader tsHeader secret (300 * second) e = (None, e')"
    using assms by (cases "VerifyWebhook lib raw sigHeader tsHeader secret (300 * second) e") auto
  then show ?thesis
    unfolding VerifyWebhook_None using fresh_by_300 signed_message_inj by blast
qed

theorem webhook_accepted_is_signed_witness:
  "\<exists>ts sig tsInt. webhook_parts ''v1=ab'' ''12'' = (ts, sig) \<and> ParseInt 64 (TrimSpace ts) = Some tsInt \<and>
    TrimSpace sig = hmac_hex demo_lib ''s3cret'' (signed_message tsInt ''hook'')"
proof -
  have "fst (VerifyWebhook demo_lib ''hook'' ''v1=ab'' ''12'' ''s3cret'' (300 * second) demo_world) = None"
    by code_simp
  from webhook_accepted_is_signed [OF this] show ?thesis by fastforce
qed

text \<open>
  C15. Once a process has accepted an event, a later one with the same identifier, or a second one
  without an identifier, is not accepted, whatever its body and signature and whatever requests
  and jobs the process has served in between, and it changes neither the stores nor the set of
  identifiers. The identifiers are kept in memory: the statement is about one process, and a process
  started later knows none of them.
\<close>

theorem webhook_replay_ignored:
  fixes s :: "(MemStores, 'e NetEnv_scheme) Sys" and st :: StartUp
  assumes "Ingest lib (sv_Repo (memory_services lib parse env st)) (vendor_client lib parse env (st_vendor st))
           ws ctx v raw sh th i (s_store s, s_seen s, s_env s) = (res, r1, w1, e1)"
    and "Accepted res"
    and "s2 = sys_run (memory_services lib parse env st) (vendor_client lib parse env (st_vendor st)) evs
           (s\<lparr>s_store := r1, s_seen := w1, s_env := e1\<rparr>)"
    and "Ingest lib (sv_Repo (memory_services lib parse env st)) (vendor_client lib parse env (st_vendor st))
           ws ctx' v' raw' sh' th' i (s_store s2, s_seen s2, s_env s2) = (res', r3, w3, e3)"
  shows "\<not> Accepted res' \<and> r3 = s_store s2 \<and> w3 = s_seen s2"
  by (rule mem_service.replay_in_run [OF assms])

text \<open>The event of \<open>demo_hook\<close>, a read and a pass of the sweeper, and an event with its identifier.\<close>

theorem webhook_replay_ignored_witness:
  "\<exists>s2. \<not> Accepted (fst (Ingest demo_lib (sv_Repo demo_sv)
     (vendor_client demo_lib (\<lambda>_. None) demo_env (st_vendor demo_start)) (NewWebhookService demo_env True)
     None ''stub'' ''other'' ''v1=ab'' ''0'' ''e1'' (s_store s2, s_seen s2, s_env s2))) \<and>
   s2 = sys_run demo_sv (vendor_client demo_lib (\<lambda>_. None) demo_env (st_vendor demo_start))
     [HttpRequest ''GET'' [''v1'', ''audit-events''] (demo_request '''' ''''), SweepPass [] []]
     (demo_sys\<lparr>s_store := (s_store demo_sys)\<lparr>m_repo := fst (snd demo_hook)\<rparr>,
        s_seen := fst (snd (snd demo_hook)), s_env := snd (snd (snd demo_hook))\<rparr>)"
proof -
  let ?V = "vendor_client demo_lib (\<lambda>_. None) demo_env (st_vendor demo_start)"
  obtain res r w e where h: "demo_hook = (res, r, w, e)" by (metis prod_cases4)
  have first: "Ingest demo_lib (sv_Repo demo_sv) ?V (NewWebhookService demo_env True)
      None ''stub'' ''hook'' ''v1=ab'' ''0'' ''e1'' (s_store demo_sys, s_seen demo_sys, s_env demo_sys) =
      (res, (s_store demo_sys)\<lparr>m_repo := r\<rparr>, w, e)"
    using h by (simp add: memory_services_def Ingest_stored demo_hook_def demo_sys_def)
  define s2 where "s2 = sys_run demo_sv ?V
     [HttpRequest ''GET'' [''v1'', ''audit-events''] (demo_request '''' ''''), SweepPass [] []]
     (demo_sys\<lparr>s_store := (s_store demo_sys)\<lparr>m_repo := r\<rparr>, s_seen := w, s_env := e\<rparr>)"
  obtain res' r' w' e' where again: "Ingest demo_lib (sv_Repo demo_sv) ?V (NewWebhookService demo_env True)
     None ''stub'' ''other'' ''v1=ab'' ''0'' ''e1'' (s_store s2, s_seen s2, s_env s2) = (res', r', w', e')"
    by (metis prod_cases4)
  have "\<not> Accepted res'"
    using webhook_replay_ignored [OF first _ s2_def again] demo_hook_result [OF h] by simp
  then show ?thesis
    by (intro exI [of _ s2] conjI) (simp only: again fst_conv not_False_eq_True, simp only: s2_def h fst_conv snd_conv)
qed

text \<open>Over PostgreSQL, whatever becomes of the statements, it is the same.\<close>

theorem webhook_replay_ignored_database:
  fixes s :: "(Database, 'e NetEnv_scheme) Sys" and st :: StartUp
  assumes "Ingest lib (sv_Repo (database_services pg lib parse env st)) (vendor_client lib parse env (st_vendor st))
           ws ctx v raw sh th i (s_store s, s_seen s, s_env s) = (res, r1, w1, e1)"
    and "Accepted res"
    and "s2 = sys_run (database_services pg lib parse env st) (vendor_client lib parse env (st_vendor st)) evs
           (s\<lparr>s_store := r1, s_seen := w1, s_env := e1\<rparr>)"
    and "Ingest lib (sv_Repo (database_services pg lib parse env st)) (vendor_client lib parse env (st_vendor st))
           ws ctx' v' raw' sh' th' i (s_store s2, s_seen s2, s_env s2) = (res', r3, w3, e3)"
  shows "\<not> Accepted res' \<and> r3 = s_store s2 \<and> w3 = s_seen s2"
  by (rule db_service.replay_in_run [OF assms])

text \<open>
  C16. A webhook that changes an application was verified and accepted, and the change is one legal
  transition of the application it names, to the state its outcome stands for.
\<close>

theorem webhook_effect:
  fixes st :: StartUp and e :: "'e NetEnv_scheme"
  assumes "repo_inv r"
    and "Ingest lib (mem_repo (event_sink_for (st_policy st))) (vendor_client lib' parse env (st_vendor st))
           ws ctx v raw sh th i (r, w, e) = (res, r', w', e')"
    and "apps r' \<noteq> apps r"
  shows "Accepted res \<and> fst (VerifyWebhook lib raw sh th (ws_secret ws) (ws_tolerance ws) e) = None \<and>
    (\<exists>evt (e1 :: 'e NetEnv_scheme) e2 a t to.
       vc_ParseWebhook (vendor_client lib' parse env (st_vendor st)) ctx v raw e1 = (Inr evt, e2) \<and>
       apps r (we_ApplicationID evt) = Some a \<and> CanTransition (app_State a) to \<and> to \<noteq> StateStarted \<and>
       to = reconcileOutcomeToState (we_Outcome evt) (app_State a) \<and>
       apps r' = (apps r)(we_ApplicationID evt \<mapsto> transition_app t to a))"
proof -
  obtain e1 evt e2 a t to where v: "VerifyWebhook lib raw sh th (ws_secret ws) (ws_tolerance ws) e = (None, e1)"
    and acc: "Accepted res"
    and p: "vc_ParseWebhook (vendor_client lib' parse env (st_vendor st)) ctx v raw e1 = (Inr evt, e2)"
    and a: "apps r (we_ApplicationID evt) = Some a" "CanTransition (app_State a) to"
      "to = reconcileOutcomeToState (we_Outcome evt) (app_State a)"
      "apps r' = (apps r)(we_ApplicationID evt \<mapsto> transition_app t to a)"
    using mem_Ingest_cases [OF assms(1,2)] assms(3) by blast
  have "to \<noteq> StateStarted" unfolding a(3) by (rule reconcileOutcomeToState_not_started)
  with v acc p a show ?thesis by (simp only: fst_conv) blast
qed

theorem webhook_effect_witness:
  "\<exists>a t to. apps (s_repo demo_sys) ''xxx'' = Some a \<and> CanTransition (app_State a) to \<and>
     apps (fst (snd demo_hook)) = (apps (s_repo demo_sys))(''xxx'' \<mapsto> transition_app t to a)"
proof -
  obtain res r w e where h: "demo_hook = (res, r, w, e)" by (metis prod_cases4)
  have inv: "repo_inv (s_repo demo_sys)" using demo_sys_ok by (simp add: sys_ok_def repo_ok_def)
  have at: "map_option app_State (apps (s_repo demo_sys) ''xxx'') = Some StateScreening"
    by (simp add: demo_sys_def demo_record_def)
  have new: "map_option app_State (apps r ''xxx'') = Some StateVendorDecision"
    using demo_hook_result [OF h] by auto
  then have "apps r \<noteq> apps (s_repo demo_sys)" using at by auto
  from webhook_effect [OF inv h [unfolded demo_hook_def] this] obtain j a t to where
    j: "apps (s_repo demo_sys) j = Some a" "CanTransition (app_State a) to"
    "apps r = (apps (s_repo demo_sys))(j \<mapsto> transition_app t to a)" by blast
  have "j = ''xxx''" using at new unfolding j(3) by (auto split: if_splits)
  with j show ?thesis by (auto simp: h)
qed

text \<open>
  C17. A tick of the re-KYC scheduler reopens exactly the applications that are due, counts them,
  and leaves every other application as it is, in whatever order the runtime ranges over the map.
\<close>

theorem tick_exact:
  assumes "repo_inv r" and "range_order (apps r) order"
    and "Tick (mem_repo (event_sink_for p)) b order now (r, e) = (n, r', e')"
  shows "n = card {i. \<exists>a. apps r i = Some a \<and> is_due now a} \<and> dom (apps r') = dom (apps r) \<and>
    (\<forall>i a. apps r i = Some a \<longrightarrow>
       (if is_due now a then \<exists>t. apps r' i = Some (reopen_app t a) else apps r' i = Some a))"
proof -
  let ?ds = "map due_ID (fst (repo_ListDueForReKYC (mem_repo (event_sink_for p)) order now (r, e)))"
  have "set ?ds = {i. \<exists>a. apps r i = Some a \<and> is_due now a}"
    using chosen_sink.mem.list_due_law [OF assms(1) surjective_pairing [THEN trans],
        OF arg_cong [where f = "Pair _", OF surjective_pairing], of p order now e]
      chosen_sink.mem.list_due_complete [OF assms(1,2), of _ _ now p e]
    by force
  then have "length ?ds = card {i. \<exists>a. apps r i = Some a \<and> is_due now a}"
    using chosen_sink.mem.list_due_distinct [OF assms(1,2), of p now e] by (metis distinct_card)
  then show ?thesis using chosen_sink.mem.Tick_exact [OF assms] by simp
qed

theorem tick_exact_witness:
  "fst (Tick (mem_repo (event_sink_for False)) True [''x'', ''xx'', ''xxx''] (AddDuration 1 year365)
     (s_repo demo_sys, s_env demo_sys)) = 1"
proof -
  obtain n r' e' where t: "Tick (mem_repo (event_sink_for False)) True [''x'', ''xx'', ''xxx''] (AddDuration 1 year365)
     (s_repo demo_sys, s_env demo_sys) = (n, r', e')"
    by (metis prod_cases3)
  have inv: "repo_inv (s_repo demo_sys)" using demo_sys_ok by (simp add: sys_ok_def repo_ok_def)
  have o: "range_order (apps (s_repo demo_sys)) [''x'', ''xx'', ''xxx'']"
    by (auto simp: range_order_def demo_sys_def)
  have "is_due (AddDuration 1 year365) (demo_record i u st v) \<longleftrightarrow> IsTerminal st" for i u st v
    by (auto simp: is_due_def demo_record_def IsZero_def AddDuration_year365 After_def)
  then have "{i. \<exists>a. apps (s_repo demo_sys) i = Some a \<and> is_due (AddDuration 1 year365) a} = {''xx''}"
    by (auto simp: demo_sys_def)
  with tick_exact [OF inv o t] t show ?thesis by simp
qed

text \<open>
  A second tick at the same time reopens nothing and changes neither repository nor log.
\<close>

theorem tick_idempotent:
  assumes "repo_inv r" and "range_order (apps r) order" and "range_order (apps r') order'"
    and "Tick (mem_repo (event_sink_for p)) b order now (r, e) = (n, r', e')"
    and "Tick (mem_repo (event_sink_for p)) b order' now (r', e') = (n', r'', e'')"
  shows "n' = 0 \<and> apps r'' = apps r' \<and> e'' = e'"
  using chosen_sink.mem.Tick_again [OF assms(1,2,4,3,5)] by simp

theorem tick_idempotent_witness:
  "\<exists>r' (e' :: NetEnv). fst (Tick (mem_repo (event_sink_for False)) True [''x'', ''xx'', ''xxx''] 0 (r', e')) = 0 \<and>
     repo_inv r'"
proof -
  have inv: "repo_inv (s_repo demo_sys)" using demo_sys_ok by (simp add: sys_ok_def repo_ok_def)
  have o: "range_order (apps (s_repo demo_sys)) [''x'', ''xx'', ''xxx'']"
    by (auto simp: range_order_def demo_sys_def)
  obtain n r' e' where t: "Tick (mem_repo (event_sink_for False)) True [''x'', ''xx'', ''xxx''] 0
     (s_repo demo_sys, s_env demo_sys) = (n, r', e')"
    by (metis prod_cases3)
  have "dom (apps r') = dom (apps (s_repo demo_sys))" "repo_inv r'"
    using chosen_sink.mem.Tick_exact [OF inv o t] by auto
  then have "range_order (apps r') [''x'', ''xx'', ''xxx'']" using o by (simp add: range_order_def)
  moreover obtain n2 r2 e2 where again: "Tick (mem_repo (event_sink_for False)) True [''x'', ''xx'', ''xxx''] 0
     (r', e') = (n2, r2, e2)"
    by (metis prod_cases3)
  ultimately have "n2 = 0" using tick_idempotent [OF inv o _ t again] by simp
  with again \<open>repo_inv r'\<close> show ?thesis by (metis fst_conv)
qed

text \<open>
  C19. A pass of the retention sweeper removes exactly the documents and liveness sessions whose
  retention has ended, keeps the others in order, and reports how many it removed.
\<close>

theorem sweep_exact:
  assumes "range_order (docs (m_docs m)) dorder" and "range_order (sessions (m_live m)) lorder"
    and "Sweep mem_docs mem_live audited dorder lorder now (m, e) = ((nd, nl), m', e')"
  shows "index_list (docs (m_docs m')) i =
      filter (\<lambda>x. \<not> expired now (doc_RetentionUntil x)) (index_list (docs (m_docs m)) i) \<and>
    index_list (sessions (m_live m')) i =
      filter (\<lambda>x. \<not> expired now (ls_RetentionUntil x)) (index_list (sessions (m_live m)) i) \<and>
    nd = (\<Sum>j\<leftarrow>dorder. length (filter (\<lambda>x. expired now (doc_RetentionUntil x)) (index_list (docs (m_docs m)) j))) \<and>
    nl = (\<Sum>j\<leftarrow>lorder. length (filter (\<lambda>x. expired now (ls_RetentionUntil x)) (index_list (sessions (m_live m)) j)))"
  using mem_retention.Sweep_contents [OF assms] by simp

theorem sweep_exact_witness:
  "fst (Sweep mem_docs mem_live True [''x''] [] 3 (s_store demo_front, demo_world)) = (1, 0)"
proof -
  obtain nd nl m e where s: "Sweep mem_docs mem_live True [''x''] [] 3
      (s_store demo_front, demo_world) = ((nd, nl), m, e)"
    by (metis prod.collapse)
  show ?thesis using sweep_exact [OF demo_orders s] by (simp add: s demo_doc expired_def After_def IsZero_def)
qed

text \<open>
  A second pass at the same time removes nothing, reports nothing and records nothing.
\<close>

theorem sweep_idempotent:
  assumes "range_order (docs (m_docs m)) dorder" and "range_order (sessions (m_live m)) lorder"
    and "Sweep mem_docs mem_live audited dorder lorder now (m, e) = (res, m', e')"
    and "range_order (docs (m_docs m')) dorder'" and "range_order (sessions (m_live m')) lorder'"
    and "Sweep mem_docs mem_live audited dorder' lorder' now (m', e') = ((nd, nl), m'', e'')"
  shows "nd = 0 \<and> nl = 0 \<and> e'' = e' \<and> index_list (docs (m_docs m'')) = index_list (docs (m_docs m')) \<and>
    index_list (sessions (m_live m'')) = index_list (sessions (m_live m'))"
  using mem_retention.Sweep_again [OF assms] by simp

theorem sweep_idempotent_witness:
  "\<exists>m (e :: NetEnv). Sweep mem_docs mem_live True [''x''] [] 3 (s_store demo_front, demo_world) = ((1, 0), m, e) \<and>
    (\<forall>do' lo'. range_order (docs (m_docs m)) do' \<and> range_order (sessions (m_live m)) lo' \<longrightarrow>
      fst (Sweep mem_docs mem_live True do' lo' 3 (m, e)) = (0, 0))"
proof -
  obtain nd nl m e where s: "Sweep mem_docs mem_live True [''x''] [] 3
      (s_store demo_front, demo_world) = ((nd, nl), m, e)"
    by (metis prod.collapse)
  have n: "nd = 1" "nl = 0"
    using mem_retention.Sweep_contents(3,4) [OF demo_orders s] by (simp_all add: demo_doc expired_def After_def IsZero_def)
  have again: "fst (Sweep mem_docs mem_live True do' lo' 3 (m, e)) = (0, 0)"
    if o: "range_order (docs (m_docs m)) do'" "range_order (sessions (m_live m)) lo'" for do' lo'
  proof -
    obtain nd' nl' m' e' where s': "Sweep mem_docs mem_live True do' lo' 3 (m, e) = ((nd', nl'), m', e')"
      by (metis prod.collapse)
    show ?thesis using sweep_idempotent [OF demo_orders s o s'] by (simp add: s')
  qed
  with s n show ?thesis by auto
qed

text \<open>
  C21. A request with \<open>GET\<close> or \<open>HEAD\<close>, whatever its path, headers and body, changes none of the
  applications, documents, sessions, hits, webhook identifiers and audit events; over PostgreSQL, where
  it sends statements, it changes none of the tables either, whatever becomes of the statements.
\<close>

theorem get_requests_read_only:
  assumes "verb = ''GET'' \<or> verb = ''HEAD''"
  shows "same_data (\<lambda>m. m) s (snd (serve (memory_services lib parse env st) V verb segs rq s)) \<and>
    same_data tables d (snd (serve (database_services pg lib parse env st) V' verb segs rq d))"
  using mem_reads.serve_reading [OF assms] db_reads.serve_reading [OF assms] by blast

theorem get_requests_read_only_witness:
  "s_repo (snd (serve demo_sv (vendor_client demo_lib (\<lambda>_. None) demo_env UseStub) ''GET''
     [''v1'', ''kyc'', ''applications'', ''xx''] (demo_request '''' '''') demo_sys)) = s_repo demo_sys \<and>
   tables (s_store (snd (serve (database_services demo_lossy demo_lib (\<lambda>_. None) demo_env demo_start)
     (vendor_client demo_lib (\<lambda>_. None) demo_env UseStub) ''GET''
     [''v1'', ''kyc'', ''applications'', ''xx''] (demo_request '''' '''') (start_sys demo_table demo_world)))) = tables demo_table"
  using get_requests_read_only [of "''GET''" demo_sys demo_lib "\<lambda>_. None" demo_env demo_start
      "vendor_client demo_lib (\<lambda>_. None) demo_env UseStub" "[''v1'', ''kyc'', ''applications'', ''xx'']"
      "demo_request '''' ''''" "start_sys demo_table demo_world" demo_lossy
      "vendor_client demo_lib (\<lambda>_. None) demo_env UseStub"]
  unfolding same_data_def by (simp add: start_sys_def)

end
